theory Spec2Isabelle
  imports Main "HOL-Library.Word" "HOL-Library.Finite_Map" "HOL-Library.Char_ord"
    "HOL-Library.List_Lexorder"
begin

section \<open>The cluster queue of the Kueue cache (pkg/cache/clusterqueue.go)\<close>

text \<open>
  The development embeds the type \<^verbatim>\<open>clusterQueue\<close> of \<^verbatim>\<open>pkg/cache/clusterqueue.go\<close> and
  its methods. A method that mutates its receiver takes the queue and returns the new queue;
  a method that can return an error returns the error (if any) together with the queue as it
  is left behind. The usage maps, which are read and written at single keys, are partial
  functions. The other Go maps are finite maps. Go leaves the order in which a range loop
  visits the keys of a map open. Where the loop computes sums, counts, sets or lists that are
  sorted afterwards, the result does not depend on that order and the model visits the keys
  in sorted order. The one loop whose result shows the order, the loop of \<^verbatim>\<open>inactiveReason\<close>
  over \<^verbatim>\<open>c.tasFlavors\<close>, takes the order of its visit as an argument. All maps of a queue are
  allocated, as the constructors of the cache do. Logging and metrics are not part of the
  model.
\<close>

subsection \<open>Quantities\<close>

type_synonym int64 = "64 word"

text \<open>A \<^verbatim>\<open>resources.FlavorResource\<close>: the flavor and the resource name.\<close>

type_synonym FlavorResource = "string \<times> string"

type_synonym FlavorResourceQuantities = "FlavorResource \<rightharpoonup> int64"

text \<open>Reading a Go map of integers at a key: zero when the key is missing.\<close>

definition quantity :: "FlavorResourceQuantities \<Rightarrow> FlavorResource \<Rightarrow> int64" where
  "quantity m fr = (case m fr of None \<Rightarrow> 0 | Some q \<Rightarrow> q)"

text \<open>
  The entries of the map that \<^verbatim>\<open>FlavorResourceUsage()\<close> returns, in the order in which a
  range loop visits them.
\<close>

type_synonym UsageEntries = "(FlavorResource \<times> int64) list"

text \<open>
  The quantity that a list of entries holds for a key. A Go map has at most one entry for a
  key, so this is that entry's value, or zero.
\<close>

definition entryQuantity :: "UsageEntries \<Rightarrow> FlavorResource \<Rightarrow> int64" where
  "entryQuantity es fr = sum_list (map snd (filter (\<lambda>e. fst e = fr) es))"

subsection \<open>Workloads, local queues, admission checks, flavors\<close>

text \<open>
  What the cluster queue reads of a \<^verbatim>\<open>kueue.Workload\<close> and of the \<^verbatim>\<open>workload.Info\<close> built
  from it. \<open>FlavorResourceUsage\<close> is the result of \<^verbatim>\<open>workload.NewInfo(w, opts...).FlavorResourceUsage()\<close>,
  \<open>IsAdmitted\<close> of \<^verbatim>\<open>workload.IsAdmitted(w)\<close>, \<open>PodsReady\<close> of
  \<^verbatim>\<open>apimeta.IsStatusConditionTrue(w.Status.Conditions, kueue.WorkloadPodsReady)\<close> and
  \<open>IsUsingTAS\<close> of \<^verbatim>\<open>Info.IsUsingTAS()\<close>. The \<^verbatim>\<open>Workloads\<close> map of a queue holds the
  \<^verbatim>\<open>workload.Info\<close> of each workload; in the model it holds the workload.
\<close>

record Workload =
  Namespace :: string
  Name :: string
  QueueName :: string
  IsAdmitted :: bool
  PodsReady :: bool
  IsUsingTAS :: bool
  FlavorResourceUsage :: UsageEntries

text \<open>
  Modelled from the spec: \<^verbatim>\<open>workload.Key\<close> and \<^verbatim>\<open>workload.QueueKey\<close> (package
  \<^verbatim>\<open>pkg/workload\<close>) and \<^verbatim>\<open>queueKey\<close> (\<^verbatim>\<open>pkg/cache/cache.go\<close>) are not among the sources.
  The spec gives the key of a workload as namespace/name, and the field comment of
  \<^verbatim>\<open>localQueues\<close> gives the key of a local queue as namespace/name.
\<close>

definition Key :: "Workload \<Rightarrow> string" where
  "Key w = Namespace w @ ''/'' @ Name w"

definition QueueKey :: "Workload \<Rightarrow> string" where
  "QueueKey w = Namespace w @ ''/'' @ QueueName w"

record LocalQueue =
  lqNamespace :: string
  lqName :: string

definition queueKey :: "LocalQueue \<Rightarrow> string" where
  "queueKey q = lqNamespace q @ ''/'' @ lqName q"

text \<open>The type \<^verbatim>\<open>queue\<close>. Go's \<^verbatim>\<open>int\<close> is taken at 64 bits.\<close>

record queue =
  key :: string
  reservingWorkloads :: int64
  admittedWorkloads :: int64
  totalReserved :: FlavorResourceQuantities
  admittedUsage :: FlavorResourceQuantities

text \<open>The fields of the cache's \<^verbatim>\<open>AdmissionCheck\<close> that the queue reads.\<close>

record AdmissionCheck =
  Active :: bool
  Controller :: string
  SingleInstanceInClusterQueue :: bool
  FlavorIndependent :: bool

text \<open>The fields of a \<^verbatim>\<open>kueue.ResourceFlavor\<close> that the queue reads.\<close>

record ResourceFlavor =
  NodeLabels :: "(string, string) fmap"
  TopologyName :: "string option"

record ResourceGroup =
  CoveredResources :: "string fset"
  Flavors :: "string list"
  LabelKeys :: "string fset"

text \<open>
  A \<^verbatim>\<open>ResourceQuota\<close> of the resource node (declared in \<^verbatim>\<open>pkg/cache/resource_node.go\<close>, which
  is not among the sources; the spec gives its three components).
\<close>

record ResourceQuota =
  Nominal :: int64
  BorrowingLimit :: "int64 option"
  LendingLimit :: "int64 option"

record ResourceNode =
  Quotas :: "(FlavorResource, ResourceQuota) fmap"
  Usage :: FlavorResourceQuantities

subsection \<open>The input object\<close>

record kueueFlavorQuotas =
  fqName :: string
  fqResources :: "(string \<times> ResourceQuota) list"

record kueueResourceGroup =
  rgCoveredResources :: "string list"
  rgFlavors :: "kueueFlavorQuotas list"

datatype StopPolicy = StopNone | Hold | HoldAndDrain

record ClusterQueuePreemption =
  ReclaimWithinCohort :: string
  WithinClusterQueue :: string

record FlavorFungibility =
  WhenCanBorrow :: string
  WhenCanPreempt :: string

text \<open>
  The parts of \<^verbatim>\<open>in.Spec\<close> that \<^verbatim>\<open>updateClusterQueue\<close> reads. \<open>specAdmissionChecks\<close> is
  the result of \<^verbatim>\<open>utilac.NewAdmissionChecks(in)\<close> and \<open>specFairWeight\<close> the result of
  \<^verbatim>\<open>parseFairWeight(in.Spec.FairSharing)\<close>; \<open>specNamespaceSelector\<close> is the result of
  \<^verbatim>\<open>metav1.LabelSelectorAsSelector(in.Spec.NamespaceSelector)\<close>, \<open>None\<close> when it returns
  an error.
\<close>

record kueueClusterQueue =
  specResourceGroups :: "kueueResourceGroup list"
  specNamespaceSelector :: "string option"
  specStopPolicy :: "StopPolicy option"
  specAdmissionChecks :: "(string, string fset) fmap"
  specPreemption :: "ClusterQueuePreemption option"
  specFlavorFungibility :: "FlavorFungibility option"
  specFairWeight :: int

subsection \<open>The cluster queue\<close>

datatype ClusterQueueStatus = pending | active | terminating

text \<open>
  The errors: \<^verbatim>\<open>errQueueAlreadyExists\<close>, the error of \<^verbatim>\<open>addWorkload\<close>, an error of
  \<^verbatim>\<open>metav1.LabelSelectorAsSelector\<close> and an error of \<^verbatim>\<open>updateCohortTreeResources\<close>.
\<close>

datatype error =
  errQueueAlreadyExists
  | errWorkloadAlreadyExists
  | errSelector
  | errCohortCycle

record clusterQueue =
  cqName :: string
  ResourceGroups :: "ResourceGroup list"
  Workloads :: "(string, Workload) fmap"
  WorkloadsNotReady :: "string set"
  NamespaceSelector :: string
  Preemption :: ClusterQueuePreemption
  FairWeight :: int
  cqFlavorFungibility :: FlavorFungibility
  AdmissionChecks :: "(string, string fset) fmap"
  Status :: ClusterQueueStatus
  AllocatableResourceGeneration :: int64
  AdmittedUsage :: FlavorResourceQuantities
  localQueues :: "(string, queue) fmap"
  podsReadyTracking :: bool
  missingFlavors :: "string list"
  missingAdmissionChecks :: "string list"
  inactiveAdmissionChecks :: "string list"
  multipleSingleInstanceControllersChecks :: "(string, string list) fmap"
  flavorIndependentAdmissionCheckAppliedPerFlavor :: "string list"
  multiKueueAdmissionChecks :: "string list"
  provisioningAdmissionChecks :: "string list"
  perFlavorMultiKueueAdmissionChecks :: "string list"
  tasFlavors :: "(string, string) fmap"
  admittedWorkloadsCount :: int64
  isStopped :: bool
  resourceNode :: ResourceNode
  Parent :: "string option"
  workloadsNotAccountedForTAS :: "string set"

text \<open>
  What a method reads beyond the queue: the feature gates, the shared TAS cache
  (\<open>tasCacheGet f\<close> holds when \<^verbatim>\<open>c.tasCache.Get(f)\<close> is not nil; the usage kept inside the
  TAS flavor caches is outside the model), constants and helpers of packages that are
  not among the sources, and the forest of cohorts: whether the parent pointers above a
  cohort run into a cycle, and otherwise the root of the tree in which the cohort hangs.
\<close>

record Env =
  TopologyAwareScheduling :: bool
  AdmissionCheckValidationRules :: bool
  tasCacheGet :: "string \<Rightarrow> bool"
  MultiKueueControllerName :: string
  ProvisioningRequestControllerName :: string
  TruncateConditionMessage :: "string \<Rightarrow> string"
  quoted :: "string \<Rightarrow> string"
  createResourceQuotas :: "kueueResourceGroup list \<Rightarrow> (FlavorResource, ResourceQuota) fmap"
  cohortHasCycle :: "string \<Rightarrow> bool"
  cohortRoot :: "string \<Rightarrow> string"

text \<open>The keys of a finite map, in sorted order.\<close>

definition keysOf :: "(string, 'v) fmap \<Rightarrow> string list" where
  "keysOf m = sorted_list_of_fset (fmdom m)"

subsection \<open>Usage accounting\<close>

definition updateFlavorUsage ::
  "UsageEntries \<Rightarrow> FlavorResourceQuantities \<Rightarrow> int64 \<Rightarrow> FlavorResourceQuantities" where
  "updateFlavorUsage newUsage oldUsage m =
     fold (\<lambda>(fr, q) old. old(fr \<mapsto> quantity old fr + q * m)) newUsage oldUsage"

text \<open>
  Modelled from the spec: \<^verbatim>\<open>addUsage\<close> and \<^verbatim>\<open>removeUsage\<close> (\<^verbatim>\<open>pkg/cache/resource_node.go\<close>)
  are not among the sources. The spec has a workload's usage added to, and removed from, the
  usage of its queue; what they do to the cohorts above the queue is outside the model.
\<close>

definition addUsage :: "clusterQueue \<Rightarrow> FlavorResource \<Rightarrow> int64 \<Rightarrow> clusterQueue" where
  "addUsage c fr val =
     c\<lparr>resourceNode := (resourceNode c)\<lparr>Usage :=
        (Usage (resourceNode c))(fr \<mapsto> quantity (Usage (resourceNode c)) fr + val)\<rparr>\<rparr>"

definition removeUsage :: "clusterQueue \<Rightarrow> FlavorResource \<Rightarrow> int64 \<Rightarrow> clusterQueue" where
  "removeUsage c fr val =
     c\<lparr>resourceNode := (resourceNode c)\<lparr>Usage :=
        (Usage (resourceNode c))(fr \<mapsto> quantity (Usage (resourceNode c)) fr - val)\<rparr>\<rparr>"

definition isTASSynced :: "Env \<Rightarrow> clusterQueue \<Rightarrow> bool" where
  "isTASSynced env c = list_all (tasCacheGet env) (keysOf (tasFlavors c))"

definition updateWorkloadTASUsage ::
  "Env \<Rightarrow> clusterQueue \<Rightarrow> Workload \<Rightarrow> int64 \<Rightarrow> clusterQueue" where
  "updateWorkloadTASUsage env c wi m =
     (if \<not> TopologyAwareScheduling env \<or> \<not> IsUsingTAS wi then c
      else if \<not> isTASSynced env c
        then c\<lparr>workloadsNotAccountedForTAS := insert (Key wi) (workloadsNotAccountedForTAS c)\<rparr>
        else c\<lparr>workloadsNotAccountedForTAS := workloadsNotAccountedForTAS c - {Key wi}\<rparr>)"

definition usageStep :: "int64 \<Rightarrow> FlavorResource \<times> int64 \<Rightarrow> clusterQueue \<Rightarrow> clusterQueue" where
  "usageStep m = (\<lambda>(fr, q) c.
     (let c1 = (if m = 1 then addUsage c fr q else c)
      in if m = - 1 then removeUsage c1 fr q else c1))"

definition updateLocalQueueUsage :: "queue \<Rightarrow> Workload \<Rightarrow> int64 \<Rightarrow> queue" where
  "updateLocalQueueUsage lq wi m =
     (let lq1 = lq\<lparr>totalReserved := updateFlavorUsage (FlavorResourceUsage wi) (totalReserved lq) m,
                    reservingWorkloads := reservingWorkloads lq + m\<rparr>
      in if IsAdmitted wi
         then lq1\<lparr>admittedUsage := updateFlavorUsage (FlavorResourceUsage wi) (admittedUsage lq1) m,
                  admittedWorkloads := admittedWorkloads lq1 + m\<rparr>
         else lq1)"

definition updateWorkloadUsage ::
  "Env \<Rightarrow> clusterQueue \<Rightarrow> Workload \<Rightarrow> int64 \<Rightarrow> clusterQueue" where
  "updateWorkloadUsage env c wi m =
     (let c1 = fold (usageStep m) (FlavorResourceUsage wi) c;
          c2 = updateWorkloadTASUsage env c1 wi m;
          c3 = (if IsAdmitted wi
                then c2\<lparr>AdmittedUsage := updateFlavorUsage (FlavorResourceUsage wi) (AdmittedUsage c2) m,
                        admittedWorkloadsCount := admittedWorkloadsCount c2 + m\<rparr>
                else c2)
      in case fmlookup (localQueues c3) (QueueKey wi) of
           None \<Rightarrow> c3
         | Some lq \<Rightarrow>
             c3\<lparr>localQueues := fmupd (QueueKey wi) (updateLocalQueueUsage lq wi m) (localQueues c3)\<rparr>)"

subsection \<open>Workloads\<close>

definition deleteWorkload :: "Env \<Rightarrow> clusterQueue \<Rightarrow> Workload \<Rightarrow> clusterQueue" where
  "deleteWorkload env c w =
     (case fmlookup (Workloads c) (Key w) of
        None \<Rightarrow> c
      | Some wi \<Rightarrow>
          (let c1 = updateWorkloadUsage env c wi (- 1);
               c2 = (if podsReadyTracking c1 \<and> \<not> PodsReady w
                     then c1\<lparr>WorkloadsNotReady := WorkloadsNotReady c1 - {Key w}\<rparr> else c1);
               c3 = c2\<lparr>AllocatableResourceGeneration := AllocatableResourceGeneration c2 + 1\<rparr>
           in c3\<lparr>Workloads := fmdrop (Key w) (Workloads c3)\<rparr>))"

definition addOrUpdateWorkload :: "Env \<Rightarrow> clusterQueue \<Rightarrow> Workload \<Rightarrow> clusterQueue" where
  "addOrUpdateWorkload env c w =
     (let c1 = (if fmlookup (Workloads c) (Key w) \<noteq> None then deleteWorkload env c w else c);
          c2 = c1\<lparr>Workloads := fmupd (Key w) w (Workloads c1)\<rparr>;
          c3 = updateWorkloadUsage env c2 w 1
      in if podsReadyTracking c3 \<and> \<not> PodsReady w
         then c3\<lparr>WorkloadsNotReady := insert (Key w) (WorkloadsNotReady c3)\<rparr> else c3)"

definition addWorkload :: "Env \<Rightarrow> clusterQueue \<Rightarrow> Workload \<Rightarrow> error option \<times> clusterQueue" where
  "addWorkload env c w =
     (if fmlookup (Workloads c) (Key w) \<noteq> None then (Some errWorkloadAlreadyExists, c)
      else (None, addOrUpdateWorkload env c w))"

definition forgetWorkload :: "Env \<Rightarrow> clusterQueue \<Rightarrow> Workload \<Rightarrow> clusterQueue" where
  "forgetWorkload env c w =
     (let c1 = deleteWorkload env c w
      in c1\<lparr>workloadsNotAccountedForTAS := workloadsNotAccountedForTAS c1 - {Key w}\<rparr>)"


subsection \<open>Local queues\<close>

text \<open>
  \<^verbatim>\<open>resetUsage\<close> builds a map with the keys of \<^verbatim>\<open>cqUsage\<close>; its loop writes each of these
  keys once, with the value that \<^verbatim>\<open>lqUsage\<close> has there.
\<close>

definition resetUsage ::
  "FlavorResourceQuantities \<Rightarrow> FlavorResourceQuantities \<Rightarrow> FlavorResourceQuantities" where
  "resetUsage lqUsage cqUsage =
     (\<lambda>fr. case cqUsage fr of None \<Rightarrow> None | Some _ \<Rightarrow> Some (quantity lqUsage fr))"

definition resetFlavorsAndResources ::
  "queue \<Rightarrow> FlavorResourceQuantities \<Rightarrow> FlavorResourceQuantities \<Rightarrow> queue" where
  "resetFlavorsAndResources q cqUsage cqAdmittedUsage =
     (let q1 = q\<lparr>totalReserved := resetUsage (totalReserved q) cqUsage\<rparr>
      in q1\<lparr>admittedUsage := resetUsage (admittedUsage q1) cqAdmittedUsage\<rparr>)"

definition workloadBelongsToLocalQueue :: "Workload \<Rightarrow> LocalQueue \<Rightarrow> bool" where
  "workloadBelongsToLocalQueue wl q \<longleftrightarrow> Namespace wl = lqNamespace q \<and> QueueName wl = lqName q"

text \<open>The body of the loop of \<^verbatim>\<open>addLocalQueue\<close> over \<^verbatim>\<open>c.Workloads\<close>.\<close>

definition countWorkload :: "LocalQueue \<Rightarrow> Workload \<Rightarrow> queue \<Rightarrow> queue" where
  "countWorkload q wl qImpl =
     (if workloadBelongsToLocalQueue wl q
      then (let q1 = qImpl\<lparr>totalReserved := updateFlavorUsage (FlavorResourceUsage wl) (totalReserved qImpl) 1\<rparr>;
                q2 = q1\<lparr>reservingWorkloads := reservingWorkloads q1 + 1\<rparr>
            in if IsAdmitted wl
               then (let q3 = q2\<lparr>admittedUsage := updateFlavorUsage (FlavorResourceUsage wl) (admittedUsage q2) 1\<rparr>
                     in q3\<lparr>admittedWorkloads := admittedWorkloads q3 + 1\<rparr>)
               else q2)
      else qImpl)"

definition addLocalQueue :: "clusterQueue \<Rightarrow> LocalQueue \<Rightarrow> error option \<times> clusterQueue" where
  "addLocalQueue c q =
     (if fmlookup (localQueues c) (queueKey q) \<noteq> None then (Some errQueueAlreadyExists, c)
      else
        (let qImpl = \<lparr>key = queueKey q, reservingWorkloads = 0, admittedWorkloads = 0,
                      totalReserved = Map.empty, admittedUsage = Map.empty\<rparr>;
             qImpl1 = resetFlavorsAndResources qImpl (Usage (resourceNode c)) (AdmittedUsage c);
             qImpl2 = fold (\<lambda>k qi. case fmlookup (Workloads c) k of
                                      None \<Rightarrow> qi | Some wl \<Rightarrow> countWorkload q wl qi)
                        (keysOf (Workloads c)) qImpl1
         in (None, c\<lparr>localQueues := fmupd (queueKey q) qImpl2 (localQueues c)\<rparr>)))"

definition deleteLocalQueue :: "clusterQueue \<Rightarrow> LocalQueue \<Rightarrow> clusterQueue" where
  "deleteLocalQueue c q = c\<lparr>localQueues := fmdrop (queueKey q) (localQueues c)\<rparr>"

subsection \<open>Status\<close>

definition isTASViolated :: "Env \<Rightarrow> clusterQueue \<Rightarrow> bool" where
  "isTASViolated env c =
     (if \<not> TopologyAwareScheduling env \<or> tasFlavors c = fmempty then False
      else if \<not> isTASSynced env c then True
      else multiKueueAdmissionChecks c \<noteq> [] \<or> provisioningAdmissionChecks c \<noteq> [])"

text \<open>
  One round of the loop of \<^verbatim>\<open>updateQueueStatus\<close> that accounts, once the TAS cache is
  synced, for the workloads whose TAS usage was deferred.
\<close>

definition accountDeferred :: "Env \<Rightarrow> string \<Rightarrow> clusterQueue \<Rightarrow> clusterQueue" where
  "accountDeferred env k c =
     (case fmlookup (Workloads c) k of
        None \<Rightarrow> c
      | Some w \<Rightarrow>
          if k \<in> workloadsNotAccountedForTAS c
          then (let c1 = addOrUpdateWorkload env c w
                in c1\<lparr>workloadsNotAccountedForTAS := workloadsNotAccountedForTAS c1 - {k}\<rparr>)
          else c)"

definition updateQueueStatus :: "Env \<Rightarrow> clusterQueue \<Rightarrow> clusterQueue" where
  "updateQueueStatus env c =
     (let c1 = (if TopologyAwareScheduling env \<and> tasFlavors c \<noteq> fmempty \<and>
                   workloadsNotAccountedForTAS c \<noteq> {} \<and> isTASSynced env c
                then fold (accountDeferred env) (keysOf (Workloads c)) c else c);
          status0 = (if isStopped c1 \<or>
                        missingFlavors c1 \<noteq> [] \<or>
                        missingAdmissionChecks c1 \<noteq> [] \<or>
                        inactiveAdmissionChecks c1 \<noteq> [] \<or>
                        multipleSingleInstanceControllersChecks c1 \<noteq> fmempty \<or>
                        flavorIndependentAdmissionCheckAppliedPerFlavor c1 \<noteq> [] \<or>
                        isTASViolated env c1 \<or>
                        length (multiKueueAdmissionChecks c1) > 1 \<or>
                        perFlavorMultiKueueAdmissionChecks c1 \<noteq> []
                     then pending else active);
          status = (if Status c1 = terminating then terminating else status0)
      in if status \<noteq> Status c1 then c1\<lparr>Status := status\<rparr> else c1)"

text \<open>
  Modelled from the spec: the reason constants \<^verbatim>\<open>kueue.ClusterQueueActiveReason...\<close> are
  declared in \<^verbatim>\<open>apis/kueue/v1beta1\<close>, which is not among the sources. The spec lists their
  values verbatim.
\<close>

definition ClusterQueueActiveReasonReady :: string where
  "ClusterQueueActiveReasonReady = ''Ready''"
definition ClusterQueueActiveReasonTerminating :: string where
  "ClusterQueueActiveReasonTerminating = ''Terminating''"
definition ClusterQueueActiveReasonStopped :: string where
  "ClusterQueueActiveReasonStopped = ''Stopped''"
definition ClusterQueueActiveReasonFlavorNotFound :: string where
  "ClusterQueueActiveReasonFlavorNotFound = ''FlavorNotFound''"
definition ClusterQueueActiveReasonAdmissionCheckNotFound :: string where
  "ClusterQueueActiveReasonAdmissionCheckNotFound = ''AdmissionCheckNotFound''"
definition ClusterQueueActiveReasonAdmissionCheckInactive :: string where
  "ClusterQueueActiveReasonAdmissionCheckInactive = ''AdmissionCheckInactive''"
definition ClusterQueueActiveReasonMultipleMultiKueueAdmissionChecks :: string where
  "ClusterQueueActiveReasonMultipleMultiKueueAdmissionChecks = ''MultipleMultiKueueAdmissionChecks''"
definition ClusterQueueActiveReasonMultiKueueAdmissionCheckAppliedPerFlavor :: string where
  "ClusterQueueActiveReasonMultiKueueAdmissionCheckAppliedPerFlavor =
     ''MultiKueueAdmissionCheckAppliedPerFlavor''"
definition ClusterQueueActiveReasonMultipleSingleInstanceControllerAdmissionChecks :: string where
  "ClusterQueueActiveReasonMultipleSingleInstanceControllerAdmissionChecks =
     ''MultipleSingleInstanceControllerAdmissionChecks''"
definition ClusterQueueActiveReasonFlavorIndependentAdmissionCheckAppliedPerFlavor :: string where
  "ClusterQueueActiveReasonFlavorIndependentAdmissionCheckAppliedPerFlavor =
     ''FlavorIndependentAdmissionCheckAppliedPerFlavor''"
definition ClusterQueueActiveReasonNotSupportedWithTopologyAwareScheduling :: string where
  "ClusterQueueActiveReasonNotSupportedWithTopologyAwareScheduling =
     ''NotSupportedWithTopologyAwareScheduling''"
definition ClusterQueueActiveReasonTopologyNotFound :: string where
  "ClusterQueueActiveReasonTopologyNotFound = ''TopologyNotFound''"
definition ClusterQueueActiveReasonUnknown :: string where
  "ClusterQueueActiveReasonUnknown = ''Unknown''"

text \<open>\<^verbatim>\<open>strings.Join\<close>, and what \<^verbatim>\<open>%v\<close> prints for a slice of strings.\<close>

fun join :: "string list \<Rightarrow> string \<Rightarrow> string" where
  "join [] sep = []"
| "join [x] sep = x"
| "join (x # y # ys) sep = x @ sep @ join (y # ys) sep"

definition fmtSlice :: "string list \<Rightarrow> string" where
  "fmtSlice xs = ''['' @ join xs '' '' @ '']''"

text \<open>The two slices \<^verbatim>\<open>reasons\<close> and \<^verbatim>\<open>messages\<close> of \<^verbatim>\<open>inactiveReason\<close>, and an append to both.\<close>

type_synonym causes = "string list \<times> string list"

definition addCause :: "string \<Rightarrow> string \<Rightarrow> causes \<Rightarrow> causes" where
  "addCause r m = (\<lambda>(reasons, messages). (reasons @ [r], messages @ [m]))"

definition singleInstanceMessage :: "Env \<Rightarrow> clusterQueue \<Rightarrow> string \<Rightarrow> string" where
  "singleInstanceMessage env c controller =
     ''only one AdmissionCheck of '' @
     fmtSlice (case fmlookup (multipleSingleInstanceControllersChecks c) controller of
                 None \<Rightarrow> [] | Some acs \<Rightarrow> acs) @
     '' can be referenced for controller '' @ quoted env controller"

definition topologyMessage :: "Env \<Rightarrow> string \<Rightarrow> string \<Rightarrow> string" where
  "topologyMessage env topology tasFlavor =
     ''there is no Topology '' @ quoted env topology @ '' for TAS flavor '' @ quoted env tasFlavor"

text \<open>
  An order in which a range loop over a map can visit its keys: every key once.
\<close>

definition rangeOrder :: "(string, 'v) fmap \<Rightarrow> string list \<Rightarrow> bool" where
  "rangeOrder m visited \<longleftrightarrow> distinct visited \<and> set visited = fset (fmdom m)"

text \<open>
  The last part of \<^verbatim>\<open>inactiveReason\<close>, for topology-aware scheduling. \<open>visited\<close> holds the
  keys of \<^verbatim>\<open>c.tasFlavors\<close> in the order in which the range loop visits them.
\<close>

definition tasCauses :: "Env \<Rightarrow> clusterQueue \<Rightarrow> string list \<Rightarrow> causes \<Rightarrow> causes" where
  "tasCauses env c visited rm =
     (if TopologyAwareScheduling env \<and> tasFlavors c \<noteq> fmempty
      then (let rm1 = (if multiKueueAdmissionChecks c \<noteq> []
                       then addCause ClusterQueueActiveReasonNotSupportedWithTopologyAwareScheduling
                              ''TAS is not supported with MultiKueue admission check'' rm
                       else rm);
                rm2 = (if provisioningAdmissionChecks c \<noteq> []
                       then addCause ClusterQueueActiveReasonNotSupportedWithTopologyAwareScheduling
                              ''TAS is not supported with ProvisioningRequest admission check'' rm1
                       else rm1)
            in fold (\<lambda>tasFlavor rm'.
                       case fmlookup (tasFlavors c) tasFlavor of
                         None \<Rightarrow> rm'
                       | Some topology \<Rightarrow>
                           if \<not> tasCacheGet env tasFlavor
                           then addCause ClusterQueueActiveReasonTopologyNotFound
                                  (topologyMessage env topology tasFlavor) rm'
                           else rm')
                 visited rm2)
      else rm)"

definition pendingCauses :: "Env \<Rightarrow> clusterQueue \<Rightarrow> string list \<Rightarrow> causes" where
  "pendingCauses env c visited =
     (let rm0 = ([], []);
          rm1 = (if isStopped c then addCause ClusterQueueActiveReasonStopped ''is stopped'' rm0 else rm0);
          rm2 = (if missingFlavors c \<noteq> []
                 then addCause ClusterQueueActiveReasonFlavorNotFound
                        (''references missing ResourceFlavor(s): '' @ fmtSlice (missingFlavors c)) rm1
                 else rm1);
          rm3 = (if missingAdmissionChecks c \<noteq> []
                 then addCause ClusterQueueActiveReasonAdmissionCheckNotFound
                        (''references missing AdmissionCheck(s): '' @ fmtSlice (missingAdmissionChecks c)) rm2
                 else rm2);
          rm4 = (if inactiveAdmissionChecks c \<noteq> []
                 then addCause ClusterQueueActiveReasonAdmissionCheckInactive
                        (''references inactive AdmissionCheck(s): '' @ fmtSlice (inactiveAdmissionChecks c)) rm3
                 else rm3);
          rm5 = (if length (multiKueueAdmissionChecks c) > 1
                 then addCause ClusterQueueActiveReasonMultipleMultiKueueAdmissionChecks
                        (''Cannot use multiple MultiKueue AdmissionChecks on the same ClusterQueue, found: '' @
                         join (multiKueueAdmissionChecks c) '','') rm4
                 else rm4);
          rm6 = (if perFlavorMultiKueueAdmissionChecks c \<noteq> []
                 then addCause ClusterQueueActiveReasonMultiKueueAdmissionCheckAppliedPerFlavor
                        (''Cannot specify MultiKueue AdmissionCheck per flavor, found: '' @
                         join (perFlavorMultiKueueAdmissionChecks c) '','') rm5
                 else rm5);
          rm7 = (if multipleSingleInstanceControllersChecks c \<noteq> fmempty
                 then (fst rm6 @ [ClusterQueueActiveReasonMultipleSingleInstanceControllerAdmissionChecks],
                       fold (\<lambda>controller messages. messages @ [singleInstanceMessage env c controller])
                         (keysOf (multipleSingleInstanceControllersChecks c)) (snd rm6))
                 else rm6);
          rm8 = (if flavorIndependentAdmissionCheckAppliedPerFlavor c \<noteq> []
                 then addCause ClusterQueueActiveReasonFlavorIndependentAdmissionCheckAppliedPerFlavor
                        (''AdmissionCheck(s): '' @
                         fmtSlice (flavorIndependentAdmissionCheckAppliedPerFlavor c) @
                         '' cannot be set at flavor level'') rm7
                 else rm7)
      in tasCauses env c visited rm8)"

definition inactiveReason :: "Env \<Rightarrow> clusterQueue \<Rightarrow> string list \<Rightarrow> string \<times> string" where
  "inactiveReason env c visited =
     (case Status c of
        terminating \<Rightarrow>
          (ClusterQueueActiveReasonTerminating,
           ''Can't admit new workloads; clusterQueue is terminating'')
      | pending \<Rightarrow>
          (case pendingCauses env c visited of
             ([], messages) \<Rightarrow> (ClusterQueueActiveReasonUnknown, ''Can't admit new workloads.'')
           | (r # reasons, messages) \<Rightarrow>
               (r, TruncateConditionMessage env
                     (''Can't admit new workloads: '' @ join messages '', '' @ ''.'')))
      | active \<Rightarrow> (ClusterQueueActiveReasonReady, ''Can admit new workloads''))"

subsection \<open>Flavors\<close>

text \<open>
  The inner loop of \<^verbatim>\<open>updateLabelKeys\<close> over the flavors of one resource group. It carries
  the label keys collected so far, \<^verbatim>\<open>c.missingFlavors\<close> and \<^verbatim>\<open>c.tasFlavors\<close>.
\<close>

definition flavorStep ::
  "(string, ResourceFlavor) fmap \<Rightarrow> string \<Rightarrow>
   string fset \<times> string list \<times> (string, string) fmap \<Rightarrow>
   string fset \<times> string list \<times> (string, string) fmap" where
  "flavorStep flavors fName = (\<lambda>(keys, missing, tas).
     case fmlookup flavors fName of
       Some flv \<Rightarrow>
         (keys |\<union>| fmdom (NodeLabels flv), missing,
          (case TopologyName flv of None \<Rightarrow> tas | Some t \<Rightarrow> fmupd fName t tas))
     | None \<Rightarrow> (keys, missing @ [fName], tas))"

fun labelKeysLoop ::
  "(string, ResourceFlavor) fmap \<Rightarrow> ResourceGroup list \<Rightarrow>
   string list \<times> (string, string) fmap \<Rightarrow>
   ResourceGroup list \<times> string list \<times> (string, string) fmap" where
  "labelKeysLoop flavors [] (missing, tas) = ([], missing, tas)"
| "labelKeysLoop flavors (rg # rgs) (missing, tas) =
     (if Flavors rg = []
      then (case labelKeysLoop flavors rgs (missing, tas) of
              (rgs', r) \<Rightarrow> (rg\<lparr>LabelKeys := {||}\<rparr> # rgs', r))
      else (case fold (flavorStep flavors) (Flavors rg) ({||}, missing, tas) of
              (keys, missing', tas') \<Rightarrow>
                (case labelKeysLoop flavors rgs (missing', tas') of
                   (rgs', r) \<Rightarrow>
                     ((if keys \<noteq> {||} then rg\<lparr>LabelKeys := keys\<rparr> else rg) # rgs', r))))"

definition updateLabelKeys :: "clusterQueue \<Rightarrow> (string, ResourceFlavor) fmap \<Rightarrow> clusterQueue" where
  "updateLabelKeys c flavors =
     (case labelKeysLoop flavors (ResourceGroups c) ([], fmempty) of
        (rgs, missing, tas) \<Rightarrow>
          c\<lparr>missingFlavors := missing, tasFlavors := tas, ResourceGroups := rgs\<rparr>)"

definition UpdateWithFlavors ::
  "Env \<Rightarrow> clusterQueue \<Rightarrow> (string, ResourceFlavor) fmap \<Rightarrow> clusterQueue" where
  "UpdateWithFlavors env c flavors = updateQueueStatus env (updateLabelKeys c flavors)"

subsection \<open>Admission checks\<close>

text \<open>The local variables that the loop of \<^verbatim>\<open>updateWithAdmissionChecks\<close> fills.\<close>

record checkLists =
  checksPerController :: "(string, string list) fmap"
  singleInstanceControllers :: "string fset"
  multiKueueChecksSet :: "string fset"
  provisioningChecksSet :: "string fset"
  missing :: "string list"
  inactive :: "string list"
  flavorIndependentCheckOnFlavors :: "string list"
  perFlavorMultiKueueChecks :: "string list"

definition emptyCheckLists :: checkLists where
  "emptyCheckLists =
     \<lparr>checksPerController = fmempty, singleInstanceControllers = {||},
      multiKueueChecksSet = {||}, provisioningChecksSet = {||}, missing = [], inactive = [],
      flavorIndependentCheckOnFlavors = [], perFlavorMultiKueueChecks = []\<rparr>"

definition checkStep ::
  "Env \<Rightarrow> (string, AdmissionCheck) fmap \<Rightarrow> (string, string fset) fmap \<Rightarrow> string \<Rightarrow>
   checkLists \<Rightarrow> checkLists" where
  "checkStep env checks acs acName l =
     (let flavors = (case fmlookup acs acName of None \<Rightarrow> {||} | Some fs \<Rightarrow> fs)
      in case fmlookup checks acName of
           None \<Rightarrow> l\<lparr>missing := missing l @ [acName]\<rparr>
         | Some ac \<Rightarrow>
             (let l1 = (if \<not> Active ac then l\<lparr>inactive := inactive l @ [acName]\<rparr> else l);
                  l2 = l1\<lparr>checksPerController :=
                          fmupd (Controller ac)
                            ((case fmlookup (checksPerController l1) (Controller ac) of
                                None \<Rightarrow> [] | Some acs' \<Rightarrow> acs') @ [acName])
                            (checksPerController l1)\<rparr>;
                  l3 = (if SingleInstanceInClusterQueue ac
                        then l2\<lparr>singleInstanceControllers :=
                                  finsert (Controller ac) (singleInstanceControllers l2)\<rparr>
                        else l2);
                  l4 = (if FlavorIndependent ac \<and> flavors \<noteq> {||}
                        then l3\<lparr>flavorIndependentCheckOnFlavors :=
                                  flavorIndependentCheckOnFlavors l3 @ [acName]\<rparr>
                        else l3);
                  l5 = (if Controller ac = ProvisioningRequestControllerName env
                        then l4\<lparr>provisioningChecksSet := finsert acName (provisioningChecksSet l4)\<rparr>
                        else l4)
              in if Controller ac = MultiKueueControllerName env
                 then (let l6 = l5\<lparr>multiKueueChecksSet := finsert acName (multiKueueChecksSet l5)\<rparr>
                       in if flavors \<noteq> {||}
                          then l6\<lparr>perFlavorMultiKueueChecks := perFlavorMultiKueueChecks l6 @ [acName]\<rparr>
                          else l6)
                 else l5))"

text \<open>
  \<^verbatim>\<open>maps.DeleteFunc\<close> on \<^verbatim>\<open>checksPerController\<close>, followed by the sort of the lists that
  remain.
\<close>

definition multipleSingleInstance :: "checkLists \<Rightarrow> (string, string list) fmap" where
  "multipleSingleInstance l =
     fmmap sort
       (fmfilter (\<lambda>controller.
                    case fmlookup (checksPerController l) controller of
                      None \<Rightarrow> False
                    | Some acs \<Rightarrow> \<not> (length acs < 2 \<or> controller |\<notin>| singleInstanceControllers l))
          (checksPerController l))"

definition updateWithAdmissionChecks ::
  "Env \<Rightarrow> clusterQueue \<Rightarrow> (string, AdmissionCheck) fmap \<Rightarrow> clusterQueue" where
  "updateWithAdmissionChecks env c checks =
     (let l = fold (checkStep env checks (AdmissionChecks c)) (keysOf (AdmissionChecks c))
                emptyCheckLists;
          missing' = sort (missing l);
          inactive' = sort (inactive l);
          flavorIndependent' = sort (flavorIndependentCheckOnFlavors l);
          perFlavorMultiKueue' = sort (perFlavorMultiKueueChecks l);
          multiKueueChecks = sorted_list_of_fset (multiKueueChecksSet l);
          provisioningChecks = sorted_list_of_fset (provisioningChecksSet l);
          u1 = (missingAdmissionChecks c \<noteq> missing');
          c1 = (if u1 then c\<lparr>missingAdmissionChecks := missing'\<rparr> else c);
          u2 = (inactiveAdmissionChecks c1 \<noteq> inactive');
          c2 = (if u2 then c1\<lparr>inactiveAdmissionChecks := inactive'\<rparr> else c1);
          perController = multipleSingleInstance l;
          u3 = (AdmissionCheckValidationRules env \<and>
                perController \<noteq> multipleSingleInstanceControllersChecks c2);
          c3 = (if u3 then c2\<lparr>multipleSingleInstanceControllersChecks := perController\<rparr> else c2);
          u4 = (AdmissionCheckValidationRules env \<and>
                flavorIndependentAdmissionCheckAppliedPerFlavor c3 \<noteq> flavorIndependent');
          c4 = (if u4 then c3\<lparr>flavorIndependentAdmissionCheckAppliedPerFlavor := flavorIndependent'\<rparr>
                else c3);
          u5 = (multiKueueAdmissionChecks c4 \<noteq> multiKueueChecks);
          c5 = (if u5 then c4\<lparr>multiKueueAdmissionChecks := multiKueueChecks\<rparr> else c4);
          u6 = (provisioningAdmissionChecks c5 \<noteq> provisioningChecks);
          c6 = (if u6 then c5\<lparr>provisioningAdmissionChecks := provisioningChecks\<rparr> else c5);
          u7 = (perFlavorMultiKueueAdmissionChecks c6 \<noteq> perFlavorMultiKueue');
          c7 = (if u7 then c6\<lparr>perFlavorMultiKueueAdmissionChecks := perFlavorMultiKueue'\<rparr> else c6)
      in if u1 \<or> u2 \<or> u3 \<or> u4 \<or> u5 \<or> u6 \<or> u7 then updateQueueStatus env c7 else c7)"

subsection \<open>Quotas and the update of the whole queue\<close>

definition createdResourceGroups :: "kueueResourceGroup list \<Rightarrow> ResourceGroup list" where
  "createdResourceGroups kueueRgs =
     map (\<lambda>kueueRg. \<lparr>CoveredResources = fset_of_list (rgCoveredResources kueueRg),
                     Flavors = map fqName (rgFlavors kueueRg),
                     LabelKeys = {||}\<rparr>) kueueRgs"

text \<open>
  \<^verbatim>\<open>equality.Semantic.DeepEqual\<close> does not tell a nil map or slice from an empty one, so it is
  the equality of the model.
\<close>

definition updateQuotasAndResourceGroups ::
  "Env \<Rightarrow> clusterQueue \<Rightarrow> kueueResourceGroup list \<Rightarrow> bool \<times> clusterQueue" where
  "updateQuotasAndResourceGroups env c inRgs =
     (let oldRG = ResourceGroups c;
          oldQuotas = Quotas (resourceNode c);
          c1 = c\<lparr>ResourceGroups := createdResourceGroups inRgs\<rparr>;
          c2 = c1\<lparr>resourceNode := (resourceNode c1)\<lparr>Quotas := createResourceQuotas env inRgs\<rparr>\<rparr>
      in (AllocatableResourceGeneration c2 = 0 \<or>
          oldRG \<noteq> ResourceGroups c2 \<or>
          oldQuotas \<noteq> Quotas (resourceNode c2), c2))"

text \<open>
  Modelled from the spec: \<^verbatim>\<open>updateClusterQueueResourceNode\<close> and
  \<^verbatim>\<open>updateCohortTreeResources\<close> (\<^verbatim>\<open>pkg/cache/resource_node.go\<close>) are not among the sources.
  By the spec a change of the resource shape bumps \<^verbatim>\<open>AllocatableResourceGeneration\<close> and
  recomputes the subtree totals, bottom-up, for the old and for the new parent, and the
  update is aborted when the cohort tree has a cycle. By the comments of
  \<^verbatim>\<open>updateClusterQueue\<close> a tree update updates the cluster queues of the tree: the update of
  the tree of a cohort therefore bumps the generation of this queue when the queue hangs in
  that tree, which is when its parent has the same root. The subtree totals and the other
  nodes of the tree are outside the model.
\<close>

definition updateClusterQueueResourceNode :: "clusterQueue \<Rightarrow> clusterQueue" where
  "updateClusterQueueResourceNode c =
     c\<lparr>AllocatableResourceGeneration := AllocatableResourceGeneration c + 1\<rparr>"

definition inCohortTree :: "Env \<Rightarrow> clusterQueue \<Rightarrow> string \<Rightarrow> bool" where
  "inCohortTree env c cohort =
     (case Parent c of
        None \<Rightarrow> False
      | Some parent \<Rightarrow> \<not> cohortHasCycle env parent \<and> cohortRoot env parent = cohortRoot env cohort)"

definition updateCohortTreeResources ::
  "Env \<Rightarrow> clusterQueue \<Rightarrow> string \<Rightarrow> error option \<times> clusterQueue" where
  "updateCohortTreeResources env c cohort =
     (if cohortHasCycle env cohort then (Some errCohortCycle, c)
      else (None, if inCohortTree env c cohort then updateClusterQueueResourceNode c else c))"

text \<open>
  The defaults of \<^verbatim>\<open>updateClusterQueue\<close>. The constants \<^verbatim>\<open>kueue.PreemptionPolicyNever\<close>,
  \<^verbatim>\<open>kueue.Borrow\<close> and \<^verbatim>\<open>kueue.TryNextFlavor\<close> are declared outside the sources; the spec
  names the policies.
\<close>

definition defaultPreemption :: ClusterQueuePreemption where
  "defaultPreemption = \<lparr>ReclaimWithinCohort = ''Never'', WithinClusterQueue = ''Never''\<rparr>"

definition defaultFlavorFungibility :: FlavorFungibility where
  "defaultFlavorFungibility = \<lparr>WhenCanBorrow = ''Borrow'', WhenCanPreempt = ''TryNextFlavor''\<rparr>"

definition updateClusterQueue ::
  "Env \<Rightarrow> clusterQueue \<Rightarrow> kueueClusterQueue \<Rightarrow> (string, ResourceFlavor) fmap \<Rightarrow>
   (string, AdmissionCheck) fmap \<Rightarrow> string option \<Rightarrow> error option \<times> clusterQueue" where
  "updateClusterQueue env c inp resourceFlavors admissionChecks oldParent =
     (case updateQuotasAndResourceGroups env c (specResourceGroups inp) of
        (changed, c1) \<Rightarrow>
          (case (if changed \<or> oldParent \<noteq> Parent c1
                 then (let c1' = (case oldParent of
                                    Some old \<Rightarrow>
                                      if oldParent \<noteq> Parent c1
                                      then snd (updateCohortTreeResources env c1 old) else c1
                                  | None \<Rightarrow> c1)
                       in case Parent c1' of
                            Some cohort \<Rightarrow> updateCohortTreeResources env c1' cohort
                          | None \<Rightarrow> (None, updateClusterQueueResourceNode c1'))
                 else (None, c1)) of
             (Some err, c2) \<Rightarrow> (Some err, c2)
           | (None, c2) \<Rightarrow>
               (case specNamespaceSelector inp of
                  None \<Rightarrow> (Some errSelector, c2)
                | Some nsSelector \<Rightarrow>
                    (let c3 = c2\<lparr>NamespaceSelector := nsSelector\<rparr>;
                         c4 = c3\<lparr>isStopped :=
                                 ((case specStopPolicy inp of None \<Rightarrow> StopNone | Some p \<Rightarrow> p) \<noteq> StopNone)\<rparr>;
                         c5 = c4\<lparr>AdmissionChecks := specAdmissionChecks inp\<rparr>;
                         c6 = c5\<lparr>Preemption :=
                                 (case specPreemption inp of Some p \<Rightarrow> p | None \<Rightarrow> defaultPreemption)\<rparr>;
                         c7 = UpdateWithFlavors env c6 resourceFlavors;
                         c8 = updateWithAdmissionChecks env c7 admissionChecks;
                         c9 = c8\<lparr>cqFlavorFungibility :=
                                 (case specFlavorFungibility inp of
                                    Some ff \<Rightarrow>
                                      (let ff1 = (if WhenCanBorrow ff = []
                                                  then ff\<lparr>WhenCanBorrow := WhenCanBorrow defaultFlavorFungibility\<rparr>
                                                  else ff)
                                       in if WhenCanPreempt ff1 = []
                                          then ff1\<lparr>WhenCanPreempt := WhenCanPreempt defaultFlavorFungibility\<rparr>
                                          else ff1)
                                  | None \<Rightarrow> defaultFlavorFungibility)\<rparr>
                     in (None, c9\<lparr>FairWeight := specFairWeight inp\<rparr>)))))"

subsection \<open>Sequences of operations\<close>

datatype statusOp =
  OpUpdateClusterQueue kueueClusterQueue "(string, ResourceFlavor) fmap"
    "(string, AdmissionCheck) fmap" "string option"
  | OpUpdateWithFlavors "(string, ResourceFlavor) fmap"
  | OpUpdateWithAdmissionChecks "(string, AdmissionCheck) fmap"

fun applyStatusOp :: "Env \<Rightarrow> statusOp \<Rightarrow> clusterQueue \<Rightarrow> clusterQueue" where
  "applyStatusOp env (OpUpdateClusterQueue inp flavors checks oldParent) c =
     snd (updateClusterQueue env c inp flavors checks oldParent)"
| "applyStatusOp env (OpUpdateWithFlavors flavors) c = UpdateWithFlavors env c flavors"
| "applyStatusOp env (OpUpdateWithAdmissionChecks checks) c = updateWithAdmissionChecks env c checks"

datatype workloadOp =
  OpAddWorkload Workload
  | OpAddOrUpdateWorkload Workload
  | OpDeleteWorkload Workload

fun applyWorkloadOp :: "Env \<Rightarrow> workloadOp \<Rightarrow> clusterQueue \<Rightarrow> clusterQueue" where
  "applyWorkloadOp env (OpAddWorkload w) c = snd (addWorkload env c w)"
| "applyWorkloadOp env (OpAddOrUpdateWorkload w) c = addOrUpdateWorkload env c w"
| "applyWorkloadOp env (OpDeleteWorkload w) c = deleteWorkload env c w"

datatype queueOp =
  StatusOp statusOp
  | WorkloadOp workloadOp
  | OpUpdateQueueStatus
  | OpForgetWorkload Workload
  | OpAddLocalQueue LocalQueue
  | OpDeleteLocalQueue LocalQueue

fun applyQueueOp :: "Env \<Rightarrow> queueOp \<Rightarrow> clusterQueue \<Rightarrow> clusterQueue" where
  "applyQueueOp env (StatusOp op) c = applyStatusOp env op c"
| "applyQueueOp env (WorkloadOp op) c = applyWorkloadOp env op c"
| "applyQueueOp env OpUpdateQueueStatus c = updateQueueStatus env c"
| "applyQueueOp env (OpForgetWorkload w) c = forgetWorkload env c w"
| "applyQueueOp env (OpAddLocalQueue q) c = snd (addLocalQueue c q)"
| "applyQueueOp env (OpDeleteLocalQueue q) c = deleteLocalQueue c q"

section \<open>Notions used in the properties\<close>

text \<open>
  The sum of the usage of the workloads of a map that satisfy \<open>P\<close>, each key counted once,
  and the number of such workloads.
\<close>

definition usageSum :: "(Workload \<Rightarrow> bool) \<Rightarrow> (string, Workload) fmap \<Rightarrow> FlavorResource \<Rightarrow> int64" where
  "usageSum P m fr =
     (\<Sum>k \<in> {k \<in> fset (fmdom m). P (the (fmlookup m k))}.
        entryQuantity (FlavorResourceUsage (the (fmlookup m k))) fr)"

definition workloadCount :: "(Workload \<Rightarrow> bool) \<Rightarrow> (string, Workload) fmap \<Rightarrow> nat" where
  "workloadCount P m = card {k \<in> fset (fmdom m). P (the (fmlookup m k))}"

text \<open>
  The usage of the queue and its admitted usage are the sums over its workloads, read at
  every flavor and resource.
\<close>

definition usageInvariant :: "clusterQueue \<Rightarrow> bool" where
  "usageInvariant c \<longleftrightarrow>
     (\<forall>fr. quantity (Usage (resourceNode c)) fr = usageSum (\<lambda>w. True) (Workloads c) fr \<and>
           quantity (AdmittedUsage c) fr = usageSum IsAdmitted (Workloads c) fr)"

text \<open>
  The fields that the accounting of workloads writes, blanked. Two queues with the same
  image agree on every other field.
\<close>

definition accountingCleared :: "clusterQueue \<Rightarrow> clusterQueue" where
  "accountingCleared c =
     c\<lparr>Workloads := fmempty, WorkloadsNotReady := {}, AllocatableResourceGeneration := 0,
       AdmittedUsage := Map.empty, localQueues := fmempty, admittedWorkloadsCount := 0,
       resourceNode := (resourceNode c)\<lparr>Usage := Map.empty\<rparr>,
       workloadsNotAccountedForTAS := {}\<rparr>"

definition workloadFrame :: "clusterQueue \<Rightarrow> clusterQueue \<Rightarrow> bool" where
  "workloadFrame c c' \<longleftrightarrow> accountingCleared c' = accountingCleared c"

text \<open>
  The causes for which a queue is not active, as recorded in the queue: it is stopped; it
  references a missing flavor; it references a missing or an inactive admission check; it
  breaks a uniqueness rule for admission checks (more than one MultiKueue check, a MultiKueue
  check applied per flavor, several checks of a single-instance controller, a
  flavor-independent check applied at flavor level); with topology-aware scheduling enabled
  it has a TAS flavor together with a MultiKueue or provisioning check or with a topology
  that the TAS cache does not hold.
\<close>

definition hasInactiveCause :: "Env \<Rightarrow> clusterQueue \<Rightarrow> bool" where
  "hasInactiveCause env c \<longleftrightarrow>
     isStopped c \<or>
     missingFlavors c \<noteq> [] \<or>
     missingAdmissionChecks c \<noteq> [] \<or>
     inactiveAdmissionChecks c \<noteq> [] \<or>
     length (multiKueueAdmissionChecks c) > 1 \<or>
     perFlavorMultiKueueAdmissionChecks c \<noteq> [] \<or>
     multipleSingleInstanceControllersChecks c \<noteq> fmempty \<or>
     flavorIndependentAdmissionCheckAppliedPerFlavor c \<noteq> [] \<or>
     (TopologyAwareScheduling env \<and> tasFlavors c \<noteq> fmempty \<and>
      (multiKueueAdmissionChecks c \<noteq> [] \<or> provisioningAdmissionChecks c \<noteq> [] \<or>
       (\<exists>tasFlavor. tasFlavor |\<in>| fmdom (tasFlavors c) \<and> \<not> tasCacheGet env tasFlavor)))"

text \<open>The status of a queue agrees with its recorded causes.\<close>

definition statusConsistent :: "Env \<Rightarrow> clusterQueue \<Rightarrow> bool" where
  "statusConsistent env c \<longleftrightarrow>
     (Status c = active \<longleftrightarrow> \<not> (hasInactiveCause env c \<or> Status c = terminating))"

text \<open>
  A list of strings with a separator between neighbours, and a list of strings as Go's
  \<^verbatim>\<open>%v\<close> prints it: in brackets, with a blank between neighbours.
\<close>

definition separated :: "string \<Rightarrow> string list \<Rightarrow> string" where
  "separated sep xs = (case xs of [] \<Rightarrow> [] | x # ys \<Rightarrow> x @ concat (map (\<lambda>y. sep @ y) ys))"

definition listed :: "string list \<Rightarrow> string" where
  "listed xs = ''['' @ separated '' '' xs @ '']''"

text \<open>
  The causes that are recorded in a queue, in the order of the spec, each with its reason
  code and its messages. The causes of the last kind, TAS incompatibility, are the two
  unsupported kinds of admission check and then, for each TAS flavor whose topology the TAS
  cache does not hold, one more cause, the flavors taken in the order \<open>visited\<close>.
\<close>

definition applicableCauses ::
  "Env \<Rightarrow> clusterQueue \<Rightarrow> string list \<Rightarrow> (string \<times> string list) list" where
  "applicableCauses env c visited =
     (if isStopped c then [(''Stopped'', [''is stopped''])] else []) @
     (if missingFlavors c \<noteq> []
      then [(''FlavorNotFound'',
             [''references missing ResourceFlavor(s): '' @ listed (missingFlavors c)])]
      else []) @
     (if missingAdmissionChecks c \<noteq> []
      then [(''AdmissionCheckNotFound'',
             [''references missing AdmissionCheck(s): '' @ listed (missingAdmissionChecks c)])]
      else []) @
     (if inactiveAdmissionChecks c \<noteq> []
      then [(''AdmissionCheckInactive'',
             [''references inactive AdmissionCheck(s): '' @ listed (inactiveAdmissionChecks c)])]
      else []) @
     (if length (multiKueueAdmissionChecks c) > 1
      then [(''MultipleMultiKueueAdmissionChecks'',
             [''Cannot use multiple MultiKueue AdmissionChecks on the same ClusterQueue, found: '' @
              separated '','' (multiKueueAdmissionChecks c)])]
      else []) @
     (if perFlavorMultiKueueAdmissionChecks c \<noteq> []
      then [(''MultiKueueAdmissionCheckAppliedPerFlavor'',
             [''Cannot specify MultiKueue AdmissionCheck per flavor, found: '' @
              separated '','' (perFlavorMultiKueueAdmissionChecks c)])]
      else []) @
     (if multipleSingleInstanceControllersChecks c \<noteq> fmempty
      then [(''MultipleSingleInstanceControllerAdmissionChecks'',
             map (\<lambda>controller.
                    ''only one AdmissionCheck of '' @
                    listed (the (fmlookup (multipleSingleInstanceControllersChecks c) controller)) @
                    '' can be referenced for controller '' @ quoted env controller)
               (sorted_list_of_fset (fmdom (multipleSingleInstanceControllersChecks c))))]
      else []) @
     (if flavorIndependentAdmissionCheckAppliedPerFlavor c \<noteq> []
      then [(''FlavorIndependentAdmissionCheckAppliedPerFlavor'',
             [''AdmissionCheck(s): '' @ listed (flavorIndependentAdmissionCheckAppliedPerFlavor c) @
              '' cannot be set at flavor level''])]
      else []) @
     (if TopologyAwareScheduling env \<and> tasFlavors c \<noteq> fmempty
      then (if multiKueueAdmissionChecks c \<noteq> []
            then [(''NotSupportedWithTopologyAwareScheduling'',
                   [''TAS is not supported with MultiKueue admission check''])]
            else []) @
           (if provisioningAdmissionChecks c \<noteq> []
            then [(''NotSupportedWithTopologyAwareScheduling'',
                   [''TAS is not supported with ProvisioningRequest admission check''])]
            else []) @
           map (\<lambda>tasFlavor.
                  (''TopologyNotFound'',
                   [''there is no Topology '' @
                    quoted env (the (fmlookup (tasFlavors c) tasFlavor)) @
                    '' for TAS flavor '' @ quoted env tasFlavor]))
             (filter (\<lambda>tasFlavor. \<not> tasCacheGet env tasFlavor) visited)
      else [])"

text \<open>The reason codes that the spec enumerates.\<close>

definition reasonCodes :: "string list" where
  "reasonCodes =
     [''Ready'', ''Terminating'', ''Stopped'', ''FlavorNotFound'', ''AdmissionCheckNotFound'',
      ''AdmissionCheckInactive'', ''MultipleMultiKueueAdmissionChecks'',
      ''MultiKueueAdmissionCheckAppliedPerFlavor'',
      ''MultipleSingleInstanceControllerAdmissionChecks'',
      ''FlavorIndependentAdmissionCheckAppliedPerFlavor'',
      ''NotSupportedWithTopologyAwareScheduling'', ''TopologyNotFound'', ''Unknown'']"

text \<open>The queue after the first part of \<^verbatim>\<open>updateQueueStatus\<close>, the deferred TAS accounting.\<close>

definition deferredAccounted :: "Env \<Rightarrow> clusterQueue \<Rightarrow> clusterQueue" where
  "deferredAccounted env c =
     (if TopologyAwareScheduling env \<and> tasFlavors c \<noteq> fmempty \<and>
         workloadsNotAccountedForTAS c \<noteq> {} \<and> isTASSynced env c
      then fold (accountDeferred env) (keysOf (Workloads c)) c else c)"

text \<open>The status of a queue and the fields from which the status is computed.\<close>

definition statusFields ::
  "clusterQueue \<Rightarrow>
   ClusterQueueStatus \<times> bool \<times> string list \<times> string list \<times> string list \<times> string list \<times>
   string list \<times> (string, string list) fmap \<times> string list \<times> (string, string) fmap \<times> string list" where
  "statusFields c =
     (Status c, isStopped c, missingFlavors c, missingAdmissionChecks c,
      inactiveAdmissionChecks c, multiKueueAdmissionChecks c,
      perFlavorMultiKueueAdmissionChecks c, multipleSingleInstanceControllersChecks c,
      flavorIndependentAdmissionCheckAppliedPerFlavor c, tasFlavors c,
      provisioningAdmissionChecks c)"

text \<open>
  The two halves of \<^verbatim>\<open>updateClusterQueue\<close>: the update of the quotas with the update of the
  resource node that follows it, and the copy of the spec into the queue.
\<close>

definition quotaStage ::
  "Env \<Rightarrow> clusterQueue \<Rightarrow> kueueClusterQueue \<Rightarrow> string option \<Rightarrow> error option \<times> clusterQueue" where
  "quotaStage env c inp oldParent =
     (case updateQuotasAndResourceGroups env c (specResourceGroups inp) of
        (changed, c1) \<Rightarrow>
          if changed \<or> oldParent \<noteq> Parent c1
          then (let c1' = (case oldParent of
                             Some old \<Rightarrow>
                               if oldParent \<noteq> Parent c1
                               then snd (updateCohortTreeResources env c1 old) else c1
                           | None \<Rightarrow> c1)
                in case Parent c1' of
                     Some cohort \<Rightarrow> updateCohortTreeResources env c1' cohort
                   | None \<Rightarrow> (None, updateClusterQueueResourceNode c1'))
          else (None, c1))"

definition specStage :: "clusterQueue \<Rightarrow> kueueClusterQueue \<Rightarrow> string \<Rightarrow> clusterQueue" where
  "specStage c inp nsSelector =
     c\<lparr>NamespaceSelector := nsSelector,
       isStopped := ((case specStopPolicy inp of None \<Rightarrow> StopNone | Some p \<Rightarrow> p) \<noteq> StopNone),
       AdmissionChecks := specAdmissionChecks inp,
       Preemption := (case specPreemption inp of Some p \<Rightarrow> p | None \<Rightarrow> defaultPreemption)\<rparr>"

text \<open>
  The generation of \<open>c'\<close> is the generation of \<open>c\<close> after \<open>n\<close> increments, for some \<open>n\<close>
  between \<open>lo\<close> and \<open>hi\<close>.
\<close>

definition generationAdvances :: "nat \<Rightarrow> nat \<Rightarrow> clusterQueue \<Rightarrow> clusterQueue \<Rightarrow> bool" where
  "generationAdvances lo hi c c' \<longleftrightarrow>
     (\<exists>n. lo \<le> n \<and> n \<le> hi \<and>
          AllocatableResourceGeneration c' = AllocatableResourceGeneration c + of_nat n)"

subsection \<open>Example values\<close>

definition exampleEnv :: Env where
  "exampleEnv =
     \<lparr>TopologyAwareScheduling = False, AdmissionCheckValidationRules = False,
      tasCacheGet = (\<lambda>f. False),
      MultiKueueControllerName = ''kueue.x-k8s.io/multikueue'',
      ProvisioningRequestControllerName = ''kueue.x-k8s.io/provisioning-request'',
      TruncateConditionMessage = (\<lambda>s. s),
      quoted = (\<lambda>s. [CHR 0x22] @ s @ [CHR 0x22]),
      createResourceQuotas = (\<lambda>rgs. fmempty),
      cohortHasCycle = (\<lambda>cohort. False),
      cohortRoot = (\<lambda>cohort. ''root'')\<rparr>"

definition emptyQueue :: clusterQueue where
  "emptyQueue =
     \<lparr>cqName = ''cq'', ResourceGroups = [], Workloads = fmempty, WorkloadsNotReady = {},
      NamespaceSelector = [], Preemption = defaultPreemption, FairWeight = 1,
      cqFlavorFungibility = defaultFlavorFungibility, AdmissionChecks = fmempty,
      Status = active, AllocatableResourceGeneration = 1, AdmittedUsage = Map.empty,
      localQueues = fmempty, podsReadyTracking = True, missingFlavors = [],
      missingAdmissionChecks = [], inactiveAdmissionChecks = [],
      multipleSingleInstanceControllersChecks = fmempty,
      flavorIndependentAdmissionCheckAppliedPerFlavor = [], multiKueueAdmissionChecks = [],
      provisioningAdmissionChecks = [], perFlavorMultiKueueAdmissionChecks = [],
      tasFlavors = fmempty, admittedWorkloadsCount = 0, isStopped = False,
      resourceNode = \<lparr>Quotas = fmempty, Usage = Map.empty\<rparr>, Parent = None,
      workloadsNotAccountedForTAS = {}\<rparr>"

definition exampleWorkload :: Workload where
  "exampleWorkload =
     \<lparr>Namespace = ''ns'', Name = ''a'', QueueName = ''lq'', IsAdmitted = True,
      PodsReady = False, IsUsingTAS = False,
      FlavorResourceUsage = [((''default'', ''cpu''), 3)]\<rparr>"

text \<open>The same workload after its request has grown.\<close>

definition updatedWorkload :: Workload where
  "updatedWorkload = exampleWorkload\<lparr>FlavorResourceUsage := [((''default'', ''cpu''), 5)]\<rparr>"

definition exampleLocalQueue :: LocalQueue where
  "exampleLocalQueue = \<lparr>lqNamespace = ''ns'', lqName = ''lq''\<rparr>"

text \<open>A queue with the local queue registered and no workload.\<close>

definition exampleQueue :: clusterQueue where
  "exampleQueue =
     emptyQueue\<lparr>localQueues :=
       fmupd ''ns/lq''
         \<lparr>key = ''ns/lq'', reservingWorkloads = 0, admittedWorkloads = 0,
          totalReserved = Map.empty, admittedUsage = Map.empty\<rparr> fmempty\<rparr>"

text \<open>The same queue holding the example workload.\<close>

definition busyQueue :: clusterQueue where
  "busyQueue =
     emptyQueue\<lparr>Workloads := fmupd ''ns/a'' exampleWorkload fmempty,
       WorkloadsNotReady := {''ns/a''},
       AdmittedUsage := [(''default'', ''cpu'') \<mapsto> 3],
       admittedWorkloadsCount := 1,
       resourceNode := \<lparr>Quotas = fmempty, Usage = [(''default'', ''cpu'') \<mapsto> 3]\<rparr>,
       localQueues :=
         fmupd ''ns/lq''
           \<lparr>key = ''ns/lq'', reservingWorkloads = 1, admittedWorkloads = 1,
            totalReserved = [(''default'', ''cpu'') \<mapsto> 3],
            admittedUsage = [(''default'', ''cpu'') \<mapsto> 3]\<rparr> fmempty\<rparr>"

text \<open>A stopped queue that references a check the cache does not know.\<close>

definition pendingQueue :: clusterQueue where
  "pendingQueue =
     emptyQueue\<lparr>Status := pending, isStopped := True, missingAdmissionChecks := [''check3'']\<rparr>"

text \<open>A queue that references three admission checks, and a cache that knows two of them.\<close>

definition checkedQueue :: clusterQueue where
  "checkedQueue =
     emptyQueue\<lparr>AdmissionChecks :=
       fmupd ''check1'' {||} (fmupd ''check2'' {||} (fmupd ''check3'' {||} fmempty))\<rparr>"

definition twoChecks :: "(string, AdmissionCheck) fmap" where
  "twoChecks =
     fmupd ''check1''
       \<lparr>Active = True, Controller = ''controller1'', SingleInstanceInClusterQueue = False,
        FlavorIndependent = False\<rparr>
       (fmupd ''check2''
          \<lparr>Active = True, Controller = ''controller2'', SingleInstanceInClusterQueue = False,
           FlavorIndependent = False\<rparr> fmempty)"

text \<open>The queue holding the example workload, with its generation at the largest int64.\<close>

definition lastGenerationQueue :: clusterQueue where
  "lastGenerationQueue = busyQueue\<lparr>AllocatableResourceGeneration := 9223372036854775807\<rparr>"

text \<open>An update that names one resource group.\<close>

definition exampleUpdate :: kueueClusterQueue where
  "exampleUpdate =
     \<lparr>specResourceGroups =
        [\<lparr>rgCoveredResources = [''cpu''],
          rgFlavors = [\<lparr>fqName = ''default'', fqResources = []\<rparr>]\<rparr>],
      specNamespaceSelector = Some [], specStopPolicy = None, specAdmissionChecks = fmempty,
      specPreemption = None, specFlavorFungibility = None, specFairWeight = 1\<rparr>"

text \<open>
  Three more workloads: one of the same local queue that is not admitted, one of a queue with
  the same name in another namespace, one of another queue of the same namespace.
\<close>

definition waitingWorkload :: Workload where
  "waitingWorkload =
     \<lparr>Namespace = ''ns'', Name = ''b'', QueueName = ''lq'', IsAdmitted = False,
      PodsReady = False, IsUsingTAS = False,
      FlavorResourceUsage = [((''default'', ''cpu''), 2)]\<rparr>"

definition foreignWorkload :: Workload where
  "foreignWorkload =
     \<lparr>Namespace = ''other'', Name = ''c'', QueueName = ''lq'', IsAdmitted = True,
      PodsReady = False, IsUsingTAS = False,
      FlavorResourceUsage = [((''default'', ''cpu''), 5)]\<rparr>"

definition siblingWorkload :: Workload where
  "siblingWorkload =
     \<lparr>Namespace = ''ns'', Name = ''d'', QueueName = ''main'', IsAdmitted = True,
      PodsReady = False, IsUsingTAS = False,
      FlavorResourceUsage = [((''default'', ''cpu''), 7)]\<rparr>"

text \<open>A queue that holds the four workloads, with no local queue registered.\<close>

definition crowdedQueue :: clusterQueue where
  "crowdedQueue =
     emptyQueue\<lparr>Workloads :=
         fmupd ''ns/a'' exampleWorkload
           (fmupd ''ns/b'' waitingWorkload
              (fmupd ''other/c'' foreignWorkload
                 (fmupd ''ns/d'' siblingWorkload fmempty))),
       WorkloadsNotReady := {''ns/a'', ''ns/b'', ''other/c'', ''ns/d''},
       AdmittedUsage := [(''default'', ''cpu'') \<mapsto> 15],
       admittedWorkloadsCount := 3,
       resourceNode := \<lparr>Quotas = fmempty, Usage = [(''default'', ''cpu'') \<mapsto> 17]\<rparr>\<rparr>"


definition tasResourceFlavors :: "(string, ResourceFlavor) fmap" where
  "tasResourceFlavors =
     fmupd ''tas-a'' \<lparr>NodeLabels = fmempty, TopologyName = Some ''topology''\<rparr>
       (fmupd ''tas-b'' \<lparr>NodeLabels = fmempty, TopologyName = Some ''topology''\<rparr> fmempty)"

definition tasUpdate :: kueueClusterQueue where
  "tasUpdate =
     \<lparr>specResourceGroups =
        [\<lparr>rgCoveredResources = [''cpu''],
          rgFlavors = [\<lparr>fqName = ''tas-a'', fqResources = []\<rparr>,
                       \<lparr>fqName = ''tas-b'', fqResources = []\<rparr>]\<rparr>],
      specNamespaceSelector = Some [], specStopPolicy = None, specAdmissionChecks = fmempty,
      specPreemption = None, specFlavorFungibility = None, specFairWeight = 1\<rparr>"


text \<open>
  A queue that hangs under the cohort \<open>team-b\<close>, and a forest in which the parent pointers
  above every cohort run into a cycle.
\<close>

definition cohortQueue :: clusterQueue where
  "cohortQueue = emptyQueue\<lparr>Parent := Some ''team-b''\<rparr>"

definition cyclicEnv :: Env where
  "cyclicEnv = exampleEnv\<lparr>cohortHasCycle := (\<lambda>cohort. True)\<rparr>"


section \<open>Properties\<close>

subsection \<open>Quantities and frames\<close>


lemma quantity_upd [simp]:
  "quantity (m(fr \<mapsto> v)) fr' = (if fr' = fr then v else quantity m fr')"
  by (simp add: quantity_def)

lemma quantity_empty [simp]: "quantity Map.empty fr = 0"
  by (simp add: quantity_def)

lemma entryQuantity_Nil [simp]: "entryQuantity [] fr = 0"
  by (simp add: entryQuantity_def)

lemma entryQuantity_Cons [simp]:
  "entryQuantity ((fr', q) # es) fr = (if fr' = fr then q else 0) + entryQuantity es fr"
  by (simp add: entryQuantity_def)

lemma updateFlavorUsage_Nil [simp]: "updateFlavorUsage [] old m = old"
  by (simp add: updateFlavorUsage_def)

lemma updateFlavorUsage_Cons:
  "updateFlavorUsage ((fr, q) # es) old m =
     updateFlavorUsage es (old(fr \<mapsto> quantity old fr + q * m)) m"
  by (simp add: updateFlavorUsage_def)

lemma quantity_updateFlavorUsage [simp]:
  "quantity (updateFlavorUsage es old m) fr = quantity old fr + entryQuantity es fr * m"
proof (induction es arbitrary: old)
  case Nil
  show ?case by simp
next
  case (Cons e es)
  obtain fr' q where e: "e = (fr', q)" by (cases e)
  have "quantity (updateFlavorUsage (e # es) old m) fr =
        quantity (updateFlavorUsage es (old(fr' \<mapsto> quantity old fr' + q * m)) m) fr"
    by (simp only: e updateFlavorUsage_Cons)
  also have "\<dots> = quantity (old(fr' \<mapsto> quantity old fr' + q * m)) fr + entryQuantity es fr * m"
    by (rule Cons.IH)
  also have "\<dots> = quantity old fr + entryQuantity (e # es) fr * m"
    by (simp add: e algebra_simps)
  finally show ?case .
qed

lemma usageStep_add: "usageStep 1 (fr, q) c = addUsage c fr q"
  by (simp add: usageStep_def)

lemma usageStep_remove: "usageStep (- 1) (fr, q) c = removeUsage c fr q"
  by (simp add: usageStep_def)

lemma fold_usageStep_add:
  "fold (usageStep 1) es c =
     c\<lparr>resourceNode := (resourceNode c)\<lparr>Usage := updateFlavorUsage es (Usage (resourceNode c)) 1\<rparr>\<rparr>"
proof (induction es arbitrary: c)
  case Nil
  show ?case by simp
next
  case (Cons e es)
  obtain fr q where e: "e = (fr, q)" by (cases e)
  show ?case
    by (simp add: e Cons.IH addUsage_def usageStep_add updateFlavorUsage_Cons del: fun_upd_apply)
qed

lemma fold_usageStep_remove:
  "fold (usageStep (- 1)) es c =
     c\<lparr>resourceNode := (resourceNode c)\<lparr>Usage := updateFlavorUsage es (Usage (resourceNode c)) (- 1)\<rparr>\<rparr>"
proof (induction es arbitrary: c)
  case Nil
  show ?case by simp
next
  case (Cons e es)
  obtain fr q where e: "e = (fr, q)" by (cases e)
  show ?case
    by (simp add: e Cons.IH removeUsage_def usageStep_remove updateFlavorUsage_Cons del: fun_upd_apply)
qed




lemma workloadFrame_refl [simp]: "workloadFrame c c"
  by (simp add: workloadFrame_def)

lemma workloadFrame_trans: "workloadFrame a b \<Longrightarrow> workloadFrame b c \<Longrightarrow> workloadFrame a c"
  by (simp add: workloadFrame_def)

lemma workloadFrame_fields:
  assumes "workloadFrame c c'"
  shows "Status c' = Status c" and "isStopped c' = isStopped c"
    and "missingFlavors c' = missingFlavors c"
    and "missingAdmissionChecks c' = missingAdmissionChecks c"
    and "inactiveAdmissionChecks c' = inactiveAdmissionChecks c"
    and "multipleSingleInstanceControllersChecks c' = multipleSingleInstanceControllersChecks c"
    and "flavorIndependentAdmissionCheckAppliedPerFlavor c' =
         flavorIndependentAdmissionCheckAppliedPerFlavor c"
    and "multiKueueAdmissionChecks c' = multiKueueAdmissionChecks c"
    and "provisioningAdmissionChecks c' = provisioningAdmissionChecks c"
    and "perFlavorMultiKueueAdmissionChecks c' = perFlavorMultiKueueAdmissionChecks c"
    and "tasFlavors c' = tasFlavors c" and "AdmissionChecks c' = AdmissionChecks c"
    and "ResourceGroups c' = ResourceGroups c" and "Parent c' = Parent c"
    and "podsReadyTracking c' = podsReadyTracking c"
    and "Quotas (resourceNode c') = Quotas (resourceNode c)"
proof -
  have eq: "accountingCleared c' = accountingCleared c"
    using assms by (simp add: workloadFrame_def)
  have p: "Status x = Status (accountingCleared x)" "isStopped x = isStopped (accountingCleared x)"
    "missingFlavors x = missingFlavors (accountingCleared x)"
    "missingAdmissionChecks x = missingAdmissionChecks (accountingCleared x)"
    "inactiveAdmissionChecks x = inactiveAdmissionChecks (accountingCleared x)"
    "multipleSingleInstanceControllersChecks x =
       multipleSingleInstanceControllersChecks (accountingCleared x)"
    "flavorIndependentAdmissionCheckAppliedPerFlavor x =
       flavorIndependentAdmissionCheckAppliedPerFlavor (accountingCleared x)"
    "multiKueueAdmissionChecks x = multiKueueAdmissionChecks (accountingCleared x)"
    "provisioningAdmissionChecks x = provisioningAdmissionChecks (accountingCleared x)"
    "perFlavorMultiKueueAdmissionChecks x = perFlavorMultiKueueAdmissionChecks (accountingCleared x)"
    "tasFlavors x = tasFlavors (accountingCleared x)"
    "AdmissionChecks x = AdmissionChecks (accountingCleared x)"
    "ResourceGroups x = ResourceGroups (accountingCleared x)"
    "Parent x = Parent (accountingCleared x)"
    "podsReadyTracking x = podsReadyTracking (accountingCleared x)"
    "Quotas (resourceNode x) = Quotas (resourceNode (accountingCleared x))" for x
    by (simp_all add: accountingCleared_def)
  show "Status c' = Status c" and "isStopped c' = isStopped c"
    and "missingFlavors c' = missingFlavors c"
    and "missingAdmissionChecks c' = missingAdmissionChecks c"
    and "inactiveAdmissionChecks c' = inactiveAdmissionChecks c"
    and "multipleSingleInstanceControllersChecks c' = multipleSingleInstanceControllersChecks c"
    and "flavorIndependentAdmissionCheckAppliedPerFlavor c' =
         flavorIndependentAdmissionCheckAppliedPerFlavor c"
    and "multiKueueAdmissionChecks c' = multiKueueAdmissionChecks c"
    and "provisioningAdmissionChecks c' = provisioningAdmissionChecks c"
    and "perFlavorMultiKueueAdmissionChecks c' = perFlavorMultiKueueAdmissionChecks c"
    and "tasFlavors c' = tasFlavors c" and "AdmissionChecks c' = AdmissionChecks c"
    and "ResourceGroups c' = ResourceGroups c" and "Parent c' = Parent c"
    and "podsReadyTracking c' = podsReadyTracking c"
    and "Quotas (resourceNode c') = Quotas (resourceNode c)"
    by (metis eq p(1), metis eq p(2), metis eq p(3), metis eq p(4), metis eq p(5), metis eq p(6),
        metis eq p(7), metis eq p(8), metis eq p(9), metis eq p(10), metis eq p(11),
        metis eq p(12), metis eq p(13), metis eq p(14), metis eq p(15), metis eq p(16))
qed



lemma updateWorkloadUsage_add_frame: "workloadFrame c (updateWorkloadUsage env c wi 1)"
  by (simp add: workloadFrame_def accountingCleared_def updateWorkloadUsage_def Let_def
      fold_usageStep_add updateWorkloadTASUsage_def split: option.split)

lemma updateWorkloadUsage_remove_frame: "workloadFrame c (updateWorkloadUsage env c wi (- 1))"
  by (simp add: workloadFrame_def accountingCleared_def updateWorkloadUsage_def Let_def
      fold_usageStep_remove updateWorkloadTASUsage_def split: option.split)

lemma updateWorkloadUsage_add_same:
  "Workloads (updateWorkloadUsage env c wi 1) = Workloads c"
  "WorkloadsNotReady (updateWorkloadUsage env c wi 1) = WorkloadsNotReady c"
  "AllocatableResourceGeneration (updateWorkloadUsage env c wi 1) = AllocatableResourceGeneration c"
  "podsReadyTracking (updateWorkloadUsage env c wi 1) = podsReadyTracking c"
  by (simp_all add: updateWorkloadUsage_def Let_def
      fold_usageStep_add updateWorkloadTASUsage_def split: option.split)

lemma updateWorkloadUsage_remove_same:
  "Workloads (updateWorkloadUsage env c wi (- 1)) = Workloads c"
  "WorkloadsNotReady (updateWorkloadUsage env c wi (- 1)) = WorkloadsNotReady c"
  "AllocatableResourceGeneration (updateWorkloadUsage env c wi (- 1)) = AllocatableResourceGeneration c"
  "podsReadyTracking (updateWorkloadUsage env c wi (- 1)) = podsReadyTracking c"
  by (simp_all add: updateWorkloadUsage_def Let_def
      fold_usageStep_remove updateWorkloadTASUsage_def split: option.split)

lemma updateWorkloadUsage_Usage:
  "quantity (Usage (resourceNode (updateWorkloadUsage env c wi 1))) fr =
     quantity (Usage (resourceNode c)) fr + entryQuantity (FlavorResourceUsage wi) fr"
  "quantity (Usage (resourceNode (updateWorkloadUsage env c wi (- 1)))) fr =
     quantity (Usage (resourceNode c)) fr - entryQuantity (FlavorResourceUsage wi) fr"
  by (simp_all add: updateWorkloadUsage_def Let_def fold_usageStep_add
      fold_usageStep_remove updateWorkloadTASUsage_def split: option.split)

lemma updateWorkloadUsage_AdmittedUsage:
  "quantity (AdmittedUsage (updateWorkloadUsage env c wi 1)) fr =
     quantity (AdmittedUsage c) fr +
     (if IsAdmitted wi then entryQuantity (FlavorResourceUsage wi) fr else 0)"
  "quantity (AdmittedUsage (updateWorkloadUsage env c wi (- 1))) fr =
     quantity (AdmittedUsage c) fr -
     (if IsAdmitted wi then entryQuantity (FlavorResourceUsage wi) fr else 0)"
  by (simp_all add: updateWorkloadUsage_def Let_def fold_usageStep_add
      fold_usageStep_remove updateWorkloadTASUsage_def split: option.split)

lemma updateWorkloadUsage_localQueues:
  "m = 1 \<or> m = - 1 \<Longrightarrow>
   fmlookup (localQueues (updateWorkloadUsage env c wi m)) qk =
     (if qk = QueueKey wi
      then map_option (\<lambda>lq. updateLocalQueueUsage lq wi m) (fmlookup (localQueues c) qk)
      else fmlookup (localQueues c) qk)"
  by (auto simp add: updateWorkloadUsage_def Let_def fold_usageStep_add
      fold_usageStep_remove updateWorkloadTASUsage_def split: option.split)

lemma updateLocalQueueUsage_quantities:
  "quantity (totalReserved (updateLocalQueueUsage lq wi m)) fr =
     quantity (totalReserved lq) fr + entryQuantity (FlavorResourceUsage wi) fr * m"
  "quantity (admittedUsage (updateLocalQueueUsage lq wi m)) fr =
     quantity (admittedUsage lq) fr +
     (if IsAdmitted wi then entryQuantity (FlavorResourceUsage wi) fr * m else 0)"
  "reservingWorkloads (updateLocalQueueUsage lq wi m) = reservingWorkloads lq + m"
  "admittedWorkloads (updateLocalQueueUsage lq wi m) =
     admittedWorkloads lq + (if IsAdmitted wi then m else 0)"
  "key (updateLocalQueueUsage lq wi m) = key lq"
  by (simp_all add: updateLocalQueueUsage_def Let_def)




lemma usageSum_indicator:
  "usageSum P m fr =
     (\<Sum>k \<in> fset (fmdom m).
        if P (the (fmlookup m k))
        then entryQuantity (FlavorResourceUsage (the (fmlookup m k))) fr else 0)"
  unfolding usageSum_def by (rule sum.inter_filter) simp

lemma usageSum_fmdrop:
  assumes "fmlookup m k = Some w"
  shows "usageSum P (fmdrop k m) fr =
         usageSum P m fr - (if P w then entryQuantity (FlavorResourceUsage w) fr else 0)"
proof -
  let ?g = "\<lambda>m k. if P (the (fmlookup m k))
                  then entryQuantity (FlavorResourceUsage (the (fmlookup m k))) fr else 0"
  have k: "k \<in> fset (fmdom m)" using assms by (simp add: fmdomI)
  have "usageSum P (fmdrop k m) fr = (\<Sum>k' \<in> fset (fmdom m) - {k}. ?g (fmdrop k m) k')"
    by (simp add: usageSum_indicator)
  also have "\<dots> = (\<Sum>k' \<in> fset (fmdom m) - {k}. ?g m k')"
    by (rule sum.cong) auto
  also have "\<dots> = usageSum P m fr - ?g m k"
    using sum.remove [of "fset (fmdom m)" k "?g m"] k
    by (simp add: usageSum_indicator)
  finally show ?thesis using assms by simp
qed

lemma usageSum_fmupd:
  assumes "fmlookup m k = None"
  shows "usageSum P (fmupd k w m) fr =
         usageSum P m fr + (if P w then entryQuantity (FlavorResourceUsage w) fr else 0)"
proof -
  let ?g = "\<lambda>m k. if P (the (fmlookup m k))
                  then entryQuantity (FlavorResourceUsage (the (fmlookup m k))) fr else 0"
  have k: "k \<notin> fset (fmdom m)" using assms by (simp add: fmdom_notI)
  have "usageSum P (fmupd k w m) fr = (\<Sum>k' \<in> insert k (fset (fmdom m)). ?g (fmupd k w m) k')"
    by (simp add: usageSum_indicator)
  also have "\<dots> = ?g (fmupd k w m) k + (\<Sum>k' \<in> fset (fmdom m). ?g (fmupd k w m) k')"
    using k by (simp add: sum.insert)
  also have "(\<Sum>k' \<in> fset (fmdom m). ?g (fmupd k w m) k') = (\<Sum>k' \<in> fset (fmdom m). ?g m k')"
    by (rule sum.cong) (use k in auto)
  finally show ?thesis by (simp add: usageSum_indicator)
qed

lemma deleteWorkload_absent:
  "fmlookup (Workloads c) (Key w) = None \<Longrightarrow> deleteWorkload env c w = c"
  by (simp add: deleteWorkload_def)

lemma deleteWorkload_frame: "workloadFrame c (deleteWorkload env c w)"
proof (cases "fmlookup (Workloads c) (Key w)")
  case None
  then show ?thesis by (simp add: deleteWorkload_absent)
next
  case (Some wi)
  have "workloadFrame (updateWorkloadUsage env c wi (- 1)) (deleteWorkload env c w)"
    by (simp add: Some deleteWorkload_def Let_def workloadFrame_def accountingCleared_def)
  with updateWorkloadUsage_remove_frame show ?thesis by (rule workloadFrame_trans)
qed

lemma deleteWorkload_present:
  assumes "fmlookup (Workloads c) (Key w) = Some wi"
  shows "Workloads (deleteWorkload env c w) = fmdrop (Key w) (Workloads c)"
    and "AllocatableResourceGeneration (deleteWorkload env c w) = AllocatableResourceGeneration c + 1"
    and "quantity (Usage (resourceNode (deleteWorkload env c w))) fr =
         quantity (Usage (resourceNode c)) fr - entryQuantity (FlavorResourceUsage wi) fr"
    and "quantity (AdmittedUsage (deleteWorkload env c w)) fr =
         quantity (AdmittedUsage c) fr -
         (if IsAdmitted wi then entryQuantity (FlavorResourceUsage wi) fr else 0)"
    and "fmlookup (localQueues (deleteWorkload env c w)) qk =
         (if qk = QueueKey wi
          then map_option (\<lambda>lq. updateLocalQueueUsage lq wi (- 1)) (fmlookup (localQueues c) qk)
          else fmlookup (localQueues c) qk)"
    and "podsReadyTracking (deleteWorkload env c w) = podsReadyTracking c"
  using assms
  by (simp_all add: deleteWorkload_def Let_def updateWorkloadUsage_remove_same
      updateWorkloadUsage_Usage updateWorkloadUsage_AdmittedUsage updateWorkloadUsage_localQueues)




lemma addOrUpdateWorkload_frame: "workloadFrame c (addOrUpdateWorkload env c w)"
proof -
  define c1 where "c1 = (if fmlookup (Workloads c) (Key w) \<noteq> None then deleteWorkload env c w else c)"
  define c2 where "c2 = c1\<lparr>Workloads := fmupd (Key w) w (Workloads c1)\<rparr>"
  have 1: "workloadFrame c c1" by (simp add: c1_def deleteWorkload_frame)
  have 2: "workloadFrame c1 c2" by (simp add: c2_def workloadFrame_def accountingCleared_def)
  have 3: "workloadFrame c2 (updateWorkloadUsage env c2 w 1)" by (rule updateWorkloadUsage_add_frame)
  have 4: "workloadFrame (updateWorkloadUsage env c2 w 1) (addOrUpdateWorkload env c w)"
    by (simp add: addOrUpdateWorkload_def Let_def c1_def c2_def workloadFrame_def accountingCleared_def)
  from 1 2 3 4 show ?thesis by (blast intro: workloadFrame_trans)
qed

lemma addOrUpdateWorkload_new:
  assumes "fmlookup (Workloads c) (Key w) = None"
  shows "Workloads (addOrUpdateWorkload env c w) = fmupd (Key w) w (Workloads c)"
    and "AllocatableResourceGeneration (addOrUpdateWorkload env c w) = AllocatableResourceGeneration c"
    and "quantity (Usage (resourceNode (addOrUpdateWorkload env c w))) fr =
         quantity (Usage (resourceNode c)) fr + entryQuantity (FlavorResourceUsage w) fr"
    and "quantity (AdmittedUsage (addOrUpdateWorkload env c w)) fr =
         quantity (AdmittedUsage c) fr +
         (if IsAdmitted w then entryQuantity (FlavorResourceUsage w) fr else 0)"
    and "fmlookup (localQueues (addOrUpdateWorkload env c w)) qk =
         (if qk = QueueKey w
          then map_option (\<lambda>lq. updateLocalQueueUsage lq w 1) (fmlookup (localQueues c) qk)
          else fmlookup (localQueues c) qk)"
    and "podsReadyTracking (addOrUpdateWorkload env c w) = podsReadyTracking c"
  using assms
  by (simp_all add: addOrUpdateWorkload_def Let_def updateWorkloadUsage_add_same
      updateWorkloadUsage_Usage updateWorkloadUsage_AdmittedUsage updateWorkloadUsage_localQueues)

lemma addOrUpdateWorkload_after_delete:
  "addOrUpdateWorkload env c w =
     addOrUpdateWorkload env
       (if fmlookup (Workloads c) (Key w) \<noteq> None then deleteWorkload env c w else c) w"
proof (cases "fmlookup (Workloads c) (Key w)")
  case None
  then show ?thesis by simp
next
  case (Some wi)
  have "fmlookup (Workloads (deleteWorkload env c w)) (Key w) = None"
    by (simp add: deleteWorkload_present(1) [OF Some])
  then show ?thesis using Some by (simp add: addOrUpdateWorkload_def [of env c w]
        addOrUpdateWorkload_def [of env "deleteWorkload env c w" w])
qed

lemma addOrUpdateWorkload_existing:
  assumes "fmlookup (Workloads c) (Key w) = Some old"
  shows "Workloads (addOrUpdateWorkload env c w) = fmupd (Key w) w (fmdrop (Key w) (Workloads c))"
    and "AllocatableResourceGeneration (addOrUpdateWorkload env c w) =
         AllocatableResourceGeneration c + 1"
    and "quantity (Usage (resourceNode (addOrUpdateWorkload env c w))) fr =
         quantity (Usage (resourceNode c)) fr - entryQuantity (FlavorResourceUsage old) fr +
         entryQuantity (FlavorResourceUsage w) fr"
    and "quantity (AdmittedUsage (addOrUpdateWorkload env c w)) fr =
         quantity (AdmittedUsage c) fr -
         (if IsAdmitted old then entryQuantity (FlavorResourceUsage old) fr else 0) +
         (if IsAdmitted w then entryQuantity (FlavorResourceUsage w) fr else 0)"
proof -
  let ?d = "deleteWorkload env c w"
  have none: "fmlookup (Workloads ?d) (Key w) = None"
    by (simp add: deleteWorkload_present(1) [OF assms])
  have eq: "addOrUpdateWorkload env c w = addOrUpdateWorkload env ?d w"
    using addOrUpdateWorkload_after_delete [of env c w] assms by simp
  show "Workloads (addOrUpdateWorkload env c w) = fmupd (Key w) w (fmdrop (Key w) (Workloads c))"
    by (simp add: eq addOrUpdateWorkload_new(1) [OF none] deleteWorkload_present(1) [OF assms])
  show "AllocatableResourceGeneration (addOrUpdateWorkload env c w) =
         AllocatableResourceGeneration c + 1"
    by (simp add: eq addOrUpdateWorkload_new(2) [OF none] deleteWorkload_present(2) [OF assms])
  show "quantity (Usage (resourceNode (addOrUpdateWorkload env c w))) fr =
         quantity (Usage (resourceNode c)) fr - entryQuantity (FlavorResourceUsage old) fr +
         entryQuantity (FlavorResourceUsage w) fr"
    by (simp add: eq addOrUpdateWorkload_new(3) [OF none] deleteWorkload_present(3) [OF assms])
  show "quantity (AdmittedUsage (addOrUpdateWorkload env c w)) fr =
         quantity (AdmittedUsage c) fr -
         (if IsAdmitted old then entryQuantity (FlavorResourceUsage old) fr else 0) +
         (if IsAdmitted w then entryQuantity (FlavorResourceUsage w) fr else 0)"
    by (simp add: eq addOrUpdateWorkload_new(4) [OF none] deleteWorkload_present(4) [OF assms])
qed

lemma usageInvariant_deleteWorkload:
  assumes "usageInvariant c"
  shows "usageInvariant (deleteWorkload env c w)"
proof (cases "fmlookup (Workloads c) (Key w)")
  case None
  then show ?thesis using assms by (simp add: deleteWorkload_absent)
next
  case (Some wi)
  show ?thesis
    using assms
    by (simp add: usageInvariant_def deleteWorkload_present [OF Some] usageSum_fmdrop [OF Some])
qed

lemma usageInvariant_addOrUpdateWorkload:
  assumes "usageInvariant c"
  shows "usageInvariant (addOrUpdateWorkload env c w)"
proof -
  let ?d = "if fmlookup (Workloads c) (Key w) \<noteq> None then deleteWorkload env c w else c"
  have inv: "usageInvariant ?d"
    using assms by (simp add: usageInvariant_deleteWorkload)
  have none: "fmlookup (Workloads ?d) (Key w) = None"
    by (cases "fmlookup (Workloads c) (Key w)") (simp_all add: deleteWorkload_present(1))
  have "usageInvariant (addOrUpdateWorkload env ?d w)"
    using inv
    by (simp only: usageInvariant_def addOrUpdateWorkload_new [OF none] usageSum_fmupd [OF none])
       simp
  then show ?thesis using addOrUpdateWorkload_after_delete [of env c w] by simp
qed

lemma usageInvariant_applyWorkloadOp:
  "usageInvariant c \<Longrightarrow> usageInvariant (applyWorkloadOp env op c)"
  by (cases op)
     (simp_all add: addWorkload_def usageInvariant_addOrUpdateWorkload usageInvariant_deleteWorkload)

subsection \<open>Usage is the sum over the workloads\<close>

text \<open>
  \<^bold>\<open>C2\<close>. Over every finite sequence of \<^verbatim>\<open>addWorkload\<close>, \<^verbatim>\<open>addOrUpdateWorkload\<close> and
  \<^verbatim>\<open>deleteWorkload\<close> the usage of the queue stays the sum, over the workloads in its
  \<^verbatim>\<open>Workloads\<close> map, of their \<^verbatim>\<open>FlavorResourceUsage\<close>, and the admitted usage stays the same
  sum over the admitted workloads. The sums run over the keys of the map, so a workload is
  counted once, also when its key is updated in place. The queue starts in a state where the
  two equations hold, as the empty queue does.
\<close>

theorem usage_is_sum_of_workloads:
  "usageInvariant c \<Longrightarrow> usageInvariant (fold (applyWorkloadOp env) ops c)"
  by (induction ops arbitrary: c) (simp_all add: usageInvariant_applyWorkloadOp)

theorem usage_is_sum_of_workloads_witness:
  "usageInvariant emptyQueue \<and>
   usageInvariant
     (fold (applyWorkloadOp exampleEnv)
        [OpAddWorkload exampleWorkload, OpAddOrUpdateWorkload updatedWorkload,
         OpAddWorkload exampleWorkload, OpDeleteWorkload exampleWorkload] emptyQueue)"
proof -
  have h: "usageInvariant emptyQueue"
    by (simp add: usageInvariant_def usageSum_def emptyQueue_def)
  from usage_is_sum_of_workloads [OF h] h show ?thesis by blast
qed

subsection \<open>Adding and deleting a workload\<close>

text \<open>
  \<^bold>\<open>C4\<close>. For every queue and every workload \<open>w\<close> whose key is not in the queue,
  \<^verbatim>\<open>addOrUpdateWorkload(w)\<close> followed by \<^verbatim>\<open>deleteWorkload(w)\<close> gives back, at every flavor and
  resource, the usage and the admitted usage of the queue and the \<^verbatim>\<open>totalReserved\<close> and
  \<^verbatim>\<open>admittedUsage\<close> of every local queue, with the same local queues registered and the
  same workload counts.
\<close>

theorem add_then_delete_restores_usage:
  assumes absent: "fmlookup (Workloads c) (Key w) = None"
  shows "(\<forall>fr. quantity (Usage (resourceNode (deleteWorkload env (addOrUpdateWorkload env c w) w))) fr =
               quantity (Usage (resourceNode c)) fr \<and>
               quantity (AdmittedUsage (deleteWorkload env (addOrUpdateWorkload env c w) w)) fr =
               quantity (AdmittedUsage c) fr) \<and>
         fmdom (localQueues (deleteWorkload env (addOrUpdateWorkload env c w) w)) =
           fmdom (localQueues c) \<and>
         (\<forall>qk lq. fmlookup (localQueues c) qk = Some lq \<longrightarrow>
            (\<exists>lq'. fmlookup (localQueues (deleteWorkload env (addOrUpdateWorkload env c w) w)) qk = Some lq' \<and>
               (\<forall>fr. quantity (totalReserved lq') fr = quantity (totalReserved lq) fr \<and>
                     quantity (admittedUsage lq') fr = quantity (admittedUsage lq) fr) \<and>
               reservingWorkloads lq' = reservingWorkloads lq \<and>
               admittedWorkloads lq' = admittedWorkloads lq))"
proof -
  let ?a = "addOrUpdateWorkload env c w"
  let ?d = "deleteWorkload env ?a w"
  have stored: "fmlookup (Workloads ?a) (Key w) = Some w"
    by (simp add: addOrUpdateWorkload_new(1) [OF absent])
  note add = addOrUpdateWorkload_new [OF absent, of env]
  note del = deleteWorkload_present [OF stored, of env]
  have lq: "fmlookup (localQueues ?d) qk =
      (if qk = QueueKey w
       then map_option (\<lambda>lq. updateLocalQueueUsage (updateLocalQueueUsage lq w 1) w (- 1))
              (fmlookup (localQueues c) qk)
       else fmlookup (localQueues c) qk)" for qk
    by (simp add: del(5) add(5) option.map_comp comp_def)
  have usage: "\<forall>fr. quantity (Usage (resourceNode ?d)) fr = quantity (Usage (resourceNode c)) fr \<and>
                   quantity (AdmittedUsage ?d) fr = quantity (AdmittedUsage c) fr"
    by (simp add: del(3,4) add(3,4))
  have dom: "fmdom (localQueues ?d) = fmdom (localQueues c)"
  proof (rule fset_eqI)
    fix qk
    show "qk |\<in>| fmdom (localQueues ?d) \<longleftrightarrow> qk |\<in>| fmdom (localQueues c)"
      by (cases "fmlookup (localQueues c) qk") (auto simp: fmlookup_dom_iff lq)
  qed
  have each: "\<forall>qk lq. fmlookup (localQueues c) qk = Some lq \<longrightarrow>
            (\<exists>lq'. fmlookup (localQueues ?d) qk = Some lq' \<and>
               (\<forall>fr. quantity (totalReserved lq') fr = quantity (totalReserved lq) fr \<and>
                     quantity (admittedUsage lq') fr = quantity (admittedUsage lq) fr) \<and>
               reservingWorkloads lq' = reservingWorkloads lq \<and>
               admittedWorkloads lq' = admittedWorkloads lq)"
    by (simp add: lq updateLocalQueueUsage_quantities)
  from usage dom each show ?thesis by blast
qed

theorem add_then_delete_restores_usage_witness:
  "fmlookup (Workloads exampleQueue) (Key exampleWorkload) = None \<and>
   quantity (Usage (resourceNode
      (deleteWorkload exampleEnv (addOrUpdateWorkload exampleEnv exampleQueue exampleWorkload)
         exampleWorkload))) (''default'', ''cpu'') = 0 \<and>
   (\<exists>lq'. fmlookup (localQueues
      (deleteWorkload exampleEnv (addOrUpdateWorkload exampleEnv exampleQueue exampleWorkload)
         exampleWorkload)) ''ns/lq'' = Some lq' \<and>
      quantity (totalReserved lq') (''default'', ''cpu'') = 0 \<and> reservingWorkloads lq' = 0)"
proof -
  have h: "fmlookup (Workloads exampleQueue) (Key exampleWorkload) = None"
    by (simp add: exampleQueue_def emptyQueue_def)
  have lq: "fmlookup (localQueues exampleQueue) ''ns/lq'' =
      Some \<lparr>key = ''ns/lq'', reservingWorkloads = 0, admittedWorkloads = 0,
            totalReserved = Map.empty, admittedUsage = Map.empty\<rparr>"
    by (simp add: exampleQueue_def emptyQueue_def)
  have u: "quantity (Usage (resourceNode exampleQueue)) (''default'', ''cpu'') = 0"
    by (simp add: exampleQueue_def emptyQueue_def)
  from add_then_delete_restores_usage [OF h, of exampleEnv] lq u h show ?thesis
    by fastforce
qed

text \<open>
  \<^bold>\<open>C6\<close>, as amended. \<^verbatim>\<open>addWorkload(w)\<close> returns the workload-already-exists error and leaves
  the queue as it is when the key of \<open>w\<close> is already in the queue; when the key is not there
  it returns no error, stores \<open>w\<close> under its key and adds the \<^verbatim>\<open>FlavorResourceUsage\<close> of \<open>w\<close> to
  the usage of the queue once. \<^verbatim>\<open>addOrUpdateWorkload(w)\<close> always stores \<open>w\<close> under its key, and
  the usage becomes the old usage, less the usage of the workload that was stored under the
  key (if any), plus the usage of \<open>w\<close>: an updated workload is not counted twice.
\<close>

theorem addWorkload_rejects_existing_key_and_counts_once:
  "(fmlookup (Workloads c) (Key w) \<noteq> None \<longrightarrow>
      addWorkload env c w = (Some errWorkloadAlreadyExists, c)) \<and>
   (fmlookup (Workloads c) (Key w) = None \<longrightarrow>
      fst (addWorkload env c w) = None \<and>
      fmlookup (Workloads (snd (addWorkload env c w))) (Key w) = Some w \<and>
      (\<forall>fr. quantity (Usage (resourceNode (snd (addWorkload env c w)))) fr =
            quantity (Usage (resourceNode c)) fr + entryQuantity (FlavorResourceUsage w) fr)) \<and>
   fmlookup (Workloads (addOrUpdateWorkload env c w)) (Key w) = Some w \<and>
   (\<forall>fr. quantity (Usage (resourceNode (addOrUpdateWorkload env c w))) fr =
         quantity (Usage (resourceNode c)) fr -
         (case fmlookup (Workloads c) (Key w) of
            None \<Rightarrow> 0 | Some old \<Rightarrow> entryQuantity (FlavorResourceUsage old) fr) +
         entryQuantity (FlavorResourceUsage w) fr)"
proof (cases "fmlookup (Workloads c) (Key w)")
  case None
  then show ?thesis
    by (simp add: addWorkload_def addOrUpdateWorkload_new [OF None])
next
  case (Some old)
  then show ?thesis
    by (simp add: addWorkload_def addOrUpdateWorkload_existing [OF Some])
qed

theorem addWorkload_rejects_existing_key_and_counts_once_witness:
  "fmlookup (Workloads busyQueue) (Key updatedWorkload) \<noteq> None \<and>
   addWorkload exampleEnv busyQueue updatedWorkload = (Some errWorkloadAlreadyExists, busyQueue) \<and>
   quantity (Usage (resourceNode (addOrUpdateWorkload exampleEnv busyQueue updatedWorkload)))
     (''default'', ''cpu'') = 5 \<and>
   fmlookup (Workloads exampleQueue) (Key exampleWorkload) = None \<and>
   fst (addWorkload exampleEnv exampleQueue exampleWorkload) = None \<and>
   quantity (Usage (resourceNode (snd (addWorkload exampleEnv exampleQueue exampleWorkload))))
     (''default'', ''cpu'') = 3"
proof -
  have present: "fmlookup (Workloads busyQueue) (Key updatedWorkload) = Some exampleWorkload"
    by (simp add: busyQueue_def emptyQueue_def updatedWorkload_def exampleWorkload_def Key_def)
  have absent: "fmlookup (Workloads exampleQueue) (Key exampleWorkload) = None"
    by (simp add: exampleQueue_def emptyQueue_def)
  have u1: "quantity (Usage (resourceNode busyQueue)) (''default'', ''cpu'') = 3"
    by (simp add: busyQueue_def emptyQueue_def)
  have u2: "quantity (Usage (resourceNode exampleQueue)) (''default'', ''cpu'') = 0"
    by (simp add: exampleQueue_def emptyQueue_def)
  have e: "entryQuantity (FlavorResourceUsage exampleWorkload) (''default'', ''cpu'') = 3"
    "entryQuantity (FlavorResourceUsage updatedWorkload) (''default'', ''cpu'') = 5"
    by (simp_all add: updatedWorkload_def exampleWorkload_def)
  from addWorkload_rejects_existing_key_and_counts_once [of busyQueue updatedWorkload exampleEnv]
    addWorkload_rejects_existing_key_and_counts_once [of exampleQueue exampleWorkload exampleEnv]
    present absent u1 u2 e
  show ?thesis by simp
qed

text \<open>
  The statement of C6 as it stands fails: in \<open>busyQueue\<close> the only key is the one of the
  workload itself, so the workload is not there under a different key, and still
  \<^verbatim>\<open>addWorkload\<close> returns the error and stores nothing.
\<close>

theorem addWorkload_same_key_counterexample:
  "fmdom (Workloads busyQueue) = {|Key updatedWorkload|} \<and>
   fst (addWorkload exampleEnv busyQueue updatedWorkload) = Some errWorkloadAlreadyExists \<and>
   fmlookup (Workloads (snd (addWorkload exampleEnv busyQueue updatedWorkload))) (Key updatedWorkload)
     = Some exampleWorkload \<and>
   exampleWorkload \<noteq> updatedWorkload \<and>
   quantity (Usage (resourceNode (snd (addWorkload exampleEnv busyQueue updatedWorkload))))
     (''default'', ''cpu'') = 3"
  by (simp add: addWorkload_def busyQueue_def emptyQueue_def updatedWorkload_def
      exampleWorkload_def Key_def)

text \<open>
  \<^bold>\<open>C7\<close>, as amended. For every workload \<open>w\<close> whose key is in the queue, \<^verbatim>\<open>deleteWorkload(w)\<close>
  takes the \<^verbatim>\<open>FlavorResourceUsage\<close> of the workload stored under that key from the usage of
  the queue (and from its admitted usage when the stored workload is admitted), adds one to
  \<^verbatim>\<open>AllocatableResourceGeneration\<close> and removes the key from \<^verbatim>\<open>Workloads\<close>, leaving the other
  keys as they are.
\<close>

theorem deleteWorkload_of_present_workload:
  assumes "fmlookup (Workloads c) (Key w) = Some wi"
  shows "(\<forall>fr. quantity (Usage (resourceNode (deleteWorkload env c w))) fr =
               quantity (Usage (resourceNode c)) fr - entryQuantity (FlavorResourceUsage wi) fr \<and>
               quantity (AdmittedUsage (deleteWorkload env c w)) fr =
               quantity (AdmittedUsage c) fr -
               (if IsAdmitted wi then entryQuantity (FlavorResourceUsage wi) fr else 0)) \<and>
         AllocatableResourceGeneration (deleteWorkload env c w) =
           AllocatableResourceGeneration c + 1 \<and>
         fmlookup (Workloads (deleteWorkload env c w)) (Key w) = None \<and>
         (\<forall>k. k \<noteq> Key w \<longrightarrow>
            fmlookup (Workloads (deleteWorkload env c w)) k = fmlookup (Workloads c) k)"
  by (simp add: deleteWorkload_present [OF assms])

theorem deleteWorkload_of_present_workload_witness:
  "fmlookup (Workloads busyQueue) (Key exampleWorkload) = Some exampleWorkload \<and>
   quantity (Usage (resourceNode (deleteWorkload exampleEnv busyQueue exampleWorkload)))
     (''default'', ''cpu'') = 0 \<and>
   AllocatableResourceGeneration (deleteWorkload exampleEnv busyQueue exampleWorkload) = 2 \<and>
   fmlookup (Workloads (deleteWorkload exampleEnv busyQueue exampleWorkload)) (Key exampleWorkload)
     = None"
proof -
  have h: "fmlookup (Workloads busyQueue) (Key exampleWorkload) = Some exampleWorkload"
    by (simp add: busyQueue_def emptyQueue_def exampleWorkload_def Key_def)
  have u: "quantity (Usage (resourceNode busyQueue)) (''default'', ''cpu'') = 3"
    "AllocatableResourceGeneration busyQueue = 1"
    "entryQuantity (FlavorResourceUsage exampleWorkload) (''default'', ''cpu'') = 3"
    by (simp_all add: busyQueue_def emptyQueue_def exampleWorkload_def)
  from deleteWorkload_of_present_workload [OF h, of exampleEnv] h u show ?thesis by simp
qed

text \<open>
  The statement of C7 as it stands fails for a workload that is not in the queue: nothing is
  taken from the usage and the generation is not bumped. It also fails for a workload whose
  stored copy has another usage: the usage of the stored copy is taken, here 3 and not 5.
\<close>

theorem deleteWorkload_counterexample:
  "fmlookup (Workloads exampleQueue) (Key exampleWorkload) = None \<and>
   entryQuantity (FlavorResourceUsage exampleWorkload) (''default'', ''cpu'') = 3 \<and>
   deleteWorkload exampleEnv exampleQueue exampleWorkload = exampleQueue \<and>
   entryQuantity (FlavorResourceUsage updatedWorkload) (''default'', ''cpu'') = 5 \<and>
   quantity (Usage (resourceNode busyQueue)) (''default'', ''cpu'') = 3 \<and>
   quantity (Usage (resourceNode (deleteWorkload exampleEnv busyQueue updatedWorkload)))
     (''default'', ''cpu'') = 0"
proof -
  have absent: "fmlookup (Workloads exampleQueue) (Key exampleWorkload) = None"
    by (simp add: exampleQueue_def emptyQueue_def)
  have present: "fmlookup (Workloads busyQueue) (Key updatedWorkload) = Some exampleWorkload"
    by (simp add: busyQueue_def emptyQueue_def updatedWorkload_def exampleWorkload_def Key_def)
  have u: "quantity (Usage (resourceNode busyQueue)) (''default'', ''cpu'') = 3"
    by (simp add: busyQueue_def emptyQueue_def)
  have e: "entryQuantity (FlavorResourceUsage exampleWorkload) (''default'', ''cpu'') = 3"
    "entryQuantity (FlavorResourceUsage updatedWorkload) (''default'', ''cpu'') = 5"
    by (simp_all add: updatedWorkload_def exampleWorkload_def)
  show ?thesis
    using absent u e
    by (simp add: deleteWorkload_absent deleteWorkload_present(3) [OF present])
qed

subsection \<open>Local queues\<close>

text \<open>
  \<^bold>\<open>C10\<close>. When a local queue is already registered under the namespace/name key of \<open>q\<close>,
  \<^verbatim>\<open>addLocalQueue(q)\<close> returns the queue-already-exists error and leaves the cluster queue,
  with its \<^verbatim>\<open>localQueues\<close> map and all its counters, as it is.
\<close>

theorem addLocalQueue_existing_key:
  assumes "fmlookup (localQueues c) (queueKey q) = Some lq"
  shows "addLocalQueue c q = (Some errQueueAlreadyExists, c)"
  using assms by (simp add: addLocalQueue_def)

theorem addLocalQueue_existing_key_witness:
  "fmlookup (localQueues busyQueue) (queueKey exampleLocalQueue) =
     Some \<lparr>key = ''ns/lq'', reservingWorkloads = 1, admittedWorkloads = 1,
           totalReserved = [(''default'', ''cpu'') \<mapsto> 3],
           admittedUsage = [(''default'', ''cpu'') \<mapsto> 3]\<rparr> \<and>
   addLocalQueue busyQueue exampleLocalQueue = (Some errQueueAlreadyExists, busyQueue)"
proof -
  have h: "fmlookup (localQueues busyQueue) (queueKey exampleLocalQueue) =
     Some \<lparr>key = ''ns/lq'', reservingWorkloads = 1, admittedWorkloads = 1,
           totalReserved = [(''default'', ''cpu'') \<mapsto> 3],
           admittedUsage = [(''default'', ''cpu'') \<mapsto> 3]\<rparr>"
    by (simp add: busyQueue_def emptyQueue_def exampleLocalQueue_def queueKey_def)
  from addLocalQueue_existing_key [OF h] h show ?thesis by simp
qed

lemma keysOf_set [simp]: "set (keysOf m) = fset (fmdom m)"
  by (simp add: keysOf_def sorted_list_of_fset.rep_eq)

lemma keysOf_distinct [simp]: "distinct (keysOf m)"
  by (simp add: keysOf_def sorted_list_of_fset.rep_eq)

lemma countWorkload_fields:
  "quantity (totalReserved (countWorkload q wl qi)) fr =
     quantity (totalReserved qi) fr +
     (if workloadBelongsToLocalQueue wl q then entryQuantity (FlavorResourceUsage wl) fr else 0)"
  "quantity (admittedUsage (countWorkload q wl qi)) fr =
     quantity (admittedUsage qi) fr +
     (if workloadBelongsToLocalQueue wl q \<and> IsAdmitted wl
      then entryQuantity (FlavorResourceUsage wl) fr else 0)"
  "reservingWorkloads (countWorkload q wl qi) =
     reservingWorkloads qi + (if workloadBelongsToLocalQueue wl q then 1 else 0)"
  "admittedWorkloads (countWorkload q wl qi) =
     admittedWorkloads qi + (if workloadBelongsToLocalQueue wl q \<and> IsAdmitted wl then 1 else 0)"
  "key (countWorkload q wl qi) = key qi"
  by (simp_all add: countWorkload_def Let_def)

lemma fold_countWorkload:
  fixes m :: "(string, Workload) fmap"
  defines "step \<equiv> \<lambda>q k qi. case fmlookup m k of None \<Rightarrow> qi | Some wl \<Rightarrow> countWorkload q wl qi"
  assumes "set ks \<subseteq> fset (fmdom m)"
  shows "quantity (totalReserved (fold (step q) ks qi)) fr =
           quantity (totalReserved qi) fr +
           (\<Sum>k\<leftarrow>ks. if workloadBelongsToLocalQueue (the (fmlookup m k)) q
                     then entryQuantity (FlavorResourceUsage (the (fmlookup m k))) fr else 0)"
    and "quantity (admittedUsage (fold (step q) ks qi)) fr =
           quantity (admittedUsage qi) fr +
           (\<Sum>k\<leftarrow>ks. if workloadBelongsToLocalQueue (the (fmlookup m k)) q \<and>
                        IsAdmitted (the (fmlookup m k))
                     then entryQuantity (FlavorResourceUsage (the (fmlookup m k))) fr else 0)"
    and "reservingWorkloads (fold (step q) ks qi) =
           reservingWorkloads qi +
           of_nat (length (filter (\<lambda>k. workloadBelongsToLocalQueue (the (fmlookup m k)) q) ks))"
    and "admittedWorkloads (fold (step q) ks qi) =
           admittedWorkloads qi +
           of_nat (length (filter (\<lambda>k. workloadBelongsToLocalQueue (the (fmlookup m k)) q \<and>
                                       IsAdmitted (the (fmlookup m k))) ks))"
    and "key (fold (step q) ks qi) = key qi"
  using assms(2)
proof (induction ks arbitrary: qi)
  case Nil
  {
    case 1 show ?case by simp
  next
    case 2 show ?case by simp
  next
    case 3 show ?case by simp
  next
    case 4 show ?case by simp
  next
    case 5 show ?case by simp
  }
next
  case (Cons k ks)
  {
    case 1
    then obtain wl where wl: "fmlookup m k = Some wl" and sub: "set ks \<subseteq> fset (fmdom m)"
      by (auto simp: fmlookup_dom_iff)
    show ?case by (simp add: Cons.IH(1) [OF sub] step_def [symmetric])
        (simp add: step_def wl countWorkload_fields)
  next
    case 2
    then obtain wl where wl: "fmlookup m k = Some wl" and sub: "set ks \<subseteq> fset (fmdom m)"
      by (auto simp: fmlookup_dom_iff)
    show ?case by (simp add: Cons.IH(2) [OF sub] step_def [symmetric])
        (simp add: step_def wl countWorkload_fields)
  next
    case 3
    then obtain wl where wl: "fmlookup m k = Some wl" and sub: "set ks \<subseteq> fset (fmdom m)"
      by (auto simp: fmlookup_dom_iff)
    show ?case by (simp add: Cons.IH(3) [OF sub] step_def [symmetric])
        (simp add: step_def wl countWorkload_fields)
  next
    case 4
    then obtain wl where wl: "fmlookup m k = Some wl" and sub: "set ks \<subseteq> fset (fmdom m)"
      by (auto simp: fmlookup_dom_iff)
    show ?case by (simp add: Cons.IH(4) [OF sub] step_def [symmetric])
        (simp add: step_def wl countWorkload_fields)
  next
    case 5
    then obtain wl where wl: "fmlookup m k = Some wl" and sub: "set ks \<subseteq> fset (fmdom m)"
      by (auto simp: fmlookup_dom_iff)
    show ?case by (simp add: Cons.IH(5) [OF sub] step_def [symmetric])
        (simp add: step_def wl countWorkload_fields)
  }
qed


lemma sum_list_keysOf:
  "(\<Sum>k\<leftarrow>keysOf m. if P (the (fmlookup m k))
                     then entryQuantity (FlavorResourceUsage (the (fmlookup m k))) fr else 0) =
   usageSum P m fr"
  by (simp add: usageSum_indicator sum_list_distinct_conv_sum_set)

lemma length_filter_keysOf:
  "length (filter (\<lambda>k. P (the (fmlookup m k))) (keysOf m)) = workloadCount P m"
proof -
  have "{k. P (the (fmlookup m k))} \<inter> fset (fmdom m) = {k \<in> fset (fmdom m). P (the (fmlookup m k))}"
    by auto
  then show ?thesis by (simp add: workloadCount_def distinct_length_filter)
qed

lemma quantity_resetUsage_empty [simp]: "quantity (resetUsage Map.empty cq) fr = 0"
  by (simp add: resetUsage_def quantity_def split: option.split)

text \<open>
  \<^bold>\<open>C8\<close>. After \<^verbatim>\<open>addLocalQueue(q)\<close> has returned without error, the local queue registered
  under the key of \<open>q\<close> has as \<^verbatim>\<open>reservingWorkloads\<close> the number, and as \<^verbatim>\<open>totalReserved\<close> the
  summed \<^verbatim>\<open>FlavorResourceUsage\<close>, of the workloads of the cluster queue whose namespace is
  the namespace of \<open>q\<close> and whose queue name is the name of \<open>q\<close>; \<^verbatim>\<open>admittedWorkloads\<close> and
  \<^verbatim>\<open>admittedUsage\<close> are the same over the admitted ones among them. The counts are Go
  integers, so the number is read in 64 bits.
\<close>

theorem addLocalQueue_backfills_counters:
  assumes "fst (addLocalQueue c q) = None"
  shows "\<exists>lq. fmlookup (localQueues (snd (addLocalQueue c q))) (queueKey q) = Some lq \<and>
           reservingWorkloads lq =
             of_nat (workloadCount (\<lambda>w. Namespace w = lqNamespace q \<and> QueueName w = lqName q)
                       (Workloads c)) \<and>
           admittedWorkloads lq =
             of_nat (workloadCount (\<lambda>w. (Namespace w = lqNamespace q \<and> QueueName w = lqName q) \<and>
                                        IsAdmitted w) (Workloads c)) \<and>
           (\<forall>fr. quantity (totalReserved lq) fr =
                   usageSum (\<lambda>w. Namespace w = lqNamespace q \<and> QueueName w = lqName q)
                     (Workloads c) fr \<and>
                 quantity (admittedUsage lq) fr =
                   usageSum (\<lambda>w. (Namespace w = lqNamespace q \<and> QueueName w = lqName q) \<and>
                                  IsAdmitted w) (Workloads c) fr)"
proof -
  have absent: "fmlookup (localQueues c) (queueKey q) = None"
    using assms by (simp add: addLocalQueue_def split: if_splits)
  let ?q0 = "resetFlavorsAndResources
               \<lparr>key = queueKey q, reservingWorkloads = 0, admittedWorkloads = 0,
                totalReserved = Map.empty, admittedUsage = Map.empty\<rparr>
               (Usage (resourceNode c)) (AdmittedUsage c)"
  let ?lq = "fold (\<lambda>k qi. case fmlookup (Workloads c) k of
                             None \<Rightarrow> qi | Some wl \<Rightarrow> countWorkload q wl qi)
               (keysOf (Workloads c)) ?q0"
  have q0: "quantity (totalReserved ?q0) fr = 0" "quantity (admittedUsage ?q0) fr = 0"
    "reservingWorkloads ?q0 = 0" "admittedWorkloads ?q0 = 0" for fr
    by (simp_all add: resetFlavorsAndResources_def Let_def)
  have stored: "fmlookup (localQueues (snd (addLocalQueue c q))) (queueKey q) = Some ?lq"
    using absent by (simp add: addLocalQueue_def Let_def)
  have sub: "set (keysOf (Workloads c)) \<subseteq> fset (fmdom (Workloads c))" by simp
  note f = fold_countWorkload [OF sub, of q ?q0, unfolded workloadBelongsToLocalQueue_def]
  have "reservingWorkloads ?lq =
          of_nat (workloadCount (\<lambda>w. Namespace w = lqNamespace q \<and> QueueName w = lqName q)
                    (Workloads c))"
    using length_filter_keysOf
      [of "\<lambda>w. Namespace w = lqNamespace q \<and> QueueName w = lqName q" "Workloads c"]
    by (simp add: f(3) q0)
  moreover have "admittedWorkloads ?lq =
          of_nat (workloadCount (\<lambda>w. (Namespace w = lqNamespace q \<and> QueueName w = lqName q) \<and>
                                     IsAdmitted w) (Workloads c))"
    using length_filter_keysOf
      [of "\<lambda>w. (Namespace w = lqNamespace q \<and> QueueName w = lqName q) \<and> IsAdmitted w" "Workloads c"]
    by (simp add: f(4) q0)
  moreover have "quantity (totalReserved ?lq) fr =
          usageSum (\<lambda>w. Namespace w = lqNamespace q \<and> QueueName w = lqName q) (Workloads c) fr" for fr
    using sum_list_keysOf
      [of "\<lambda>w. Namespace w = lqNamespace q \<and> QueueName w = lqName q" "Workloads c" fr]
    by (simp add: f(1) q0)
  moreover have "quantity (admittedUsage ?lq) fr =
          usageSum (\<lambda>w. (Namespace w = lqNamespace q \<and> QueueName w = lqName q) \<and> IsAdmitted w)
            (Workloads c) fr" for fr
    using sum_list_keysOf
      [of "\<lambda>w. (Namespace w = lqNamespace q \<and> QueueName w = lqName q) \<and> IsAdmitted w"
          "Workloads c" fr]
    by (simp add: f(2) q0)
  ultimately show ?thesis using stored by blast
qed

theorem addLocalQueue_backfills_counters_witness:
  "fst (addLocalQueue crowdedQueue exampleLocalQueue) = None \<and>
   (\<exists>lq. fmlookup (localQueues (snd (addLocalQueue crowdedQueue exampleLocalQueue))) ''ns/lq'' =
            Some lq \<and>
      reservingWorkloads lq = 2 \<and> admittedWorkloads lq = 1 \<and>
      quantity (totalReserved lq) (''default'', ''cpu'') = 5 \<and>
      quantity (admittedUsage lq) (''default'', ''cpu'') = 3)"
proof -
  let ?P = "\<lambda>w. Namespace w = lqNamespace exampleLocalQueue \<and> QueueName w = lqName exampleLocalQueue"
  let ?Q = "\<lambda>w. (Namespace w = lqNamespace exampleLocalQueue \<and>
                  QueueName w = lqName exampleLocalQueue) \<and> IsAdmitted w"
  let ?m = "Workloads crowdedQueue"
  have h: "fst (addLocalQueue crowdedQueue exampleLocalQueue) = None"
    by code_simp
  have k: "queueKey exampleLocalQueue = ''ns/lq''"
    by (simp add: exampleLocalQueue_def queueKey_def)
  have "length (filter (\<lambda>k. ?P (the (fmlookup ?m k))) (keysOf ?m)) = 2"
    "length (filter (\<lambda>k. ?Q (the (fmlookup ?m k))) (keysOf ?m)) = 1"
    by code_simp+
  then have n: "workloadCount ?P ?m = 2" "workloadCount ?Q ?m = 1"
    using length_filter_keysOf [of ?P ?m] length_filter_keysOf [of ?Q ?m] by simp_all
  have "(\<Sum>k\<leftarrow>keysOf ?m. if ?P (the (fmlookup ?m k))
           then entryQuantity (FlavorResourceUsage (the (fmlookup ?m k))) (''default'', ''cpu'')
           else 0) = 5"
    "(\<Sum>k\<leftarrow>keysOf ?m. if ?Q (the (fmlookup ?m k))
           then entryQuantity (FlavorResourceUsage (the (fmlookup ?m k))) (''default'', ''cpu'')
           else 0) = 3"
    by code_simp+
  then have s: "usageSum ?P ?m (''default'', ''cpu'') = 5" "usageSum ?Q ?m (''default'', ''cpu'') = 3"
    using sum_list_keysOf [of ?P ?m "(''default'', ''cpu'')"]
      sum_list_keysOf [of ?Q ?m "(''default'', ''cpu'')"] by simp_all
  from addLocalQueue_backfills_counters [OF h] k n s h show ?thesis
    by fastforce
qed


subsection \<open>Status\<close>


lemma isTASSynced_iff:
  "isTASSynced env c \<longleftrightarrow> (\<forall>f. f |\<in>| fmdom (tasFlavors c) \<longrightarrow> tasCacheGet env f)"
  by (auto simp: isTASSynced_def list_all_iff)

lemma workloadFrame_hasInactiveCause:
  assumes "workloadFrame c c'"
  shows "hasInactiveCause env c' = hasInactiveCause env c"
  by (simp add: hasInactiveCause_def workloadFrame_fields [OF assms])

lemma workloadFrame_isTASViolated:
  assumes "workloadFrame c c'"
  shows "isTASViolated env c' = isTASViolated env c"
  by (simp add: isTASViolated_def isTASSynced_def workloadFrame_fields [OF assms])

lemma accountDeferred_frame: "workloadFrame c (accountDeferred env k c)"
proof (cases "fmlookup (Workloads c) k")
  case None
  then show ?thesis by (simp add: accountDeferred_def)
next
  case (Some w)
  have "workloadFrame (addOrUpdateWorkload env c w) (accountDeferred env k c) \<or>
        accountDeferred env k c = c"
    by (simp add: accountDeferred_def Some Let_def workloadFrame_def accountingCleared_def)
  then show ?thesis
    using addOrUpdateWorkload_frame [of c env w] by (auto intro: workloadFrame_trans)
qed

lemma fold_accountDeferred_frame: "workloadFrame c (fold (accountDeferred env) ks c)"
proof (induction ks arbitrary: c)
  case Nil
  show ?case by simp
next
  case (Cons k ks)
  have "workloadFrame (accountDeferred env k c) (fold (accountDeferred env) ks (accountDeferred env k c))"
    by (rule Cons.IH)
  with accountDeferred_frame show ?case by (auto intro: workloadFrame_trans)
qed


lemma deferredAccounted_frame: "workloadFrame c (deferredAccounted env c)"
  by (simp add: deferredAccounted_def fold_accountDeferred_frame)

lemma inline_cause:
  "(isStopped c \<or> missingFlavors c \<noteq> [] \<or> missingAdmissionChecks c \<noteq> [] \<or>
    inactiveAdmissionChecks c \<noteq> [] \<or> multipleSingleInstanceControllersChecks c \<noteq> fmempty \<or>
    flavorIndependentAdmissionCheckAppliedPerFlavor c \<noteq> [] \<or> isTASViolated env c \<or>
    length (multiKueueAdmissionChecks c) > 1 \<or> perFlavorMultiKueueAdmissionChecks c \<noteq> [])
   \<longleftrightarrow> hasInactiveCause env c"
  by (auto simp: hasInactiveCause_def isTASViolated_def isTASSynced_iff)

lemma updateQueueStatus_alt:
  "updateQueueStatus env c =
     (deferredAccounted env c)\<lparr>Status :=
        (if Status c = terminating then terminating
         else if hasInactiveCause env c then pending else active)\<rparr>"
proof -
  let ?c1 = "deferredAccounted env c"
  note fr = deferredAccounted_frame [of c env]
  have st: "Status ?c1 = Status c" by (rule workloadFrame_fields(1) [OF fr])
  have cause: "hasInactiveCause env ?c1 = hasInactiveCause env c"
    by (rule workloadFrame_hasInactiveCause [OF fr])
  have "updateQueueStatus env c =
     ?c1\<lparr>Status :=
        (if Status ?c1 = terminating then terminating
         else if hasInactiveCause env ?c1 then pending else active)\<rparr>"
    unfolding updateQueueStatus_def deferredAccounted_def [symmetric] Let_def inline_cause
    by simp
  then show ?thesis by (simp add: st cause)
qed


lemma hasInactiveCause_cong:
  assumes "isStopped c' = isStopped c" "missingFlavors c' = missingFlavors c"
    "missingAdmissionChecks c' = missingAdmissionChecks c"
    "inactiveAdmissionChecks c' = inactiveAdmissionChecks c"
    "multiKueueAdmissionChecks c' = multiKueueAdmissionChecks c"
    "perFlavorMultiKueueAdmissionChecks c' = perFlavorMultiKueueAdmissionChecks c"
    "multipleSingleInstanceControllersChecks c' = multipleSingleInstanceControllersChecks c"
    "flavorIndependentAdmissionCheckAppliedPerFlavor c' =
       flavorIndependentAdmissionCheckAppliedPerFlavor c"
    "tasFlavors c' = tasFlavors c" "provisioningAdmissionChecks c' = provisioningAdmissionChecks c"
  shows "hasInactiveCause env c' = hasInactiveCause env c"
  by (simp add: hasInactiveCause_def assms)

lemma updateQueueStatus_Status:
  "Status (updateQueueStatus env c) =
     (if Status c = terminating then terminating
      else if hasInactiveCause env c then pending else active)"
  by (simp add: updateQueueStatus_alt)

lemma updateQueueStatus_cause:
  "hasInactiveCause env (updateQueueStatus env c) = hasInactiveCause env c"
proof -
  have "hasInactiveCause env (updateQueueStatus env c) = hasInactiveCause env (deferredAccounted env c)"
    by (rule hasInactiveCause_cong) (simp_all add: updateQueueStatus_alt)
  then show ?thesis
    by (simp add: workloadFrame_hasInactiveCause [OF deferredAccounted_frame])
qed

lemma updateQueueStatus_consistent: "statusConsistent env (updateQueueStatus env c)"
  by (simp add: statusConsistent_def updateQueueStatus_Status updateQueueStatus_cause)

lemma updateQueueStatus_terminating:
  "Status (updateQueueStatus env c) = terminating \<longleftrightarrow> Status c = terminating"
  by (simp add: updateQueueStatus_Status)

lemma updateLabelKeys_Status [simp]: "Status (updateLabelKeys c flavors) = Status c"
  by (simp add: updateLabelKeys_def split: prod.split)

lemma UpdateWithFlavors_consistent: "statusConsistent env (UpdateWithFlavors env c flavors)"
  by (simp add: UpdateWithFlavors_def updateQueueStatus_consistent)

lemma UpdateWithFlavors_terminating:
  "Status (UpdateWithFlavors env c flavors) = terminating \<longleftrightarrow> Status c = terminating"
  by (simp add: UpdateWithFlavors_def updateQueueStatus_terminating)

lemma updateWithAdmissionChecks_cases:
  "updateWithAdmissionChecks env c checks = c \<or>
   (\<exists>c'. Status c' = Status c \<and> Workloads c' = Workloads c \<and>
         AllocatableResourceGeneration c' = AllocatableResourceGeneration c \<and>
         updateWithAdmissionChecks env c checks = updateQueueStatus env c')"
proof -
  define l where "l = fold (checkStep env checks (AdmissionChecks c)) (keysOf (AdmissionChecks c))
                emptyCheckLists"
  define u1 where "u1 = (missingAdmissionChecks c \<noteq> sort (missing l))"
  define c1 where "c1 = (if u1 then c\<lparr>missingAdmissionChecks := sort (missing l)\<rparr> else c)"
  define u2 where "u2 = (inactiveAdmissionChecks c1 \<noteq> sort (inactive l))"
  define c2 where "c2 = (if u2 then c1\<lparr>inactiveAdmissionChecks := sort (inactive l)\<rparr> else c1)"
  define u3 where "u3 = (AdmissionCheckValidationRules env \<and>
                multipleSingleInstance l \<noteq> multipleSingleInstanceControllersChecks c2)"
  define c3 where "c3 = (if u3 then c2\<lparr>multipleSingleInstanceControllersChecks :=
                                        multipleSingleInstance l\<rparr> else c2)"
  define u4 where "u4 = (AdmissionCheckValidationRules env \<and>
                flavorIndependentAdmissionCheckAppliedPerFlavor c3 \<noteq>
                sort (flavorIndependentCheckOnFlavors l))"
  define c4 where "c4 = (if u4 then c3\<lparr>flavorIndependentAdmissionCheckAppliedPerFlavor :=
                                        sort (flavorIndependentCheckOnFlavors l)\<rparr> else c3)"
  define u5 where "u5 = (multiKueueAdmissionChecks c4 \<noteq> sorted_list_of_fset (multiKueueChecksSet l))"
  define c5 where "c5 = (if u5 then c4\<lparr>multiKueueAdmissionChecks :=
                                        sorted_list_of_fset (multiKueueChecksSet l)\<rparr> else c4)"
  define u6 where "u6 = (provisioningAdmissionChecks c5 \<noteq>
                sorted_list_of_fset (provisioningChecksSet l))"
  define c6 where "c6 = (if u6 then c5\<lparr>provisioningAdmissionChecks :=
                                        sorted_list_of_fset (provisioningChecksSet l)\<rparr> else c5)"
  define u7 where "u7 = (perFlavorMultiKueueAdmissionChecks c6 \<noteq> sort (perFlavorMultiKueueChecks l))"
  define c7 where "c7 = (if u7 then c6\<lparr>perFlavorMultiKueueAdmissionChecks :=
                                        sort (perFlavorMultiKueueChecks l)\<rparr> else c6)"
  have res: "updateWithAdmissionChecks env c checks =
      (if u1 \<or> u2 \<or> u3 \<or> u4 \<or> u5 \<or> u6 \<or> u7 then updateQueueStatus env c7 else c7)"
    unfolding updateWithAdmissionChecks_def Let_def l_def [symmetric]
      u1_def [symmetric] c1_def [symmetric] u2_def [symmetric] c2_def [symmetric]
      u3_def [symmetric] c3_def [symmetric] u4_def [symmetric] c4_def [symmetric]
      u5_def [symmetric] c5_def [symmetric] u6_def [symmetric] c6_def [symmetric]
      u7_def [symmetric] c7_def [symmetric]
    by (rule refl)
  have st: "Status c7 = Status c" "Workloads c7 = Workloads c"
    "AllocatableResourceGeneration c7 = AllocatableResourceGeneration c"
    by (simp_all add: c7_def c6_def c5_def c4_def c3_def c2_def c1_def)
  have same: "c7 = c" if "\<not> (u1 \<or> u2 \<or> u3 \<or> u4 \<or> u5 \<or> u6 \<or> u7)"
    using that by (simp add: c7_def c6_def c5_def c4_def c3_def c2_def c1_def)
  show ?thesis
  proof (cases "u1 \<or> u2 \<or> u3 \<or> u4 \<or> u5 \<or> u6 \<or> u7")
    case True
    then have "updateWithAdmissionChecks env c checks = updateQueueStatus env c7"
      by (simp only: res if_True)
    with st show ?thesis by blast
  next
    case False
    then have "updateWithAdmissionChecks env c checks = c7"
      by (simp only: res if_False)
    with same [OF False] have "updateWithAdmissionChecks env c checks = c" by simp
    then show ?thesis by blast
  qed
qed

lemma updateWithAdmissionChecks_consistent:
  "statusConsistent env c \<Longrightarrow> statusConsistent env (updateWithAdmissionChecks env c checks)"
  using updateWithAdmissionChecks_cases [of env c checks]
  by (auto simp: updateQueueStatus_consistent)

lemma updateWithAdmissionChecks_terminating:
  "Status (updateWithAdmissionChecks env c checks) = terminating \<longleftrightarrow> Status c = terminating"
  using updateWithAdmissionChecks_cases [of env c checks]
  by (auto simp: updateQueueStatus_terminating)



lemma statusFields_Status:
  "statusFields c' = statusFields c \<Longrightarrow> Status c' = Status c"
  by (simp add: statusFields_def)

lemma statusFields_cause:
  assumes "statusFields c' = statusFields c"
  shows "hasInactiveCause env c' = hasInactiveCause env c"
  by (rule hasInactiveCause_cong) (use assms in \<open>simp_all add: statusFields_def\<close>)

lemma statusFields_consistent:
  assumes "statusFields c' = statusFields c"
  shows "statusConsistent env c' = statusConsistent env c"
  unfolding statusConsistent_def statusFields_Status [OF assms] statusFields_cause [OF assms]
  by (rule refl)

lemma updateClusterQueue_stages:
  "updateClusterQueue env c inp flavors checks oldParent =
     (case quotaStage env c inp oldParent of
        (Some err, c2) \<Rightarrow> (Some err, c2)
      | (None, c2) \<Rightarrow>
          (case specNamespaceSelector inp of
             None \<Rightarrow> (Some errSelector, c2)
           | Some nsSelector \<Rightarrow>
               (None,
                (updateWithAdmissionChecks env
                   (UpdateWithFlavors env (specStage c2 inp nsSelector) flavors) checks)
                \<lparr>cqFlavorFungibility :=
                   (case specFlavorFungibility inp of
                      Some ff \<Rightarrow>
                        (let ff1 = (if WhenCanBorrow ff = []
                                    then ff\<lparr>WhenCanBorrow := WhenCanBorrow defaultFlavorFungibility\<rparr>
                                    else ff)
                         in if WhenCanPreempt ff1 = []
                            then ff1\<lparr>WhenCanPreempt := WhenCanPreempt defaultFlavorFungibility\<rparr>
                            else ff1)
                    | None \<Rightarrow> defaultFlavorFungibility),
                  FairWeight := specFairWeight inp\<rparr>)))"
proof (cases "updateQuotasAndResourceGroups env c (specResourceGroups inp)")
  case (Pair changed c1)
  show ?thesis
    unfolding updateClusterQueue_def quotaStage_def specStage_def Let_def Pair prod.case
    by (rule refl)
qed

lemma quotaStage_statusFields:
  "statusFields (snd (quotaStage env c inp oldParent)) = statusFields c"
  by (simp add: quotaStage_def updateQuotasAndResourceGroups_def Let_def
      updateCohortTreeResources_def updateClusterQueueResourceNode_def statusFields_def
      split: option.split)

lemma specStage_Status [simp]: "Status (specStage c inp sel) = Status c"
  by (simp add: specStage_def)

lemma updateClusterQueue_status:
  "(statusConsistent env c \<longrightarrow>
      statusConsistent env (snd (updateClusterQueue env c inp flavors checks oldParent))) \<and>
   (Status (snd (updateClusterQueue env c inp flavors checks oldParent)) = terminating \<longleftrightarrow>
      Status c = terminating)"
proof -
  obtain e c2 where q: "quotaStage env c inp oldParent = (e, c2)" by (cases "quotaStage env c inp oldParent")
  have sf: "statusFields c2 = statusFields c"
    using quotaStage_statusFields [of env c inp oldParent] by (simp add: q)
  note c2 = statusFields_Status [OF sf] statusFields_consistent [OF sf, of env]
  show ?thesis
  proof (cases "e = None \<and> specNamespaceSelector inp \<noteq> None")
    case False
    then have "snd (updateClusterQueue env c inp flavors checks oldParent) = c2"
      by (auto simp: updateClusterQueue_stages q split: option.split)
    then show ?thesis by (simp add: c2)
  next
    case True
    then obtain sel where sel: "specNamespaceSelector inp = Some sel" and e: "e = None" by auto
    let ?u = "updateWithAdmissionChecks env (UpdateWithFlavors env (specStage c2 inp sel) flavors) checks"
    have r: "statusFields (snd (updateClusterQueue env c inp flavors checks oldParent)) = statusFields ?u"
      by (simp add: updateClusterQueue_stages q e sel statusFields_def)
    have "statusConsistent env ?u"
      by (simp add: updateWithAdmissionChecks_consistent UpdateWithFlavors_consistent)
    moreover have "Status ?u = terminating \<longleftrightarrow> Status c = terminating"
      by (simp add: updateWithAdmissionChecks_terminating UpdateWithFlavors_terminating c2)
    ultimately show ?thesis
      using statusFields_Status [OF r] statusFields_consistent [OF r, of env] by simp
  qed
qed

lemma applyStatusOp_status:
  "(statusConsistent env c \<longrightarrow> statusConsistent env (applyStatusOp env op c)) \<and>
   (Status (applyStatusOp env op c) = terminating \<longleftrightarrow> Status c = terminating)"
  by (cases op)
     (simp_all add: updateClusterQueue_status UpdateWithFlavors_consistent
        UpdateWithFlavors_terminating updateWithAdmissionChecks_consistent
        updateWithAdmissionChecks_terminating)

lemma fold_applyStatusOp_status:
  "(statusConsistent env c \<longrightarrow> statusConsistent env (fold (applyStatusOp env) ops c)) \<and>
   (Status (fold (applyStatusOp env) ops c) = terminating \<longleftrightarrow> Status c = terminating)"
proof (induction ops arbitrary: c)
  case Nil
  show ?case by simp
next
  case (Cons op ops)
  show ?case
    using Cons.IH [of "applyStatusOp env op c"] applyStatusOp_status [of env c op]
    by simp
qed

lemma fold_applyStatusOp_establishes:
  assumes "\<exists>flavors. OpUpdateWithFlavors flavors \<in> set ops"
  shows "statusConsistent env (fold (applyStatusOp env) ops c)"
  using assms
proof (induction ops arbitrary: c)
  case Nil
  then show ?case by simp
next
  case (Cons op ops)
  show ?case
  proof (cases "\<exists>flavors. OpUpdateWithFlavors flavors \<in> set ops")
    case True
    then show ?thesis using Cons.IH [of "applyStatusOp env op c"] by simp
  next
    case False
    with Cons.prems obtain flavors where op: "op = OpUpdateWithFlavors flavors" by auto
    have "statusConsistent env (applyStatusOp env op c)"
      by (simp add: op UpdateWithFlavors_consistent)
    then show ?thesis
      using fold_applyStatusOp_status [of env "applyStatusOp env op c" ops] by simp
  qed
qed


subsection \<open>The reason of an inactive queue\<close>

lemma stepCause:
  "(if b then addCause r m rm else rm) =
     (fst rm @ (if b then [r] else []), snd rm @ (if b then [m] else []))"
  by (cases rm) (simp add: addCause_def)

lemma fold_append_messages:
  "fold (\<lambda>x messages. messages @ [f x]) xs ms = ms @ map f xs"
  by (induction xs arbitrary: ms) simp_all

lemma join_separated: "join xs sep = separated sep xs"
proof (induction xs sep rule: join.induct)
  case (3 x y ys sep)
  then show ?case by (simp add: separated_def)
qed (simp_all add: separated_def)

lemma fmtSlice_listed: "fmtSlice xs = listed xs"
  by (simp add: fmtSlice_def listed_def join_separated)

lemma singleInstanceMessage_text:
  "controller |\<in>| fmdom (multipleSingleInstanceControllersChecks c) \<Longrightarrow>
   singleInstanceMessage env c controller =
     ''only one AdmissionCheck of '' @
     listed (the (fmlookup (multipleSingleInstanceControllersChecks c) controller)) @
     '' can be referenced for controller '' @ quoted env controller"
  by (auto simp: singleInstanceMessage_def fmtSlice_listed fmlookup_dom_iff)

lemma singleInstanceMessages_text:
  "map (singleInstanceMessage env c) (keysOf (multipleSingleInstanceControllersChecks c)) =
   map (\<lambda>controller.
          ''only one AdmissionCheck of '' @
          listed (the (fmlookup (multipleSingleInstanceControllersChecks c) controller)) @
          '' can be referenced for controller '' @ quoted env controller)
     (sorted_list_of_fset (fmdom (multipleSingleInstanceControllersChecks c)))"
  unfolding keysOf_def
  by (rule map_cong [OF refl]) (simp add: singleInstanceMessage_text sorted_list_of_fset.rep_eq)

lemma fold_topology:
  assumes "set ks \<subseteq> fset (fmdom tas)"
  shows "fold (\<lambda>tasFlavor rm'.
               case fmlookup tas tasFlavor of
                 None \<Rightarrow> rm'
               | Some topology \<Rightarrow>
                   if \<not> get tasFlavor
                   then addCause R (msg topology tasFlavor) rm'
                   else rm') ks rm =
         (fst rm @ map (\<lambda>k. R) (filter (\<lambda>k. \<not> get k) ks),
          snd rm @ map (\<lambda>k. msg (the (fmlookup tas k)) k) (filter (\<lambda>k. \<not> get k) ks))"
  using assms
proof (induction ks arbitrary: rm)
  case Nil
  show ?case by simp
next
  case (Cons k ks)
  then obtain t where t: "fmlookup tas k = Some t" and sub: "set ks \<subseteq> fset (fmdom tas)"
    by (auto simp: fmlookup_dom_iff)
  show ?case
    by (cases rm) (simp add: t Cons.IH [OF sub] addCause_def)
qed

lemma tasCauses_alt:
  assumes "set visited \<subseteq> fset (fmdom (tasFlavors c))"
  shows "tasCauses env c visited rm =
     (fst rm @
        (if TopologyAwareScheduling env \<and> tasFlavors c \<noteq> fmempty
         then (if multiKueueAdmissionChecks c \<noteq> []
               then [ClusterQueueActiveReasonNotSupportedWithTopologyAwareScheduling] else []) @
              (if provisioningAdmissionChecks c \<noteq> []
               then [ClusterQueueActiveReasonNotSupportedWithTopologyAwareScheduling] else []) @
              map (\<lambda>k. ClusterQueueActiveReasonTopologyNotFound)
                (filter (\<lambda>k. \<not> tasCacheGet env k) visited)
         else []),
      snd rm @
        (if TopologyAwareScheduling env \<and> tasFlavors c \<noteq> fmempty
         then (if multiKueueAdmissionChecks c \<noteq> []
               then [''TAS is not supported with MultiKueue admission check''] else []) @
              (if provisioningAdmissionChecks c \<noteq> []
               then [''TAS is not supported with ProvisioningRequest admission check''] else []) @
              map (\<lambda>k. topologyMessage env (the (fmlookup (tasFlavors c) k)) k)
                (filter (\<lambda>k. \<not> tasCacheGet env k) visited)
         else []))"
proof (cases "TopologyAwareScheduling env \<and> tasFlavors c \<noteq> fmempty")
  case False
  then show ?thesis by (auto simp: tasCauses_def)
next
  case True
  show ?thesis
    using True
    by (simp add: tasCauses_def Let_def fold_topology [OF assms] stepCause split del: if_split)
qed

text \<open>
  What \<^verbatim>\<open>inactiveReason\<close> collects for a pending queue: the reason codes and the messages of
  the recorded causes, in the order of the spec.
\<close>

lemma pendingCauses_alt:
  assumes "set visited \<subseteq> fset (fmdom (tasFlavors c))"
  shows "pendingCauses env c visited =
     (map fst (applicableCauses env c visited), concat (map snd (applicableCauses env c visited)))"
proof -
  define A1 where "A1 =
    (if isStopped c
     then [(''Stopped'',
            [''is stopped''])]
     else [])"
  define rm1 where "rm1 =
    (if isStopped c
     then addCause ClusterQueueActiveReasonStopped
            (''is stopped'') ([], [])
     else ([], []))"
  define A2 where "A2 =
    (if missingFlavors c \<noteq> []
     then [(''FlavorNotFound'',
            [''references missing ResourceFlavor(s): '' @ listed (missingFlavors c)])]
     else [])"
  define rm2 where "rm2 =
    (if missingFlavors c \<noteq> []
     then addCause ClusterQueueActiveReasonFlavorNotFound
            (''references missing ResourceFlavor(s): '' @ fmtSlice (missingFlavors c)) rm1
     else rm1)"
  define A3 where "A3 =
    (if missingAdmissionChecks c \<noteq> []
     then [(''AdmissionCheckNotFound'',
            [''references missing AdmissionCheck(s): '' @ listed (missingAdmissionChecks c)])]
     else [])"
  define rm3 where "rm3 =
    (if missingAdmissionChecks c \<noteq> []
     then addCause ClusterQueueActiveReasonAdmissionCheckNotFound
            (''references missing AdmissionCheck(s): '' @ fmtSlice (missingAdmissionChecks c)) rm2
     else rm2)"
  define A4 where "A4 =
    (if inactiveAdmissionChecks c \<noteq> []
     then [(''AdmissionCheckInactive'',
            [''references inactive AdmissionCheck(s): '' @ listed (inactiveAdmissionChecks c)])]
     else [])"
  define rm4 where "rm4 =
    (if inactiveAdmissionChecks c \<noteq> []
     then addCause ClusterQueueActiveReasonAdmissionCheckInactive
            (''references inactive AdmissionCheck(s): '' @ fmtSlice (inactiveAdmissionChecks c)) rm3
     else rm3)"
  define A5 where "A5 =
    (if length (multiKueueAdmissionChecks c) > 1
     then [(''MultipleMultiKueueAdmissionChecks'',
            [''Cannot use multiple MultiKueue AdmissionChecks on the same ClusterQueue, found: '' @
       separated '','' (multiKueueAdmissionChecks c)])]
     else [])"
  define rm5 where "rm5 =
    (if length (multiKueueAdmissionChecks c) > 1
     then addCause ClusterQueueActiveReasonMultipleMultiKueueAdmissionChecks
            (''Cannot use multiple MultiKueue AdmissionChecks on the same ClusterQueue, found: '' @
       join (multiKueueAdmissionChecks c) '','') rm4
     else rm4)"
  define A6 where "A6 =
    (if perFlavorMultiKueueAdmissionChecks c \<noteq> []
     then [(''MultiKueueAdmissionCheckAppliedPerFlavor'',
            [''Cannot specify MultiKueue AdmissionCheck per flavor, found: '' @
       separated '','' (perFlavorMultiKueueAdmissionChecks c)])]
     else [])"
  define rm6 where "rm6 =
    (if perFlavorMultiKueueAdmissionChecks c \<noteq> []
     then addCause ClusterQueueActiveReasonMultiKueueAdmissionCheckAppliedPerFlavor
            (''Cannot specify MultiKueue AdmissionCheck per flavor, found: '' @
       join (perFlavorMultiKueueAdmissionChecks c) '','') rm5
     else rm5)"
  define A7 where "A7 =
    (if multipleSingleInstanceControllersChecks c \<noteq> fmempty
     then [(''MultipleSingleInstanceControllerAdmissionChecks'',
            map (\<lambda>controller.
                   ''only one AdmissionCheck of '' @
                   listed (the (fmlookup (multipleSingleInstanceControllersChecks c) controller)) @
                   '' can be referenced for controller '' @ quoted env controller)
              (sorted_list_of_fset (fmdom (multipleSingleInstanceControllersChecks c))))]
     else [])"
  define rm7 where "rm7 =
    (if multipleSingleInstanceControllersChecks c \<noteq> fmempty
     then (fst rm6 @ [ClusterQueueActiveReasonMultipleSingleInstanceControllerAdmissionChecks],
           fold (\<lambda>controller messages. messages @ [singleInstanceMessage env c controller])
             (keysOf (multipleSingleInstanceControllersChecks c)) (snd rm6))
     else rm6)"
  define A8 where "A8 =
    (if flavorIndependentAdmissionCheckAppliedPerFlavor c \<noteq> []
     then [(''FlavorIndependentAdmissionCheckAppliedPerFlavor'',
            [''AdmissionCheck(s): '' @ listed (flavorIndependentAdmissionCheckAppliedPerFlavor c) @
       '' cannot be set at flavor level''])]
     else [])"
  define rm8 where "rm8 =
    (if flavorIndependentAdmissionCheckAppliedPerFlavor c \<noteq> []
     then addCause ClusterQueueActiveReasonFlavorIndependentAdmissionCheckAppliedPerFlavor
            (''AdmissionCheck(s): '' @ fmtSlice (flavorIndependentAdmissionCheckAppliedPerFlavor c) @
       '' cannot be set at flavor level'') rm7
     else rm7)"
  define T where "T =
    (if TopologyAwareScheduling env \<and> tasFlavors c \<noteq> fmempty
     then (if multiKueueAdmissionChecks c \<noteq> []
           then [(''NotSupportedWithTopologyAwareScheduling'',
                  [''TAS is not supported with MultiKueue admission check''])]
           else []) @
          (if provisioningAdmissionChecks c \<noteq> []
           then [(''NotSupportedWithTopologyAwareScheduling'',
                  [''TAS is not supported with ProvisioningRequest admission check''])]
           else []) @
          map (\<lambda>tasFlavor.
                 (''TopologyNotFound'',
                  [''there is no Topology '' @
                   quoted env (the (fmlookup (tasFlavors c) tasFlavor)) @
                   '' for TAS flavor '' @ quoted env tasFlavor]))
            (filter (\<lambda>tasFlavor. \<not> tasCacheGet env tasFlavor) visited)
     else [])"
  have code: "pendingCauses env c visited = tasCauses env c visited rm8"
    unfolding pendingCauses_def Let_def rm8_def rm7_def rm6_def rm5_def rm4_def rm3_def rm2_def
      rm1_def
    by (rule refl)
  have spec: "applicableCauses env c visited = A1 @ A2 @ A3 @ A4 @ A5 @ A6 @ A7 @ A8 @ T"
    unfolding applicableCauses_def A1_def A2_def A3_def A4_def A5_def A6_def A7_def A8_def T_def
    by (rule refl)
  have r1: "rm1 = (map fst (A1), concat (map snd (A1)))"
    by (simp add: rm1_def A1_def addCause_def ClusterQueueActiveReasonStopped_def fmtSlice_listed join_separated)
  have r2: "rm2 = (map fst (A1 @ A2), concat (map snd (A1 @ A2)))"
    by (simp add: rm2_def r1 A2_def addCause_def ClusterQueueActiveReasonFlavorNotFound_def fmtSlice_listed join_separated)
  have r3: "rm3 = (map fst (A1 @ A2 @ A3), concat (map snd (A1 @ A2 @ A3)))"
    by (simp add: rm3_def r2 A3_def addCause_def ClusterQueueActiveReasonAdmissionCheckNotFound_def fmtSlice_listed join_separated)
  have r4: "rm4 = (map fst (A1 @ A2 @ A3 @ A4), concat (map snd (A1 @ A2 @ A3 @ A4)))"
    by (simp add: rm4_def r3 A4_def addCause_def ClusterQueueActiveReasonAdmissionCheckInactive_def fmtSlice_listed join_separated)
  have r5: "rm5 = (map fst (A1 @ A2 @ A3 @ A4 @ A5), concat (map snd (A1 @ A2 @ A3 @ A4 @ A5)))"
    by (simp add: rm5_def r4 A5_def addCause_def ClusterQueueActiveReasonMultipleMultiKueueAdmissionChecks_def fmtSlice_listed join_separated)
  have r6: "rm6 = (map fst (A1 @ A2 @ A3 @ A4 @ A5 @ A6), concat (map snd (A1 @ A2 @ A3 @ A4 @ A5 @ A6)))"
    by (simp add: rm6_def r5 A6_def addCause_def ClusterQueueActiveReasonMultiKueueAdmissionCheckAppliedPerFlavor_def fmtSlice_listed join_separated)
  have r7: "rm7 = (map fst (A1 @ A2 @ A3 @ A4 @ A5 @ A6 @ A7), concat (map snd (A1 @ A2 @ A3 @ A4 @ A5 @ A6 @ A7)))"
    by (simp add: rm7_def r6 A7_def addCause_def ClusterQueueActiveReasonMultipleSingleInstanceControllerAdmissionChecks_def fold_append_messages singleInstanceMessages_text)
  have r8: "rm8 = (map fst (A1 @ A2 @ A3 @ A4 @ A5 @ A6 @ A7 @ A8), concat (map snd (A1 @ A2 @ A3 @ A4 @ A5 @ A6 @ A7 @ A8)))"
    by (simp add: rm8_def r7 A8_def addCause_def ClusterQueueActiveReasonFlavorIndependentAdmissionCheckAppliedPerFlavor_def fmtSlice_listed join_separated)
  have t: "tasCauses env c visited rm8 =
      (fst rm8 @ map fst T, snd rm8 @ concat (map snd T))"
  proof (cases "TopologyAwareScheduling env \<and> tasFlavors c \<noteq> fmempty")
    case True
    have T: "T = (if multiKueueAdmissionChecks c \<noteq> []
           then [(''NotSupportedWithTopologyAwareScheduling'',
                  [''TAS is not supported with MultiKueue admission check''])]
           else []) @
          (if provisioningAdmissionChecks c \<noteq> []
           then [(''NotSupportedWithTopologyAwareScheduling'',
                  [''TAS is not supported with ProvisioningRequest admission check''])]
           else []) @
          map (\<lambda>tasFlavor.
                 (''TopologyNotFound'',
                  [''there is no Topology '' @
                   quoted env (the (fmlookup (tasFlavors c) tasFlavor)) @
                   '' for TAS flavor '' @ quoted env tasFlavor]))
            (filter (\<lambda>tasFlavor. \<not> tasCacheGet env tasFlavor) visited)"
      unfolding T_def using True by (rule if_P)
    show ?thesis
      unfolding T
      by (simp only: tasCauses_alt [OF assms] if_P [OF True])
         (simp add: comp_def topologyMessage_def
            ClusterQueueActiveReasonNotSupportedWithTopologyAwareScheduling_def
            ClusterQueueActiveReasonTopologyNotFound_def)
  next
    case False
    have T: "T = []" unfolding T_def using False by (rule if_not_P)
    have "tasCauses env c visited rm8 = rm8" unfolding tasCauses_def using False by (rule if_not_P)
    then show ?thesis by (simp add: T)
  qed
  show ?thesis
    unfolding code t by (simp add: r8 spec)
qed

lemma applicableCauses_codes:
  "x \<in> set (applicableCauses env c visited) \<Longrightarrow> fst x \<in> set reasonCodes"
  by (auto simp: applicableCauses_def reasonCodes_def split: if_splits)


text \<open>
  Whatever the order of the range over \<^verbatim>\<open>c.tasFlavors\<close>: for a pending queue
  \<^verbatim>\<open>inactiveReason\<close> returns the reason code of the first recorded cause and a message made
  of the messages of all recorded causes, in the order stopped; missing flavors; missing
  admission checks; inactive admission checks; several MultiKueue checks; a MultiKueue check
  per flavor; several checks of a single-instance controller; a flavor-independent check at
  flavor level; TAS incompatibility. The messages are joined with a comma between the prefix
  and the final full stop, and the result goes through \<^verbatim>\<open>api.TruncateConditionMessage\<close>. The
  reason code is Ready for an active queue, Terminating for a terminating one, Unknown for a
  pending queue without a recorded cause, and in every case one of the enumerated codes.
  Only the order of the \<^verbatim>\<open>TopologyNotFound\<close> messages among themselves is the order of the
  range.
\<close>

lemma inactiveReason_causes:
  assumes "rangeOrder (tasFlavors c) visited"
  shows "(Status c = pending \<longrightarrow>
      inactiveReason env c visited =
        (case applicableCauses env c visited of
           [] \<Rightarrow> (''Unknown'', ''Can't admit new workloads.'')
         | cause # causes \<Rightarrow>
             (fst cause,
              TruncateConditionMessage env
                (''Can't admit new workloads: '' @
                 separated '', '' (concat (map snd (applicableCauses env c visited))) @ ''.'')))) \<and>
   (Status c = active \<longrightarrow> inactiveReason env c visited = (''Ready'', ''Can admit new workloads'')) \<and>
   (Status c = terminating \<longrightarrow> fst (inactiveReason env c visited) = ''Terminating'') \<and>
   fst (inactiveReason env c visited) \<in> set reasonCodes"
proof -
  have sub: "set visited \<subseteq> fset (fmdom (tasFlavors c))"
    using assms by (simp add: rangeOrder_def)
  have p: "inactiveReason env c visited =
        (case applicableCauses env c visited of
           [] \<Rightarrow> (''Unknown'', ''Can't admit new workloads.'')
         | cause # causes \<Rightarrow>
             (fst cause,
              TruncateConditionMessage env
                (''Can't admit new workloads: '' @
                 separated '', '' (concat (map snd (applicableCauses env c visited))) @ ''.'')))"
    if "Status c = pending"
    using that
    by (cases "applicableCauses env c visited")
       (simp_all add: inactiveReason_def pendingCauses_alt [OF sub] join_separated
          ClusterQueueActiveReasonUnknown_def)
  have a: "inactiveReason env c visited = (''Ready'', ''Can admit new workloads'')"
    if "Status c = active"
    using that by (simp add: inactiveReason_def ClusterQueueActiveReasonReady_def)
  have t: "fst (inactiveReason env c visited) = ''Terminating''" if "Status c = terminating"
    using that by (simp add: inactiveReason_def ClusterQueueActiveReasonTerminating_def)
  have m: "fst (inactiveReason env c visited) \<in> set reasonCodes"
  proof (cases "Status c")
    case pending
    show ?thesis
    proof (cases "applicableCauses env c visited")
      case Nil
      then show ?thesis by (simp add: p [OF pending] reasonCodes_def)
    next
      case (Cons cause causes)
      then have "cause \<in> set (applicableCauses env c visited)" by simp
      then have "fst cause \<in> set reasonCodes" by (rule applicableCauses_codes)
      then show ?thesis by (simp add: p [OF pending] Cons)
    qed
  next
    case active
    then show ?thesis by (simp add: a reasonCodes_def)
  next
    case terminating
    then show ?thesis by (simp add: t reasonCodes_def)
  qed
  from p a t m show ?thesis by blast
qed

text \<open>
  The same at three queues: a stopped queue that references a check the cache does not know,
  an active queue and a terminating queue.
\<close>

lemma inactiveReason_causes_examples:
  "inactiveReason exampleEnv pendingQueue [] =
     (''Stopped'',
      ''Can't admit new workloads: is stopped, references missing AdmissionCheck(s): [check3].'') \<and>
   inactiveReason exampleEnv emptyQueue [] = (''Ready'', ''Can admit new workloads'') \<and>
   fst (inactiveReason exampleEnv (emptyQueue\<lparr>Status := terminating\<rparr>) []) = ''Terminating''"
proof -
  have r: "rangeOrder (tasFlavors pendingQueue) []" "rangeOrder (tasFlavors emptyQueue) []"
    "rangeOrder (tasFlavors (emptyQueue\<lparr>Status := terminating\<rparr>)) []"
    by (simp_all add: rangeOrder_def pendingQueue_def emptyQueue_def)
  have s: "Status pendingQueue = pending" "Status emptyQueue = active"
    "Status (emptyQueue\<lparr>Status := terminating\<rparr>) = terminating"
    by (simp_all add: pendingQueue_def emptyQueue_def)
  have a: "applicableCauses exampleEnv pendingQueue [] =
      [(''Stopped'', [''is stopped'']),
       (''AdmissionCheckNotFound'', [''references missing AdmissionCheck(s): [check3]''])]"
    by (simp add: applicableCauses_def pendingQueue_def emptyQueue_def exampleEnv_def listed_def
        separated_def)
  have t: "TruncateConditionMessage exampleEnv = (\<lambda>s. s)" by (simp add: exampleEnv_def)
  from inactiveReason_causes [OF r(1), of exampleEnv] inactiveReason_causes [OF r(2), of exampleEnv]
    inactiveReason_causes [OF r(3), of exampleEnv] s a t
  show ?thesis by (simp add: separated_def)
qed


text \<open>
  \<^bold>\<open>C9\<close>. Once the status of a queue is terminating, no sequence of updates of the flavors,
  of the admission checks or of the whole queue changes it: \<^verbatim>\<open>updateQueueStatus\<close> computes
  terminating again, and \<^verbatim>\<open>inactiveReason\<close> returns the reason Terminating with its fixed
  message, whatever the order of its range over the TAS flavors.
\<close>

theorem terminating_is_final:
  assumes "Status c = terminating"
  shows "Status (fold (applyStatusOp env) ops c) = terminating \<and>
         Status (updateQueueStatus env (fold (applyStatusOp env) ops c)) = terminating \<and>
         inactiveReason env (fold (applyStatusOp env) ops c) visited =
           (''Terminating'', ''Can't admit new workloads; clusterQueue is terminating'')"
proof -
  have s: "Status (fold (applyStatusOp env) ops c) = terminating"
    using fold_applyStatusOp_status [of env c ops] assms by simp
  then show ?thesis
    by (simp add: updateQueueStatus_terminating inactiveReason_def
        ClusterQueueActiveReasonTerminating_def)
qed

theorem terminating_is_final_witness:
  "Status (emptyQueue\<lparr>Status := terminating\<rparr>) = terminating \<and>
   Status (fold (applyStatusOp exampleEnv)
      [OpUpdateWithFlavors fmempty, OpUpdateWithAdmissionChecks twoChecks,
       OpUpdateClusterQueue
         \<lparr>specResourceGroups = [], specNamespaceSelector = Some [], specStopPolicy = Some Hold,
          specAdmissionChecks = fmempty, specPreemption = None, specFlavorFungibility = None,
          specFairWeight = 1\<rparr> fmempty twoChecks None]
      (emptyQueue\<lparr>Status := terminating\<rparr>)) = terminating"
proof -
  have h: "Status (emptyQueue\<lparr>Status := terminating\<rparr>) = terminating" by simp
  from terminating_is_final [OF h] h show ?thesis by blast
qed

subsection \<open>The generation counter\<close>


lemma sint_add_of_nat:
  fixes x :: "64 word"
  assumes "sint x + int n < 2 ^ 63"
  shows "sint (x + of_nat n) = sint x + int n"
proof -
  have lo: "- (2 ^ 63) \<le> sint x + int n"
    using sint_ge [of x] by simp
  have "x + of_nat n = word_of_int (sint x + int n)"
    by simp
  then have "sint (x + of_nat n) = signed_take_bit 63 (sint x + int n)"
    by (simp only: sint_sbintrunc') simp
  also have "\<dots> = sint x + int n"
    using lo assms by (simp add: signed_take_bit_int_eq_self)
  finally show ?thesis .
qed

lemma generationAdvances_same:
  "AllocatableResourceGeneration c' = AllocatableResourceGeneration c \<Longrightarrow>
   generationAdvances 0 hi c c'"
  unfolding generationAdvances_def by (rule exI [of _ 0]) simp

lemma generationAdvances_one:
  "AllocatableResourceGeneration c' = AllocatableResourceGeneration c + 1 \<Longrightarrow>
   generationAdvances 1 1 c c'"
  unfolding generationAdvances_def by (rule exI [of _ 1]) simp

lemma generationAdvances_trans:
  assumes "generationAdvances lo1 hi1 a b" and "generationAdvances lo2 hi2 b c"
  shows "generationAdvances (lo1 + lo2) (hi1 + hi2) a c"
proof -
  from assms(1) obtain n where n: "lo1 \<le> n" "n \<le> hi1"
    "AllocatableResourceGeneration b = AllocatableResourceGeneration a + of_nat n"
    unfolding generationAdvances_def by blast
  from assms(2) obtain m where m: "lo2 \<le> m" "m \<le> hi2"
    "AllocatableResourceGeneration c = AllocatableResourceGeneration b + of_nat m"
    unfolding generationAdvances_def by blast
  have "AllocatableResourceGeneration c = AllocatableResourceGeneration a + of_nat (n + m)"
    by (simp add: n m)
  moreover have "lo1 + lo2 \<le> n + m" "n + m \<le> hi1 + hi2" using n m by simp_all
  ultimately show ?thesis unfolding generationAdvances_def by blast
qed

lemma generationAdvances_weaken:
  "generationAdvances lo hi a b \<Longrightarrow> lo' \<le> lo \<Longrightarrow> hi \<le> hi' \<Longrightarrow> generationAdvances lo' hi' a b"
  unfolding generationAdvances_def by (meson order_trans)

lemma generationAdvances_sle:
  assumes "generationAdvances lo hi c c'"
    and "sint (AllocatableResourceGeneration c) + int hi < 2 ^ 63"
  shows "AllocatableResourceGeneration c <=s AllocatableResourceGeneration c'"
    and "0 < lo \<Longrightarrow> AllocatableResourceGeneration c <s AllocatableResourceGeneration c'"
proof -
  from assms(1) obtain n where n: "lo \<le> n" "n \<le> hi"
    "AllocatableResourceGeneration c' = AllocatableResourceGeneration c + of_nat n"
    unfolding generationAdvances_def by blast
  have "sint (AllocatableResourceGeneration c) + int n < 2 ^ 63"
    using n(2) assms(2) by simp
  then have s: "sint (AllocatableResourceGeneration c') = sint (AllocatableResourceGeneration c) + int n"
    unfolding n(3) by (rule sint_add_of_nat)
  show "AllocatableResourceGeneration c <=s AllocatableResourceGeneration c'"
    by (simp add: word_sle_eq s)
  show "AllocatableResourceGeneration c <s AllocatableResourceGeneration c'" if "0 < lo"
    using that n(1) by (simp add: word_sless_alt s)
qed

lemma addOrUpdateWorkload_generation:
  "AllocatableResourceGeneration (addOrUpdateWorkload env c w) =
     AllocatableResourceGeneration c + (if fmlookup (Workloads c) (Key w) = None then 0 else 1)"
  by (cases "fmlookup (Workloads c) (Key w)")
     (simp_all add: addOrUpdateWorkload_new(2) addOrUpdateWorkload_existing(2))

lemma addOrUpdateWorkload_dom:
  "fmdom (Workloads (addOrUpdateWorkload env c w)) = finsert (Key w) (fmdom (Workloads c))"
  by (cases "fmlookup (Workloads c) (Key w)")
     (auto simp: addOrUpdateWorkload_new(1) addOrUpdateWorkload_existing(1))

lemma deleteWorkload_generation:
  "AllocatableResourceGeneration (deleteWorkload env c w) =
     AllocatableResourceGeneration c + (if fmlookup (Workloads c) (Key w) = None then 0 else 1)"
  by (cases "fmlookup (Workloads c) (Key w)")
     (simp_all add: deleteWorkload_absent deleteWorkload_present(2))

lemma accountDeferred_generation:
  "generationAdvances 0 1 c (accountDeferred env k c) \<and>
   fcard (fmdom (Workloads (accountDeferred env k c))) \<le> Suc (fcard (fmdom (Workloads c)))"
proof (cases "\<exists>w. fmlookup (Workloads c) k = Some w \<and> k \<in> workloadsNotAccountedForTAS c")
  case False
  then have "accountDeferred env k c = c"
    by (auto simp: accountDeferred_def split: option.split)
  then show ?thesis by (simp add: generationAdvances_same)
next
  case True
  then obtain w where w: "fmlookup (Workloads c) k = Some w" "k \<in> workloadsNotAccountedForTAS c"
    by blast
  let ?a = "addOrUpdateWorkload env c w"
  have g: "AllocatableResourceGeneration (accountDeferred env k c) = AllocatableResourceGeneration ?a"
    and d: "Workloads (accountDeferred env k c) = Workloads ?a"
    by (simp_all add: accountDeferred_def w Let_def)
  have "generationAdvances 0 1 c ?a"
  proof (cases "fmlookup (Workloads c) (Key w)")
    case None
    then show ?thesis by (simp add: generationAdvances_same addOrUpdateWorkload_generation)
  next
    case (Some old)
    then have "AllocatableResourceGeneration ?a = AllocatableResourceGeneration c + 1"
      by (simp add: addOrUpdateWorkload_generation)
    then have "generationAdvances 1 1 c ?a"
      by (rule generationAdvances_one)
    then show ?thesis by (rule generationAdvances_weaken) simp_all
  qed
  then have "generationAdvances 0 1 c (accountDeferred env k c)"
    unfolding generationAdvances_def g .
  moreover have "fcard (fmdom (Workloads (accountDeferred env k c))) \<le> Suc (fcard (fmdom (Workloads c)))"
    by (simp add: d addOrUpdateWorkload_dom fcard_finsert_if)
  ultimately show ?thesis by blast
qed

lemma fold_accountDeferred_generation:
  "generationAdvances 0 (length ks) c (fold (accountDeferred env) ks c) \<and>
   fcard (fmdom (Workloads (fold (accountDeferred env) ks c))) \<le>
     fcard (fmdom (Workloads c)) + length ks"
proof (induction ks arbitrary: c)
  case Nil
  show ?case by (simp add: generationAdvances_same)
next
  case (Cons k ks)
  let ?c1 = "accountDeferred env k c"
  note s = accountDeferred_generation [of c env k]
  note ih = Cons.IH [of ?c1]
  have "generationAdvances (0 + 0) (1 + length ks) c (fold (accountDeferred env) ks ?c1)"
    using s ih by (blast intro: generationAdvances_trans)
  moreover have "fcard (fmdom (Workloads (fold (accountDeferred env) ks ?c1))) \<le>
      fcard (fmdom (Workloads c)) + length (k # ks)"
    using s ih by simp
  ultimately show ?case by simp
qed

lemma length_keysOf [simp]: "length (keysOf m) = fcard (fmdom m)"
  by (simp add: keysOf_def sorted_list_of_fset.rep_eq fcard.rep_eq)

lemma deferredAccounted_generation:
  "generationAdvances 0 (fcard (fmdom (Workloads c))) c (deferredAccounted env c) \<and>
   fcard (fmdom (Workloads (deferredAccounted env c))) \<le> 2 * fcard (fmdom (Workloads c))"
  using fold_accountDeferred_generation [of "keysOf (Workloads c)" c env]
  by (simp add: deferredAccounted_def generationAdvances_same)

lemma updateQueueStatus_generation:
  "generationAdvances 0 (fcard (fmdom (Workloads c))) c (updateQueueStatus env c) \<and>
   fcard (fmdom (Workloads (updateQueueStatus env c))) \<le> 2 * fcard (fmdom (Workloads c))"
  using deferredAccounted_generation [of c env]
  by (simp add: updateQueueStatus_alt generationAdvances_def)


lemma updateLabelKeys_same [simp]:
  "AllocatableResourceGeneration (updateLabelKeys c flavors) = AllocatableResourceGeneration c"
  "Workloads (updateLabelKeys c flavors) = Workloads c"
  by (simp_all add: updateLabelKeys_def split: prod.split)

lemma UpdateWithFlavors_generation:
  "generationAdvances 0 (fcard (fmdom (Workloads c))) c (UpdateWithFlavors env c flavors) \<and>
   fcard (fmdom (Workloads (UpdateWithFlavors env c flavors))) \<le> 2 * fcard (fmdom (Workloads c))"
  using updateQueueStatus_generation [of "updateLabelKeys c flavors" env]
  by (simp add: UpdateWithFlavors_def generationAdvances_def)

lemma updateWithAdmissionChecks_generation:
  "generationAdvances 0 (fcard (fmdom (Workloads c))) c (updateWithAdmissionChecks env c checks) \<and>
   fcard (fmdom (Workloads (updateWithAdmissionChecks env c checks))) \<le>
     2 * fcard (fmdom (Workloads c))"
proof -
  from updateWithAdmissionChecks_cases [of env c checks]
  consider "updateWithAdmissionChecks env c checks = c"
    | c' where "Workloads c' = Workloads c"
        "AllocatableResourceGeneration c' = AllocatableResourceGeneration c"
        "updateWithAdmissionChecks env c checks = updateQueueStatus env c'"
    by blast
  then show ?thesis
  proof cases
    case 1
    then show ?thesis by (simp add: generationAdvances_same)
  next
    case 2
    then show ?thesis
      using updateQueueStatus_generation [of c' env] by (simp add: generationAdvances_def)
  qed
qed

lemma generationAdvances_two:
  "AllocatableResourceGeneration c' = AllocatableResourceGeneration c + 2 \<Longrightarrow>
   generationAdvances 2 2 c c'"
  unfolding generationAdvances_def by (rule exI [of _ 2]) simp

lemma updateCohortTreeResources_generation:
  "AllocatableResourceGeneration (snd (updateCohortTreeResources env c cohort)) =
     AllocatableResourceGeneration c + (if \<not> cohortHasCycle env cohort \<and> inCohortTree env c cohort then 1 else 0)"
  "Workloads (snd (updateCohortTreeResources env c cohort)) = Workloads c"
  "Parent (snd (updateCohortTreeResources env c cohort)) = Parent c"
  by (simp_all add: updateCohortTreeResources_def updateClusterQueueResourceNode_def)

lemma inCohortTree_parent:
  "Parent c = Some cohort \<Longrightarrow> inCohortTree env c cohort \<longleftrightarrow> \<not> cohortHasCycle env cohort"
  by (simp add: inCohortTree_def)

lemma inCohortTree_cong:
  "Parent c' = Parent c \<Longrightarrow> inCohortTree env c' cohort = inCohortTree env c cohort"
  by (simp add: inCohortTree_def)

text \<open>
  The first half of \<^verbatim>\<open>updateClusterQueue\<close> bumps the generation at most twice: once with the
  tree of the old parent, when the queue still hangs in that tree, and once with its own
  tree or node. It bumps it at least once when the resource groups or the quotas have
  changed, unless the cohort above the queue has a cycle.
\<close>

lemma quotaStage_generation:
  "Workloads (snd (quotaStage env c inp oldParent)) = Workloads c"
  "AllocatableResourceGeneration (snd (quotaStage env c inp oldParent)) =
     AllocatableResourceGeneration c \<or>
   AllocatableResourceGeneration (snd (quotaStage env c inp oldParent)) =
     AllocatableResourceGeneration c + 1 \<or>
   AllocatableResourceGeneration (snd (quotaStage env c inp oldParent)) =
     AllocatableResourceGeneration c + 2"
  "fst (updateQuotasAndResourceGroups env c (specResourceGroups inp)) \<Longrightarrow>
   (\<forall>cohort. Parent c = Some cohort \<longrightarrow> \<not> cohortHasCycle env cohort) \<Longrightarrow>
   AllocatableResourceGeneration (snd (quotaStage env c inp oldParent)) =
     AllocatableResourceGeneration c + 1 \<or>
   AllocatableResourceGeneration (snd (quotaStage env c inp oldParent)) =
     AllocatableResourceGeneration c + 2"
proof -
  obtain changed c1 where u: "updateQuotasAndResourceGroups env c (specResourceGroups inp) = (changed, c1)"
    by (cases "updateQuotasAndResourceGroups env c (specResourceGroups inp)")
  have c1: "Workloads c1 = Workloads c" "Parent c1 = Parent c"
    "AllocatableResourceGeneration c1 = AllocatableResourceGeneration c"
    using u by (auto simp: updateQuotasAndResourceGroups_def Let_def)
  define c1' where "c1' = (case oldParent of
      Some old \<Rightarrow> if oldParent \<noteq> Parent c1 then snd (updateCohortTreeResources env c1 old) else c1
    | None \<Rightarrow> c1)"
  have c1': "Workloads c1' = Workloads c" "Parent c1' = Parent c"
    "AllocatableResourceGeneration c1' = AllocatableResourceGeneration c \<or>
     AllocatableResourceGeneration c1' = AllocatableResourceGeneration c + 1"
    by (auto simp: c1'_def c1 updateCohortTreeResources_generation split: option.split)
  define r where "r = (case Parent c1' of
      Some cohort \<Rightarrow> updateCohortTreeResources env c1' cohort
    | None \<Rightarrow> (None, updateClusterQueueResourceNode c1'))"
  have r: "Workloads (snd r) = Workloads c"
    "AllocatableResourceGeneration (snd r) = AllocatableResourceGeneration c1' \<or>
     AllocatableResourceGeneration (snd r) = AllocatableResourceGeneration c1' + 1"
    "(\<forall>cohort. Parent c = Some cohort \<longrightarrow> \<not> cohortHasCycle env cohort) \<Longrightarrow>
     AllocatableResourceGeneration (snd r) = AllocatableResourceGeneration c1' + 1"
    by (auto simp: r_def c1' updateCohortTreeResources_generation inCohortTree_parent
        updateClusterQueueResourceNode_def split: option.split)
  have q: "quotaStage env c inp oldParent = (if changed \<or> oldParent \<noteq> Parent c1 then r else (None, c1))"
    unfolding quotaStage_def u prod.case Let_def r_def c1'_def by (rule refl)
  show "Workloads (snd (quotaStage env c inp oldParent)) = Workloads c"
    by (simp add: q r(1) c1)
  show "AllocatableResourceGeneration (snd (quotaStage env c inp oldParent)) =
     AllocatableResourceGeneration c \<or>
   AllocatableResourceGeneration (snd (quotaStage env c inp oldParent)) =
     AllocatableResourceGeneration c + 1 \<or>
   AllocatableResourceGeneration (snd (quotaStage env c inp oldParent)) =
     AllocatableResourceGeneration c + 2"
    using r(2) c1'(3) by (auto simp: q c1)
  show "AllocatableResourceGeneration (snd (quotaStage env c inp oldParent)) =
     AllocatableResourceGeneration c + 1 \<or>
   AllocatableResourceGeneration (snd (quotaStage env c inp oldParent)) =
     AllocatableResourceGeneration c + 2"
    if "fst (updateQuotasAndResourceGroups env c (specResourceGroups inp))"
      "\<forall>cohort. Parent c = Some cohort \<longrightarrow> \<not> cohortHasCycle env cohort"
    using that r(3) c1'(3) by (auto simp: q u)
qed

lemma quotaStage_advances:
  "generationAdvances
     (if fst (updateQuotasAndResourceGroups env c (specResourceGroups inp)) \<and>
         (\<forall>cohort. Parent c = Some cohort \<longrightarrow> \<not> cohortHasCycle env cohort) then 1 else 0)
     2 c (snd (quotaStage env c inp oldParent))"
proof -
  let ?c2 = "snd (quotaStage env c inp oldParent)"
  note qs = quotaStage_generation [of env c inp oldParent]
  have any: "generationAdvances 0 2 c ?c2"
    using qs(2)
    by (auto intro: generationAdvances_same generationAdvances_weaken [OF generationAdvances_one]
        generationAdvances_weaken [OF generationAdvances_two])
  show ?thesis
  proof (cases "fst (updateQuotasAndResourceGroups env c (specResourceGroups inp)) \<and>
         (\<forall>cohort. Parent c = Some cohort \<longrightarrow> \<not> cohortHasCycle env cohort)")
    case True
    then have "AllocatableResourceGeneration ?c2 = AllocatableResourceGeneration c + 1 \<or>
       AllocatableResourceGeneration ?c2 = AllocatableResourceGeneration c + 2"
      using qs(3) by blast
    then have "generationAdvances 1 2 c ?c2"
      by (auto intro: generationAdvances_weaken [OF generationAdvances_one]
          generationAdvances_weaken [OF generationAdvances_two])
    then show ?thesis by (simp only: if_P [OF True])
  next
    case False
    show ?thesis using any by (simp only: if_not_P [OF False])
  qed
qed

lemma specStage_same [simp]:
  "AllocatableResourceGeneration (specStage c inp sel) = AllocatableResourceGeneration c"
  "Workloads (specStage c inp sel) = Workloads c"
  by (simp_all add: specStage_def)

lemma updateClusterQueue_generation:
  "generationAdvances
     (if fst (updateQuotasAndResourceGroups env c (specResourceGroups inp)) \<and>
         (\<forall>cohort. Parent c = Some cohort \<longrightarrow> \<not> cohortHasCycle env cohort) then 1 else 0)
     (3 * fcard (fmdom (Workloads c)) + 2) c
     (snd (updateClusterQueue env c inp flavors checks oldParent))"
proof -
  let ?N = "fcard (fmdom (Workloads c))"
  let ?lo = "if fst (updateQuotasAndResourceGroups env c (specResourceGroups inp)) \<and>
         (\<forall>cohort. Parent c = Some cohort \<longrightarrow> \<not> cohortHasCycle env cohort) then 1 else 0 :: nat"
  obtain e c2 where q: "quotaStage env c inp oldParent = (e, c2)"
    by (cases "quotaStage env c inp oldParent")
  have w2: "Workloads c2 = Workloads c"
    using quotaStage_generation(1) [of env c inp oldParent] by (simp add: q)
  have a1: "generationAdvances ?lo 2 c c2"
    using quotaStage_advances [of env c inp oldParent] by (simp add: q)
  show ?thesis
  proof (cases "e = None \<and> specNamespaceSelector inp \<noteq> None")
    case False
    then have r: "snd (updateClusterQueue env c inp flavors checks oldParent) = c2"
      by (auto simp: updateClusterQueue_stages q split: option.split)
    have "generationAdvances ?lo (3 * ?N + 2) c c2"
      by (rule generationAdvances_weaken [OF a1]) simp_all
    then show ?thesis by (simp only: r)
  next
    case True
    then obtain sel where sel: "specNamespaceSelector inp = Some sel" and e: "e = None" by auto
    let ?s = "specStage c2 inp sel"
    let ?f = "UpdateWithFlavors env ?s flavors"
    let ?u = "updateWithAdmissionChecks env ?f checks"
    have res: "AllocatableResourceGeneration (snd (updateClusterQueue env c inp flavors checks oldParent))
        = AllocatableResourceGeneration ?u"
      by (simp add: updateClusterQueue_stages q e sel)
    have a2: "generationAdvances ?lo 2 c ?s"
      using a1 by (simp add: generationAdvances_def)
    have a3: "generationAdvances 0 ?N ?s ?f" and n3: "fcard (fmdom (Workloads ?f)) \<le> 2 * ?N"
      using UpdateWithFlavors_generation [of ?s env flavors] by (simp_all add: w2)
    have a4: "generationAdvances 0 (fcard (fmdom (Workloads ?f))) ?f ?u"
      using updateWithAdmissionChecks_generation [of ?f env checks] by simp
    have "generationAdvances (?lo + 0 + 0) (2 + ?N + fcard (fmdom (Workloads ?f))) c ?u"
      by (rule generationAdvances_trans [OF generationAdvances_trans [OF a2 a3] a4])
    then have "generationAdvances ?lo (3 * ?N + 2) c ?u"
      by (rule generationAdvances_weaken) (use n3 in simp_all)
    then show ?thesis
      unfolding generationAdvances_def res .
  qed
qed

lemma applyQueueOp_generation:
  "generationAdvances 0 (3 * fcard (fmdom (Workloads c)) + 2) c (applyQueueOp env op c)"
proof -
  define hi where "hi = 3 * fcard (fmdom (Workloads c)) + 2"
  have hi: "1 \<le> hi" "fcard (fmdom (Workloads c)) \<le> hi" by (simp_all add: hi_def)
  have same: "generationAdvances 0 hi c c'"
    if "AllocatableResourceGeneration c' = AllocatableResourceGeneration c" for c'
    using that by (rule generationAdvances_same)
  have one: "generationAdvances 0 hi c c'"
    if "AllocatableResourceGeneration c' = AllocatableResourceGeneration c + 1" for c'
    by (rule generationAdvances_weaken [OF generationAdvances_one [OF that]]) (use hi in simp_all)
  have many: "generationAdvances 0 hi c c'"
    if "generationAdvances 0 (fcard (fmdom (Workloads c))) c c'" for c'
    by (rule generationAdvances_weaken [OF that]) (use hi in simp_all)
  have add: "generationAdvances 0 hi c (addOrUpdateWorkload env c w)" for w
    by (cases "fmlookup (Workloads c) (Key w)")
       (simp_all add: same one addOrUpdateWorkload_generation)
  have del: "generationAdvances 0 hi c (deleteWorkload env c w)" for w
    by (cases "fmlookup (Workloads c) (Key w)")
       (simp_all add: same one deleteWorkload_generation)
  have "generationAdvances 0 hi c (applyQueueOp env op c)"
  proof (cases op)
    case (StatusOp sop)
    show ?thesis
    proof (cases sop)
      case (OpUpdateClusterQueue inp flavors checks oldParent)
      have "generationAdvances 0 hi c (snd (updateClusterQueue env c inp flavors checks oldParent))"
        unfolding hi_def
        by (rule generationAdvances_weaken
            [OF updateClusterQueue_generation [of env c inp flavors checks oldParent]]) simp_all
      then show ?thesis by (simp add: StatusOp OpUpdateClusterQueue)
    next
      case (OpUpdateWithFlavors flavors)
      show ?thesis
        using UpdateWithFlavors_generation [of c env flavors]
        by (simp add: StatusOp OpUpdateWithFlavors many)
    next
      case (OpUpdateWithAdmissionChecks checks)
      show ?thesis
        using updateWithAdmissionChecks_generation [of c env checks]
        by (simp add: StatusOp OpUpdateWithAdmissionChecks many)
    qed
  next
    case (WorkloadOp wop)
    show ?thesis
      by (cases wop) (simp_all add: WorkloadOp addWorkload_def add del same)
  next
    case OpUpdateQueueStatus
    show ?thesis
      using updateQueueStatus_generation [of c env]
      by (simp add: OpUpdateQueueStatus many)
  next
    case (OpForgetWorkload w)
    have "AllocatableResourceGeneration (forgetWorkload env c w) =
          AllocatableResourceGeneration (deleteWorkload env c w)"
      by (simp add: forgetWorkload_def Let_def)
    then show ?thesis
      using del [of w] by (simp add: OpForgetWorkload generationAdvances_def)
  next
    case (OpAddLocalQueue q)
    show ?thesis
      by (simp add: OpAddLocalQueue addLocalQueue_def Let_def same)
  next
    case (OpDeleteLocalQueue q)
    show ?thesis
      by (simp add: OpDeleteLocalQueue deleteLocalQueue_def same)
  qed
  then show ?thesis by (simp add: hi_def)
qed

lemma quotasChanged:
  "createdResourceGroups (specResourceGroups inp) \<noteq> ResourceGroups c \<or>
   createResourceQuotas env (specResourceGroups inp) \<noteq> Quotas (resourceNode c) \<Longrightarrow>
   fst (updateQuotasAndResourceGroups env c (specResourceGroups inp))"
  by (auto simp: updateQuotasAndResourceGroups_def Let_def)

lemma updateQueueStatus_generation_gate:
  "\<not> TopologyAwareScheduling env \<Longrightarrow>
   AllocatableResourceGeneration (updateQueueStatus env c) = AllocatableResourceGeneration c"
  by (simp add: updateQueueStatus_def Let_def)

lemma UpdateWithFlavors_generation_gate:
  "\<not> TopologyAwareScheduling env \<Longrightarrow>
   AllocatableResourceGeneration (UpdateWithFlavors env c flavors) = AllocatableResourceGeneration c"
  by (simp add: UpdateWithFlavors_def updateQueueStatus_generation_gate)

lemma updateWithAdmissionChecks_generation_gate:
  assumes "\<not> TopologyAwareScheduling env"
  shows "AllocatableResourceGeneration (updateWithAdmissionChecks env c checks) =
         AllocatableResourceGeneration c"
proof -
  from updateWithAdmissionChecks_cases [of env c checks]
  consider "updateWithAdmissionChecks env c checks = c"
    | c' where "Workloads c' = Workloads c"
        "AllocatableResourceGeneration c' = AllocatableResourceGeneration c"
        "updateWithAdmissionChecks env c checks = updateQueueStatus env c'"
    by blast
  then show ?thesis
    by cases (simp_all add: updateQueueStatus_generation_gate [OF assms])
qed

lemma updateClusterQueue_generation_gate:
  assumes "\<not> TopologyAwareScheduling env"
  shows "AllocatableResourceGeneration (snd (updateClusterQueue env c inp flavors checks oldParent)) =
         AllocatableResourceGeneration (snd (quotaStage env c inp oldParent))"
proof -
  obtain e c2 where q: "quotaStage env c inp oldParent = (e, c2)"
    by (cases "quotaStage env c inp oldParent")
  show ?thesis
    by (simp add: updateClusterQueue_stages q UpdateWithFlavors_generation_gate [OF assms]
        updateWithAdmissionChecks_generation_gate [OF assms] split: option.split)
qed

text \<open>
  \<^bold>\<open>C5\<close>, as amended. As long as \<^verbatim>\<open>AllocatableResourceGeneration\<close>, an int64, is more than
  three times the number of workloads of the queue plus two below the largest int64, no
  operation on the queue decreases it, and it strictly increases when \<^verbatim>\<open>deleteWorkload\<close> or
  \<^verbatim>\<open>forgetWorkload\<close> removes a workload that is in the queue, and when \<^verbatim>\<open>updateClusterQueue\<close>
  finds the resource groups or the quotas of the queue changed, unless the cohort above the
  queue has a cycle. (One operation increments the counter at most that many times: twice
  for the trees of the old and the new parent, and once for each workload that the deferred
  TAS accounting of \<^verbatim>\<open>updateQueueStatus\<close> deletes and adds again.)
\<close>

theorem generation_never_decreases:
  assumes "sint (AllocatableResourceGeneration c) + 3 * int (fcard (fmdom (Workloads c))) + 2
           < 2 ^ 63"
  shows "AllocatableResourceGeneration c <=s AllocatableResourceGeneration (applyQueueOp env op c) \<and>
         ((\<exists>w. (op = WorkloadOp (OpDeleteWorkload w) \<or> op = OpForgetWorkload w) \<and>
               fmlookup (Workloads c) (Key w) \<noteq> None) \<longrightarrow>
          AllocatableResourceGeneration c <s AllocatableResourceGeneration (applyQueueOp env op c)) \<and>
         ((\<exists>inp flavors checks oldParent.
              op = StatusOp (OpUpdateClusterQueue inp flavors checks oldParent) \<and>
              (createdResourceGroups (specResourceGroups inp) \<noteq> ResourceGroups c \<or>
               createResourceQuotas env (specResourceGroups inp) \<noteq> Quotas (resourceNode c)) \<and>
              (case Parent c of None \<Rightarrow> True | Some cohort \<Rightarrow> \<not> cohortHasCycle env cohort)) \<longrightarrow>
          AllocatableResourceGeneration c <s AllocatableResourceGeneration (applyQueueOp env op c))"
proof -
  let ?hi = "3 * fcard (fmdom (Workloads c)) + 2"
  have bound: "sint (AllocatableResourceGeneration c) + int ?hi < 2 ^ 63"
    using assms by simp
  have mono: "AllocatableResourceGeneration c <=s AllocatableResourceGeneration (applyQueueOp env op c)"
    by (rule generationAdvances_sle(1) [OF applyQueueOp_generation bound])
  have del: "AllocatableResourceGeneration c <s AllocatableResourceGeneration (applyQueueOp env op c)"
    if "(op = WorkloadOp (OpDeleteWorkload w) \<or> op = OpForgetWorkload w)"
      "fmlookup (Workloads c) (Key w) \<noteq> None" for w
  proof -
    have "AllocatableResourceGeneration (applyQueueOp env op c) = AllocatableResourceGeneration c + 1"
      using that by (auto simp: forgetWorkload_def Let_def deleteWorkload_generation)
    then have "generationAdvances 1 1 c (applyQueueOp env op c)" by (rule generationAdvances_one)
    then have "generationAdvances 1 ?hi c (applyQueueOp env op c)"
      by (rule generationAdvances_weaken) simp_all
    from generationAdvances_sle(2) [OF this bound] show ?thesis by simp
  qed
  have upd: "AllocatableResourceGeneration c <s AllocatableResourceGeneration (applyQueueOp env op c)"
    if "op = StatusOp (OpUpdateClusterQueue inp flavors checks oldParent)"
      "createdResourceGroups (specResourceGroups inp) \<noteq> ResourceGroups c \<or>
       createResourceQuotas env (specResourceGroups inp) \<noteq> Quotas (resourceNode c)"
      "case Parent c of None \<Rightarrow> True | Some cohort \<Rightarrow> \<not> cohortHasCycle env cohort"
    for inp flavors checks oldParent
  proof -
    have ch: "fst (updateQuotasAndResourceGroups env c (specResourceGroups inp))"
      using that(2) by (rule quotasChanged)
    have nc: "\<forall>cohort. Parent c = Some cohort \<longrightarrow> \<not> cohortHasCycle env cohort"
      using that(3) by (simp split: option.splits)
    have "generationAdvances 1 ?hi c (snd (updateClusterQueue env c inp flavors checks oldParent))"
      using updateClusterQueue_generation [of env c inp flavors checks oldParent] ch nc
      by simp
    then have "generationAdvances 1 ?hi c (applyQueueOp env op c)"
      by (simp add: that(1))
    from generationAdvances_sle(2) [OF this bound] show ?thesis by simp
  qed
  from mono del upd show ?thesis by blast
qed

theorem generation_never_decreases_witness:
  "sint (AllocatableResourceGeneration busyQueue) +
     3 * int (fcard (fmdom (Workloads busyQueue))) + 2 < 2 ^ 63 \<and>
   fmlookup (Workloads busyQueue) (Key exampleWorkload) \<noteq> None \<and>
   AllocatableResourceGeneration busyQueue <s
     AllocatableResourceGeneration
       (applyQueueOp exampleEnv (WorkloadOp (OpDeleteWorkload exampleWorkload)) busyQueue) \<and>
   sint (AllocatableResourceGeneration cohortQueue) +
     3 * int (fcard (fmdom (Workloads cohortQueue))) + 2 < 2 ^ 63 \<and>
   createdResourceGroups (specResourceGroups exampleUpdate) \<noteq> ResourceGroups cohortQueue \<and>
   (case Parent cohortQueue of None \<Rightarrow> True
    | Some cohort \<Rightarrow> \<not> cohortHasCycle exampleEnv cohort) \<and>
   AllocatableResourceGeneration cohortQueue = 1 \<and>
   AllocatableResourceGeneration
     (applyQueueOp exampleEnv
        (StatusOp (OpUpdateClusterQueue exampleUpdate fmempty fmempty (Some ''team-a'')))
        cohortQueue) = 3 \<and>
   AllocatableResourceGeneration cohortQueue <s
     AllocatableResourceGeneration
       (applyQueueOp exampleEnv
          (StatusOp (OpUpdateClusterQueue exampleUpdate fmempty fmempty (Some ''team-a'')))
          cohortQueue)"
proof -
  have h1: "sint (AllocatableResourceGeneration busyQueue) +
     3 * int (fcard (fmdom (Workloads busyQueue))) + 2 < 2 ^ 63"
    by (simp add: busyQueue_def emptyQueue_def fcard_finsert_if fcard_fempty)
  have p1: "fmlookup (Workloads busyQueue) (Key exampleWorkload) \<noteq> None"
    by (simp add: busyQueue_def emptyQueue_def exampleWorkload_def Key_def)
  have h2: "sint (AllocatableResourceGeneration cohortQueue) +
     3 * int (fcard (fmdom (Workloads cohortQueue))) + 2 < 2 ^ 63"
    by (simp add: cohortQueue_def emptyQueue_def fcard_fempty)
  have ch: "createdResourceGroups (specResourceGroups exampleUpdate) \<noteq> ResourceGroups cohortQueue"
    by (simp add: cohortQueue_def emptyQueue_def exampleUpdate_def createdResourceGroups_def)
  have nc: "case Parent cohortQueue of None \<Rightarrow> True
    | Some cohort \<Rightarrow> \<not> cohortHasCycle exampleEnv cohort"
    by (simp add: exampleEnv_def cohortQueue_def)
  have g1: "AllocatableResourceGeneration cohortQueue = 1"
    by (simp add: cohortQueue_def emptyQueue_def)
  have gate: "\<not> TopologyAwareScheduling exampleEnv" by (simp add: exampleEnv_def)
  have g3: "AllocatableResourceGeneration
     (applyQueueOp exampleEnv
        (StatusOp (OpUpdateClusterQueue exampleUpdate fmempty fmempty (Some ''team-a'')))
        cohortQueue) = 3"
    by (simp add: updateClusterQueue_generation_gate [OF gate])
       (simp add: quotaStage_def updateQuotasAndResourceGroups_def Let_def cohortQueue_def
          emptyQueue_def exampleUpdate_def createdResourceGroups_def updateCohortTreeResources_def
          inCohortTree_def updateClusterQueueResourceNode_def exampleEnv_def)
  from generation_never_decreases [OF h1, of exampleEnv "WorkloadOp (OpDeleteWorkload exampleWorkload)"]
    generation_never_decreases [OF h2, of exampleEnv
      "StatusOp (OpUpdateClusterQueue exampleUpdate fmempty fmempty (Some ''team-a''))"]
    h1 h2 p1 ch nc g1 g3
  show ?thesis by blast
qed

text \<open>
  The statement of C5 as it stands fails in three places. At the largest int64 the increment
  of \<^verbatim>\<open>deleteWorkload\<close> wraps around and the counter decreases. \<^verbatim>\<open>deleteWorkload\<close> of a
  workload that is not in the queue returns at once and leaves the counter as it is. And an
  \<^verbatim>\<open>updateClusterQueue\<close> that replaces the resource groups of a queue whose cohort has a
  cycle returns the error of the tree update with the counter as it was.
\<close>

theorem generation_wraps_counterexample:
  "fmlookup (Workloads lastGenerationQueue) (Key exampleWorkload) = Some exampleWorkload \<and>
   AllocatableResourceGeneration lastGenerationQueue = 9223372036854775807 \<and>
   AllocatableResourceGeneration
     (applyQueueOp exampleEnv (WorkloadOp (OpDeleteWorkload exampleWorkload)) lastGenerationQueue)
     <s AllocatableResourceGeneration lastGenerationQueue \<and>
   fmlookup (Workloads emptyQueue) (Key exampleWorkload) = None \<and>
   AllocatableResourceGeneration
     (applyQueueOp exampleEnv (WorkloadOp (OpDeleteWorkload exampleWorkload)) emptyQueue) =
     AllocatableResourceGeneration emptyQueue \<and>
   ResourceGroups cohortQueue = [] \<and>
   ResourceGroups
     (applyQueueOp cyclicEnv (StatusOp (OpUpdateClusterQueue exampleUpdate fmempty fmempty None))
        cohortQueue) =
     [\<lparr>CoveredResources = {|''cpu''|}, Flavors = [''default''], LabelKeys = {||}\<rparr>] \<and>
   fst (updateClusterQueue cyclicEnv cohortQueue exampleUpdate fmempty fmempty None) =
     Some errCohortCycle \<and>
   AllocatableResourceGeneration
     (applyQueueOp cyclicEnv (StatusOp (OpUpdateClusterQueue exampleUpdate fmempty fmempty None))
        cohortQueue) =
     AllocatableResourceGeneration cohortQueue"
proof -
  have p: "fmlookup (Workloads lastGenerationQueue) (Key exampleWorkload) = Some exampleWorkload"
    by (simp add: lastGenerationQueue_def busyQueue_def emptyQueue_def exampleWorkload_def Key_def)
  have g: "AllocatableResourceGeneration lastGenerationQueue = 9223372036854775807"
    by (simp add: lastGenerationQueue_def)
  have w: "AllocatableResourceGeneration
     (applyQueueOp exampleEnv (WorkloadOp (OpDeleteWorkload exampleWorkload)) lastGenerationQueue)
     <s AllocatableResourceGeneration lastGenerationQueue"
    using p g by (simp add: deleteWorkload_present(2) [OF p])
  have a: "fmlookup (Workloads emptyQueue) (Key exampleWorkload) = None"
    by (simp add: emptyQueue_def)
  have d: "AllocatableResourceGeneration
     (applyQueueOp exampleEnv (WorkloadOp (OpDeleteWorkload exampleWorkload)) emptyQueue) =
     AllocatableResourceGeneration emptyQueue"
    by (simp add: deleteWorkload_absent [OF a])
  have q: "quotaStage cyclicEnv cohortQueue exampleUpdate None =
     (Some errCohortCycle,
      cohortQueue\<lparr>ResourceGroups := createdResourceGroups (specResourceGroups exampleUpdate),
        resourceNode := (resourceNode cohortQueue)\<lparr>Quotas := fmempty\<rparr>\<rparr>)"
    by (simp add: quotaStage_def updateQuotasAndResourceGroups_def Let_def cohortQueue_def
        emptyQueue_def exampleUpdate_def createdResourceGroups_def updateCohortTreeResources_def
        inCohortTree_def updateClusterQueueResourceNode_def exampleEnv_def cyclicEnv_def)
  have u: "updateClusterQueue cyclicEnv cohortQueue exampleUpdate fmempty fmempty None =
     (Some errCohortCycle,
      cohortQueue\<lparr>ResourceGroups := createdResourceGroups (specResourceGroups exampleUpdate),
        resourceNode := (resourceNode cohortQueue)\<lparr>Quotas := fmempty\<rparr>\<rparr>)"
    by (simp add: updateClusterQueue_stages q)
  have r0: "ResourceGroups cohortQueue = []" by (simp add: cohortQueue_def emptyQueue_def)
  have r1: "ResourceGroups
     (applyQueueOp cyclicEnv (StatusOp (OpUpdateClusterQueue exampleUpdate fmempty fmempty None))
        cohortQueue) =
     [\<lparr>CoveredResources = {|''cpu''|}, Flavors = [''default''], LabelKeys = {||}\<rparr>]"
    by (simp add: u) (simp add: createdResourceGroups_def exampleUpdate_def)
  have e: "fst (updateClusterQueue cyclicEnv cohortQueue exampleUpdate fmempty fmempty None) =
     Some errCohortCycle"
    by (simp add: u)
  have s: "AllocatableResourceGeneration
     (applyQueueOp cyclicEnv (StatusOp (OpUpdateClusterQueue exampleUpdate fmempty fmempty None))
        cohortQueue) =
     AllocatableResourceGeneration cohortQueue"
    by (simp add: u)
  from p g w a d r0 r1 e s show ?thesis by blast
qed

end
